(* ===== verification/V2V_Prelude.thy ===== *)
theory V2V_Prelude
  imports Complex_Main "HOL-Library.While_Combinator"
begin

text \<open>
  Shared vocabulary of the V2V development. Vehicle identifiers and antenna (micro-cell)
  identifiers are the C++ \<open>int\<close>s of the source; the source's
  \<open>std::unordered_map<int, std::unordered_set<int>>\<close> adjacency lists (of
  \<open>InterferenceGraph\<close>) are partial maps from an identifier to a finite set of
  identifiers. Reading an absent key through \<open>find\<close> yields the empty set
  (\<open>getDirectNeighbors\<close>), and \<open>operator[]\<close> creates the empty set first.
  Doubles are modelled as \<open>real\<close>: rounding is not modelled.
\<close>

type_synonym vid = int
type_synonym cell_id = int
type_synonym adjacency = "int \<rightharpoonup> int set"

named_theorems adj_simps "characteristic equations of adjacency maps"

definition adj_get :: "adjacency \<Rightarrow> int \<Rightarrow> int set" where
  "adj_get a k = (case a k of None \<Rightarrow> {} | Some S \<Rightarrow> S)"

definition adj_rel :: "adjacency \<Rightarrow> int rel" where
  "adj_rel a = {(x, y). y \<in> adj_get a x}"

definition sym_adj :: "adjacency \<Rightarrow> bool" where
  "sym_adj a \<longleftrightarrow> (\<forall>x y. y \<in> adj_get a x \<longleftrightarrow> x \<in> adj_get a y)"

definition finite_adj :: "adjacency \<Rightarrow> bool" where
  "finite_adj a \<longleftrightarrow> finite (dom a) \<and> (\<forall>S \<in> ran a. finite S)"

definition adj_universe :: "adjacency \<Rightarrow> int set" where
  "adj_universe a = \<Union> (ran a)"

lemma adj_get_empty [simp, adj_simps]: "adj_get Map.empty k = {}"
  by (simp add: adj_get_def)

lemma adj_get_upd [simp, adj_simps]:
  "adj_get (a(k \<mapsto> S)) j = (if j = k then S else adj_get a j)"
  by (simp add: adj_get_def)

lemma adj_get_Some [adj_simps]: "a k = Some S \<Longrightarrow> adj_get a k = S"
  by (simp add: adj_get_def)

lemma adj_get_None [adj_simps]: "a k = None \<Longrightarrow> adj_get a k = {}"
  by (simp add: adj_get_def)

lemma in_adj_rel [simp, adj_simps]: "(x, y) \<in> adj_rel a \<longleftrightarrow> y \<in> adj_get a x"
  by (simp add: adj_rel_def)

lemma adj_get_subset_universe: "adj_get a k \<subseteq> adj_universe a"
  by (auto simp: adj_get_def adj_universe_def ran_def split: option.splits)

lemma sym_adj_sym_rel: "sym_adj a \<Longrightarrow> sym (adj_rel a)"
  by (auto simp: sym_adj_def sym_def)

lemma sym_adj_rtrancl:
  assumes "sym_adj a" and "(x, y) \<in> (adj_rel a)\<^sup>*"
  shows "(y, x) \<in> (adj_rel a)\<^sup>*"
  using assms sym_rtrancl [OF sym_adj_sym_rel [OF assms(1)]] by (auto simp: sym_def)

lemma finite_adj_universe: "finite_adj a \<Longrightarrow> finite (adj_universe a)"
  by (simp add: finite_adj_def adj_universe_def finite_ran)

lemma finite_adj_empty [simp]: "finite_adj Map.empty"
  by (simp add: finite_adj_def)

lemma finite_adj_upd [simp]: "finite_adj a \<Longrightarrow> finite S \<Longrightarrow> finite_adj (a(k \<mapsto> S))"
  by (auto simp: finite_adj_def ran_def)

lemma finite_adj_get: "finite_adj a \<Longrightarrow> finite (adj_get a k)"
  by (auto simp: finite_adj_def adj_get_def ran_def split: option.splits)

text \<open>
  Square roots against a bound: the form in which the range gate of the builder is
  decided on concrete positions.
\<close>

lemma sqrt_le_iff_sq:
  assumes "0 \<le> r"
  shows "sqrt x \<le> r \<longleftrightarrow> x \<le> r\<^sup>2"
proof -
  have "sqrt x \<le> r \<longleftrightarrow> sqrt x \<le> sqrt (r\<^sup>2)" using assms by simp
  also have "\<dots> \<longleftrightarrow> x \<le> r\<^sup>2" by (rule real_sqrt_le_iff)
  finally show ?thesis .
qed

lemma sqrt_sum_squares_nonneg: "0 \<le> sqrt ((x::real) * x + y * y)"
  by simp

text \<open>An invariant of every step of a \<open>fold\<close> is an invariant of the fold.\<close>

lemma fold_invariant:
  assumes "\<And>x b. x \<in> set xs \<Longrightarrow> P b \<Longrightarrow> P (f x b)" and "P b"
  shows "P (fold f xs b)"
  using assms by (induction xs arbitrary: b) auto

text \<open>
  A property established by one step of a \<open>fold\<close> (under an invariant of all steps)
  and kept by every later step holds at the end.
\<close>

lemma fold_establish:
  assumes "x \<in> set xs"
    and "\<And>b. I b \<Longrightarrow> Q (f x b)"
    and "\<And>y b. I b \<Longrightarrow> I (f y b)"
    and "\<And>y b. Q b \<Longrightarrow> Q (f y b)"
    and "I b"
  shows "Q (fold f xs b)"
  using assms(1,5)
proof (induction xs arbitrary: b)
  case Nil
  then show ?case by simp
next
  case (Cons y ys)
  show ?case
  proof (cases "x = y")
    case True
    have "Q (f y b)" using assms(2) Cons.prems(2) True by simp
    then show ?thesis by (simp add: fold_invariant assms(4))
  next
    case False
    then show ?thesis using Cons assms(3) by simp
  qed
qed

text \<open>
  The handshake lemma on a symmetric adjacency without self-loops, closed over a list of
  distinct identifiers: the neighbour counts sum to twice the number of links.
\<close>

lemma links_split:
  assumes "sym_adj a" "\<forall>x. x \<notin> adj_get a x" "\<forall>x\<in>S. adj_get a x \<subseteq> S"
  shows "Sigma S (adj_get a) = {(x, y). x \<in> S \<and> y \<in> adj_get a x \<and> x < y} \<union>
                               prod.swap ` {(x, y). x \<in> S \<and> y \<in> adj_get a x \<and> x < y}"
proof (intro equalityI subsetI)
  fix p assume "p \<in> Sigma S (adj_get a)"
  then obtain x y where p: "p = (x, y)" "x \<in> S" "y \<in> adj_get a x" by auto
  have "x \<noteq> y" using p assms(2) by auto
  moreover have "y \<in> S" "x \<in> adj_get a y" using p assms(1,3) unfolding sym_adj_def by auto
  ultimately show "p \<in> {(x, y). x \<in> S \<and> y \<in> adj_get a x \<and> x < y} \<union>
                       prod.swap ` {(x, y). x \<in> S \<and> y \<in> adj_get a x \<and> x < y}"
    using p by (cases "x < y") (auto simp: image_iff)
next
  fix p assume "p \<in> {(x, y). x \<in> S \<and> y \<in> adj_get a x \<and> x < y} \<union>
                    prod.swap ` {(x, y). x \<in> S \<and> y \<in> adj_get a x \<and> x < y}"
  then show "p \<in> Sigma S (adj_get a)" using assms(1,3) unfolding sym_adj_def by (fastforce simp: subset_iff)
qed

lemma handshake:
  assumes "distinct xs" "sym_adj a" "\<forall>x. x \<notin> adj_get a x" "\<forall>x\<in>set xs. adj_get a x \<subseteq> set xs"
  shows "sum_list (map (\<lambda>x. card (adj_get a x)) xs) = 2 * card {(x, y). x \<in> set xs \<and> y \<in> adj_get a x \<and> x < y}"
proof -
  let ?E = "{(x, y). x \<in> set xs \<and> y \<in> adj_get a x \<and> x < y}"
  have fin: "finite (adj_get a x)" if "x \<in> set xs" for x using assms(4) that finite_subset by blast
  have "sum_list (map (\<lambda>x. card (adj_get a x)) xs) = (\<Sum>x\<in>set xs. card (adj_get a x))"
    using assms(1) by (simp add: sum_list_distinct_conv_sum_set)
  also have "\<dots> = card (Sigma (set xs) (adj_get a))" using fin by (simp add: card_SigmaI)
  also have "\<dots> = card (?E \<union> prod.swap ` ?E)" using links_split [OF assms(2,3,4)] by simp
  also have "\<dots> = card ?E + card (prod.swap ` ?E)"
  proof (rule card_Un_disjoint)
    have "?E \<subseteq> Sigma (set xs) (adj_get a)" by auto
    moreover have "finite (Sigma (set xs) (adj_get a))" using fin by auto
    ultimately show "finite ?E" by (rule finite_subset)
    then show "finite (prod.swap ` ?E)" by simp
    show "?E \<inter> prod.swap ` ?E = {}" by auto
  qed
  also have "card (prod.swap ` ?E) = card ?E" by (simp add: card_image)
  finally show ?thesis by simp
qed

end
