(* ===== verification/Geo.thy ===== *)
theory Geo
  imports V2V_Prelude
begin

text \<open>
  Geographic arithmetic of the source, on \<open>real\<close>s (rounding is not modelled).
  \<^item> \<open>builder_distance\<close>: the equirectangular approximation with a flat
    111000 m per degree that \<open>InterferenceGraph::buildGraphFromSnapshots\<close> computes
    inline for every candidate pair (\<open>src/src/interference_graph.cpp\<close>). Its east-west
    term scales with the cosine of the latitude of the \<^emph>\<open>first\<close> vehicle of the pair,
    so it is not symmetric in its two arguments.
  \<^item> \<open>atan2\<close>: the C library function, as the C standard specifies it on reals.
  \<^item> \<open>gb_distance\<close>: \<open>GraphBuilder::distance\<close> (\<open>src/src/graph_builder.cpp\<close>), the
    short-range approximation below 0.02 degrees and haversine beyond.
\<close>

definition builder_distance :: "real \<Rightarrow> real \<Rightarrow> real \<Rightarrow> real \<Rightarrow> real" where
  "builder_distance lat1 lon1 lat2 lon2 =
     (let dLat = (lat2 - lat1) * 111000;
          dLon = (lon2 - lon1) * 111000 * cos (lat1 * pi / 180)
      in sqrt (dLat * dLat + dLon * dLon))"

definition atan2 :: "real \<Rightarrow> real \<Rightarrow> real" where
  "atan2 y x =
     (if 0 < x then arctan (y / x)
      else if x < 0 then (if 0 \<le> y then arctan (y / x) + pi else arctan (y / x) - pi)
      else if 0 < y then pi / 2
      else if y < 0 then - (pi / 2)
      else 0)"

definition earth_radius :: real where
  "earth_radius = 6371000"

definition gb_distance :: "real \<Rightarrow> real \<Rightarrow> real \<Rightarrow> real \<Rightarrow> real" where
  "gb_distance lat1 lon1 lat2 lon2 =
     (let dLat = lat2 - lat1; dLon = lon2 - lon1
      in if \<bar>dLat\<bar> < 0.02 \<and> \<bar>dLon\<bar> < 0.02 then
           (let x = dLon * pi / 180 * cos ((lat1 + lat2) / 2 * pi / 180);
                y = dLat * pi / 180
            in earth_radius * sqrt (x * x + y * y))
         else
           (let dLat' = dLat * (pi / 180); dLon' = dLon * (pi / 180);
                a = sin (dLat' / 2) * sin (dLat' / 2) +
                    cos (lat1 * pi / 180) * cos (lat2 * pi / 180) *
                    sin (dLon' / 2) * sin (dLon' / 2);
                c = 2 * atan2 (sqrt a) (sqrt (1 - a))
            in earth_radius * c))"

subsection \<open>Properties\<close>

lemma builder_distance_nonneg: "0 \<le> builder_distance lat1 lon1 lat2 lon2"
  by (simp add: builder_distance_def Let_def)

lemma builder_distance_self [simp]: "builder_distance lat lon lat lon = 0"
  by (simp add: builder_distance_def)

text \<open>On a common latitude the two orientations of a pair agree.\<close>


lemma builder_distance_sym_same_lat: "builder_distance lat lon1 lat lon2 = builder_distance lat lon2 lat lon1"
proof -
  have "(lon1 - lon2) * 111000 * c * ((lon1 - lon2) * 111000 * c) =
        (lon2 - lon1) * 111000 * c * ((lon2 - lon1) * 111000 * c)" for c :: real
    by (simp add: algebra_simps)
  then show ?thesis by (simp only: builder_distance_def Let_def)
qed

text \<open>
  The distance read on a pair at the equator and 60 degrees north differs with the order:
  the cosine factor is 1 from the first vehicle and 1/2 from the second.
\<close>

lemma cos_deg_60: "cos (60 * pi / 180) = (1 / 2 :: real)"
proof -
  have "60 * pi / 180 = pi / (3::real)" by simp
  then show ?thesis by (simp add: cos_60)
qed

lemma atan2_bounds: "- pi < atan2 y x \<and> atan2 y x \<le> pi"
proof -
  have b: "- (pi / 2) < arctan z \<and> arctan z < pi / 2" for z
    using arctan_bounded [of z] by simp
  consider "0 < x" | "x < 0" "0 \<le> y" | "x < 0" "y < 0" | "x = 0"
    by linarith
  then show ?thesis
  proof cases
    case 1
    then show ?thesis using b [of "y / x"] pi_gt_zero by (simp add: atan2_def)
  next
    case 2
    then have "y / x \<le> 0" by (simp add: divide_nonneg_neg)
    then have "arctan (y / x) \<le> 0" by simp
    then show ?thesis using 2 b [of "y / x"] by (simp add: atan2_def)
  next
    case 3
    then have "0 < y / x" by (simp add: divide_neg_neg)
    then have "0 < arctan (y / x)" by simp
    then show ?thesis using 3 b [of "y / x"] by (simp add: atan2_def)
  next
    case 4
    then show ?thesis unfolding atan2_def using pi_gt_zero by (auto; linarith)
  qed
qed


text \<open>
  \<open>GraphBuilder::distance\<close> is symmetric in its two points, on both the short-range and
  the haversine branch.
\<close>

lemma gb_distance_sym: "gb_distance lat1 lon1 lat2 lon2 = gb_distance lat2 lon2 lat1 lon1"
proof -
  let ?m = "(lat1 + lat2) / 2 * pi / 180"
  have m: "(lat2 + lat1) / 2 * pi / 180 = ?m" by (simp add: add.commute)
  have x: "(lon1 - lon2) * pi / 180 * cos ?m * ((lon1 - lon2) * pi / 180 * cos ?m) =
           (lon2 - lon1) * pi / 180 * cos ?m * ((lon2 - lon1) * pi / 180 * cos ?m)"
    by (simp add: algebra_simps)
  have y: "(lat1 - lat2) * pi / 180 * ((lat1 - lat2) * pi / 180) =
           (lat2 - lat1) * pi / 180 * ((lat2 - lat1) * pi / 180)"
    by (simp add: algebra_simps)
  have neg: "(a - b) * (pi / 180) / 2 = - ((b - a) * (pi / 180) / 2)" for a b :: real
    by (simp add: field_simps)
  have s: "sin ((a - b) * (pi / 180) / 2) * sin ((a - b) * (pi / 180) / 2) =
           sin ((b - a) * (pi / 180) / 2) * sin ((b - a) * (pi / 180) / 2)" for a b :: real
    by (simp only: neg [of a b] sin_minus minus_mult_minus)
  have s2: "k * sin ((a - b) * (pi / 180) / 2) * sin ((a - b) * (pi / 180) / 2) =
           k * sin ((b - a) * (pi / 180) / 2) * sin ((b - a) * (pi / 180) / 2)" for k a b :: real
    using s [of a b] by (simp add: mult.assoc)
  have c: "cos (lat2 * pi / 180) * cos (lat1 * pi / 180) = cos (lat1 * pi / 180) * cos (lat2 * pi / 180)"
    by (rule mult.commute)
  show ?thesis
    unfolding gb_distance_def Let_def
    by (simp only: m x y s [of lat1 lat2] s2 [of _ lon1 lon2] c abs_minus_commute [of lat1 lat2]
        abs_minus_commute [of lon1 lon2])
qed

lemma gb_distance_self [simp]: "gb_distance lat lon lat lon = 0"
  by (simp add: gb_distance_def)

end
