(* ===== verification/RoadGraph.thy ===== *)
theory RoadGraph
  imports Geo
begin

text \<open>
  The road graph and its construction from OpenStreetMap data,
  \<open>GraphBuilder::buildGraph\<close> (\<open>src/src/graph_builder.cpp\<close>). The graph type
  (\<open>graph_types.h\<close>) and the parser's \<open>OSMNode\<close> and \<open>OSMWay\<close> are not among the
  sources; they are modelled from the specification (section 3): a directed multigraph
  whose vertices carry an OSM identifier and a position, and whose edges carry a length,
  a one-way flag and a road class. Vertices are the indices \<open>0, 1, ...\<close> that
  \<open>boost::add_vertex\<close> hands out in order; edges are kept in insertion order, so the
  out-edges of a vertex come in the order in which they were added, as with boost's
  \<open>vecS\<close> out-edge lists, where \<open>add_edge\<close> always inserts.
\<close>

record OSMNode =
  osm_id :: int
  osm_lat :: real
  osm_lon :: real

record OSMWay =
  nodeRefs :: "int list"
  oneway :: bool
  highwayType :: string

type_synonym Vertex = nat

record VertexData =
  vd_id :: int
  vd_lat :: real
  vd_lon :: real

record EdgeData =
  e_source :: Vertex
  e_target :: Vertex
  e_distance :: real
  e_oneway :: bool
  e_type :: string

record RoadGraph =
  rg_vertices :: "VertexData list"
  rg_edges :: "EdgeData list"

record GraphBuilder =
  gb_nodes :: "OSMNode list"
  gb_ways :: "OSMWay list"
  gb_graph :: RoadGraph
  idToVertex :: "int \<rightharpoonup> Vertex"

definition empty_RoadGraph :: RoadGraph where
  "empty_RoadGraph = \<lparr>rg_vertices = [], rg_edges = []\<rparr>"

definition add_vertex :: "VertexData \<Rightarrow> RoadGraph \<Rightarrow> Vertex \<times> RoadGraph" where
  "add_vertex vd g = (length (rg_vertices g), g\<lparr>rg_vertices := rg_vertices g @ [vd]\<rparr>)"

definition add_edge :: "Vertex \<Rightarrow> Vertex \<Rightarrow> real \<Rightarrow> bool \<Rightarrow> string \<Rightarrow> RoadGraph \<Rightarrow> RoadGraph" where
  "add_edge v1 v2 len ow ty g =
     g\<lparr>rg_edges := rg_edges g @ [\<lparr>e_source = v1, e_target = v2, e_distance = len, e_oneway = ow, e_type = ty\<rparr>]\<rparr>"

definition out_edges :: "Vertex \<Rightarrow> RoadGraph \<Rightarrow> EdgeData list" where
  "out_edges v g = filter (\<lambda>e. e_source e = v) (rg_edges g)"

definition num_vertices :: "RoadGraph \<Rightarrow> nat" where
  "num_vertices g = length (rg_vertices g)"

definition vertex_data :: "RoadGraph \<Rightarrow> Vertex \<Rightarrow> VertexData" where
  "vertex_data g v = rg_vertices g ! v"

definition new_GraphBuilder :: "OSMNode list \<Rightarrow> OSMWay list \<Rightarrow> GraphBuilder" where
  "new_GraphBuilder n w = \<lparr>gb_nodes = n, gb_ways = w, gb_graph = empty_RoadGraph, idToVertex = Map.empty\<rparr>"

text \<open>Step 1: one vertex per OSM node, indexed by the node's identifier.\<close>

definition add_node :: "GraphBuilder \<Rightarrow> OSMNode \<Rightarrow> GraphBuilder" where
  "add_node b n =
     (case add_vertex \<lparr>vd_id = osm_id n, vd_lat = osm_lat n, vd_lon = osm_lon n\<rparr> (gb_graph b) of
        (v, g) \<Rightarrow> b\<lparr>gb_graph := g, idToVertex := (idToVertex b)(osm_id n \<mapsto> v)\<rparr>)"

text \<open>
  Step 2, for one segment \<open>(id1, id2)\<close> of a way: skipped when a node is unknown,
  otherwise one edge for a one-way road and two anti-parallel edges for a two-way road,
  both with the distance of \<open>GraphBuilder::distance\<close> between the end points.
\<close>

definition add_segment :: "OSMWay \<Rightarrow> GraphBuilder \<Rightarrow> int \<times> int \<Rightarrow> GraphBuilder" where
  "add_segment way b ids =
     (case ids of (id1, id2) \<Rightarrow>
       (case (idToVertex b id1, idToVertex b id2) of
          (Some v1, Some v2) \<Rightarrow>
            (let g = gb_graph b;
                 len = gb_distance (vd_lat (vertex_data g v1)) (vd_lon (vertex_data g v1))
                                    (vd_lat (vertex_data g v2)) (vd_lon (vertex_data g v2))
             in if oneway way then b\<lparr>gb_graph := add_edge v1 v2 len True (highwayType way) g\<rparr>
                else b\<lparr>gb_graph := add_edge v2 v1 len False (highwayType way)
                                     (add_edge v1 v2 len False (highwayType way) g)\<rparr>)
        | _ \<Rightarrow> b))"

definition way_segments :: "OSMWay \<Rightarrow> (int \<times> int) list" where
  "way_segments way = zip (nodeRefs way) (drop 1 (nodeRefs way))"

definition add_way :: "GraphBuilder \<Rightarrow> OSMWay \<Rightarrow> GraphBuilder" where
  "add_way b way = fold (\<lambda>ids b. add_segment way b ids) (way_segments way) b"

definition buildGraph :: "GraphBuilder \<Rightarrow> GraphBuilder" where
  "buildGraph b = fold (\<lambda>w b. add_way b w) (gb_ways b) (fold (\<lambda>n b. add_node b n) (gb_nodes b) b)"

text \<open>
  Well-formedness: every edge joins two existing vertices, and the identifier index
  points at existing vertices. Two-way closure: every edge of a two-way road has an
  anti-parallel twin of the same length and class.
\<close>

definition rg_wf :: "RoadGraph \<Rightarrow> bool" where
  "rg_wf g \<longleftrightarrow> (\<forall>e \<in> set (rg_edges g). e_source e < num_vertices g \<and> e_target e < num_vertices g)"

definition builder_wf :: "GraphBuilder \<Rightarrow> bool" where
  "builder_wf b \<longleftrightarrow> rg_wf (gb_graph b) \<and> ran (idToVertex b) \<subseteq> {..<num_vertices (gb_graph b)}"

definition edge_length_ok :: "RoadGraph \<Rightarrow> EdgeData \<Rightarrow> bool" where
  "edge_length_ok g e \<longleftrightarrow>
     e_distance e = gb_distance (vd_lat (vertex_data g (e_source e))) (vd_lon (vertex_data g (e_source e)))
                                (vd_lat (vertex_data g (e_target e))) (vd_lon (vertex_data g (e_target e)))"

definition two_way_closed :: "RoadGraph \<Rightarrow> bool" where
  "two_way_closed g \<longleftrightarrow>
     (\<forall>e \<in> set (rg_edges g). \<not> e_oneway e \<longrightarrow>
        e\<lparr>e_source := e_target e, e_target := e_source e\<rparr> \<in> set (rg_edges g))"

subsection \<open>Vertices are fixed by step 1\<close>

lemma add_segment_vertices [simp]:
  "rg_vertices (gb_graph (add_segment w b ids)) = rg_vertices (gb_graph b)"
  "idToVertex (add_segment w b ids) = idToVertex b"
  "gb_ways (add_segment w b ids) = gb_ways b"
  by (auto simp: add_segment_def add_edge_def Let_def split: prod.splits option.splits)

lemma add_way_vertices [simp]:
  "rg_vertices (gb_graph (add_way b w)) = rg_vertices (gb_graph b)"
  "idToVertex (add_way b w) = idToVertex b"
  unfolding add_way_def
  by (rule fold_invariant [where P = "\<lambda>b'. rg_vertices (gb_graph b') = rg_vertices (gb_graph b)"]; simp)
     (rule fold_invariant [where P = "\<lambda>b'. idToVertex b' = idToVertex b"]; simp)

lemma add_segment_edges:
  "rg_edges (gb_graph (add_segment w b (id1, id2))) =
     (case (idToVertex b id1, idToVertex b id2) of
        (Some v1, Some v2) \<Rightarrow>
          (let g = gb_graph b;
               len = gb_distance (vd_lat (vertex_data g v1)) (vd_lon (vertex_data g v1))
                                  (vd_lat (vertex_data g v2)) (vd_lon (vertex_data g v2));
               e = \<lparr>e_source = v1, e_target = v2, e_distance = len, e_oneway = oneway w,
                    e_type = highwayType w\<rparr>
           in rg_edges g @ (if oneway w then [e] else [e, e\<lparr>e_source := v2, e_target := v1\<rparr>]))
      | _ \<Rightarrow> rg_edges (gb_graph b))"
  by (simp add: add_segment_def add_edge_def Let_def split: option.splits)

lemma add_nodes_state:
  "rg_vertices (gb_graph (fold (\<lambda>n b. add_node b n) ns b)) =
     rg_vertices (gb_graph b) @ map (\<lambda>n. \<lparr>vd_id = osm_id n, vd_lat = osm_lat n, vd_lon = osm_lon n\<rparr>) ns \<and>
   rg_edges (gb_graph (fold (\<lambda>n b. add_node b n) ns b)) = rg_edges (gb_graph b) \<and>
   gb_ways (fold (\<lambda>n b. add_node b n) ns b) = gb_ways b"
  by (induction ns arbitrary: b) (simp_all add: add_node_def add_vertex_def)

subsection \<open>Invariants of the segment step\<close>

lemma add_segment_wf: "builder_wf b \<Longrightarrow> builder_wf (add_segment w b ids)"
  by (cases ids)
     (auto simp: builder_wf_def rg_wf_def num_vertices_def add_segment_edges Let_def ran_def
           split: option.splits)

lemma add_segment_lengths:
  assumes "\<forall>e \<in> set (rg_edges (gb_graph b)). edge_length_ok (gb_graph b) e"
  shows "\<forall>e \<in> set (rg_edges (gb_graph (add_segment w b ids))). edge_length_ok (gb_graph (add_segment w b ids)) e"
proof (cases ids)
  case (Pair id1 id2)
  have v: "vertex_data (gb_graph (add_segment w b (id1, id2))) = vertex_data (gb_graph b)"
    by (simp add: vertex_data_def fun_eq_iff)
  show ?thesis
    using assms unfolding Pair
    by (auto simp: v add_segment_edges edge_length_ok_def Let_def gb_distance_sym split: option.splits)
qed

lemma add_segment_two_way: "two_way_closed (gb_graph b) \<Longrightarrow> two_way_closed (gb_graph (add_segment w b ids))"
  by (cases ids) (auto simp: two_way_closed_def add_segment_edges Let_def split: option.splits)

lemma add_segment_mono: "set (rg_edges (gb_graph b)) \<subseteq> set (rg_edges (gb_graph (add_segment w b ids)))"
  by (cases ids) (auto simp: add_segment_edges Let_def split: option.splits)

lemma add_way_mono: "set (rg_edges (gb_graph b)) \<subseteq> set (rg_edges (gb_graph (add_way b w)))"
  unfolding add_way_def
  by (rule fold_invariant [where P = "\<lambda>b'. set (rg_edges (gb_graph b)) \<subseteq> set (rg_edges (gb_graph b'))"])
     (auto dest: subsetD [OF add_segment_mono])

text \<open>An invariant of the segment step holds of the built graph.\<close>

lemma buildGraph_induct:
  assumes seg: "\<And>w b ids. P b \<Longrightarrow> P (add_segment w b ids)"
    and start: "P (fold (\<lambda>n b. add_node b n) ns (new_GraphBuilder ns ws))"
  shows "P (buildGraph (new_GraphBuilder ns ws))"
proof -
  have ways: "gb_ways (fold (\<lambda>n b. add_node b n) ns (new_GraphBuilder ns ws)) = ws"
    using add_nodes_state [of ns "new_GraphBuilder ns ws"] by (simp add: new_GraphBuilder_def)
  have "P (add_way b w)" if "P b" for b w
    unfolding add_way_def by (rule fold_invariant [where P = P]) (use seg that in auto)
  then show ?thesis
    unfolding buildGraph_def using ways start
    by (simp add: new_GraphBuilder_def) (rule fold_invariant [where P = P]; simp)
qed

lemma add_node_wf: "builder_wf b \<Longrightarrow> builder_wf (add_node b n)"
  unfolding builder_wf_def rg_wf_def num_vertices_def add_node_def add_vertex_def
  by (auto simp: ran_def less_SucI split: if_splits)

lemma add_nodes_wf: "builder_wf b \<Longrightarrow> builder_wf (fold (\<lambda>n b. add_node b n) ns b)"
  by (rule fold_invariant) (auto intro: add_node_wf)

lemma nodes_no_edges: "rg_edges (gb_graph (fold (\<lambda>n b. add_node b n) ns (new_GraphBuilder ns ws))) = []"
  using add_nodes_state [of ns "new_GraphBuilder ns ws"] by (simp add: new_GraphBuilder_def empty_RoadGraph_def)

lemma build_vertices:
  "rg_vertices (gb_graph (buildGraph (new_GraphBuilder ns ws))) =
     map (\<lambda>n. \<lparr>vd_id = osm_id n, vd_lat = osm_lat n, vd_lon = osm_lon n\<rparr>) ns"
proof -
  have "rg_vertices (gb_graph (buildGraph (new_GraphBuilder ns ws))) =
        rg_vertices (gb_graph (fold (\<lambda>n b. add_node b n) ns (new_GraphBuilder ns ws)))"
    unfolding buildGraph_def
    by (simp add: new_GraphBuilder_def)
       (rule fold_invariant [where P = "\<lambda>b. rg_vertices (gb_graph b) = _"]; simp)
  then show ?thesis
    using add_nodes_state [of ns "new_GraphBuilder ns ws"] by (simp add: new_GraphBuilder_def empty_RoadGraph_def)
qed

lemma build_idToVertex:
  "idToVertex (buildGraph (new_GraphBuilder ns ws)) =
   idToVertex (fold (\<lambda>n b. add_node b n) ns (new_GraphBuilder ns ws))"
  unfolding buildGraph_def
  by (simp add: new_GraphBuilder_def) (rule fold_invariant [where P = "\<lambda>b. idToVertex b = _"]; simp)

lemma add_way_segment_edge:
  assumes seg: "(id1, id2) \<in> set (way_segments w)" and M: "M id1 = Some v1" "M id2 = Some v2"
    and b: "idToVertex b = M"
  shows "\<exists>e \<in> set (rg_edges (gb_graph (add_way b w))).
           e_source e = v1 \<and> e_target e = v2 \<and> e_type e = highwayType w \<and> e_oneway e = oneway w"
  unfolding add_way_def
proof (rule fold_establish [where I = "\<lambda>b. idToVertex b = M", OF seg _ _ _ b])
  fix b' :: GraphBuilder assume "idToVertex b' = M"
  then show "\<exists>e \<in> set (rg_edges (gb_graph (add_segment w b' (id1, id2)))).
               e_source e = v1 \<and> e_target e = v2 \<and> e_type e = highwayType w \<and> e_oneway e = oneway w"
    using M by (simp add: add_segment_edges Let_def)
qed (auto dest: subsetD [OF add_segment_mono])

text \<open>
  C13: after \<open>GraphBuilder::buildGraph\<close>, every edge joins two vertices of the graph
  and the identifier index maps every OSM identifier to a vertex of the graph.
\<close>

theorem buildGraph_well_formed: "builder_wf (buildGraph (new_GraphBuilder ns ws))"
proof (rule buildGraph_induct [where P = builder_wf])
  show "builder_wf (fold (\<lambda>n b. add_node b n) ns (new_GraphBuilder ns ws))"
    by (rule add_nodes_wf) (simp add: builder_wf_def rg_wf_def new_GraphBuilder_def empty_RoadGraph_def)
qed (rule add_segment_wf)

text \<open>
  Every edge of the built graph is as long as \<open>GraphBuilder::distance\<close> between its
  end points, in the direction of the edge (for the reverse edge of a two-way road this
  rests on the symmetry of the distance).
\<close>

theorem buildGraph_edge_lengths:
  "\<forall>e \<in> set (rg_edges (gb_graph (buildGraph (new_GraphBuilder ns ws)))).
     edge_length_ok (gb_graph (buildGraph (new_GraphBuilder ns ws))) e"
  by (rule buildGraph_induct [where P = "\<lambda>b. \<forall>e \<in> set (rg_edges (gb_graph b)). edge_length_ok (gb_graph b) e"])
     (auto simp: nodes_no_edges dest: add_segment_lengths)

text \<open>
  The built graph respects the direction of travel: every edge of a two-way road has
  its reverse edge, with the same length and road class.
\<close>

theorem buildGraph_two_way: "two_way_closed (gb_graph (buildGraph (new_GraphBuilder ns ws)))"
proof (rule buildGraph_induct [where P = "\<lambda>b. two_way_closed (gb_graph b)"])
  fix w ids and b :: GraphBuilder
  assume "two_way_closed (gb_graph b)"
  then show "two_way_closed (gb_graph (add_segment w b ids))" by (rule add_segment_two_way)
qed (simp add: nodes_no_edges two_way_closed_def)

text \<open>
  Every segment of every way whose two nodes are known yields an edge from the first
  node's vertex to the second's, with the way's road class and one-way flag.
\<close>

theorem buildGraph_segment_edge:
  assumes w: "w \<in> set ws" and seg: "(id1, id2) \<in> set (way_segments w)"
    and v1: "idToVertex (buildGraph (new_GraphBuilder ns ws)) id1 = Some v1"
    and v2: "idToVertex (buildGraph (new_GraphBuilder ns ws)) id2 = Some v2"
  shows "\<exists>e \<in> set (rg_edges (gb_graph (buildGraph (new_GraphBuilder ns ws)))).
           e_source e = v1 \<and> e_target e = v2 \<and> e_type e = highwayType w \<and> e_oneway e = oneway w"
proof -
  let ?b0 = "fold (\<lambda>n b. add_node b n) ns (new_GraphBuilder ns ws)"
  let ?M = "idToVertex ?b0"
  have ways: "gb_ways ?b0 = ws"
    using add_nodes_state [of ns "new_GraphBuilder ns ws"] by (simp add: new_GraphBuilder_def)
  have M: "?M id1 = Some v1" "?M id2 = Some v2" using v1 v2 by (simp_all add: build_idToVertex)
  have eq: "buildGraph (new_GraphBuilder ns ws) = fold (\<lambda>w b. add_way b w) ws ?b0"
    by (simp add: buildGraph_def new_GraphBuilder_def)
  have "\<exists>e \<in> set (rg_edges (gb_graph (fold (\<lambda>w b. add_way b w) ws ?b0))).
          e_source e = v1 \<and> e_target e = v2 \<and> e_type e = highwayType w \<and> e_oneway e = oneway w"
  proof (rule fold_establish [where I = "\<lambda>b. idToVertex b = ?M" and x = w])
    fix b :: GraphBuilder assume "idToVertex b = ?M"
    then show "\<exists>e \<in> set (rg_edges (gb_graph (add_way b w))).
                 e_source e = v1 \<and> e_target e = v2 \<and> e_type e = highwayType w \<and> e_oneway e = oneway w"
      using add_way_segment_edge [OF seg M] by blast
  qed (use w in \<open>auto dest: subsetD [OF add_way_mono]\<close>)
  then show ?thesis by (simp only: eq)
qed

end
