(* ===== verification/Closure.thy ===== *)
theory Closure
  imports V2V_Prelude
begin

text \<open>
  Breadth-first reachability over an adjacency map, as
  \<open>InterferenceGraph::bfsReachable\<close> computes it (\<open>src/src/interference_graph.cpp\<close>):
  a set \<open>visited\<close> and a FIFO queue \<open>toVisit\<close>, both seeded with the start; a popped
  identifier without an entry in the map is skipped; every neighbour not yet visited is
  marked and enqueued. The inner loop runs over an \<open>unordered_set\<close>, whose order is
  unspecified; the model enqueues the new neighbours in ascending order, one of the orders
  the container may produce. The loop is a \<open>while_option\<close>: \<open>bfs_loop_Some\<close> proves
  that it returns on every finite map (the only maps the C++ containers hold), and
  \<open>bfsReachable_rtrancl\<close> that it returns the reflexive-transitive image of the start,
  start removed.
\<close>

type_synonym bfs_state = "int set \<times> int list"

definition bfs_visit :: "adjacency \<Rightarrow> bfs_state \<Rightarrow> bfs_state" where
  "bfs_visit a st =
     (case st of (visited, toVisit) \<Rightarrow>
       (case toVisit of
          [] \<Rightarrow> (visited, toVisit)
        | currentId # rest \<Rightarrow>
            (case a currentId of
               None \<Rightarrow> (visited, rest)
             | Some N \<Rightarrow> (visited \<union> N, rest @ sorted_list_of_set (N - visited)))))"

definition bfs_loop :: "adjacency \<Rightarrow> int \<Rightarrow> bfs_state option" where
  "bfs_loop a startId = while_option (\<lambda>(_, toVisit). toVisit \<noteq> []) (bfs_visit a) ({startId}, [startId])"

definition bfsReachable :: "adjacency \<Rightarrow> int \<Rightarrow> int set" where
  "bfsReachable a startId =
     (case bfs_loop a startId of Some (visited, _) \<Rightarrow> visited - {startId} | None \<Rightarrow> {})"

definition closure_map :: "adjacency \<Rightarrow> adjacency" where
  "closure_map a = (\<lambda>k. map_option (\<lambda>_. bfsReachable a k) (a k))"

text \<open>
  The measure: twice the unvisited part of the finite universe, plus the queue. Popping an
  identifier with \<open>k\<close> new neighbours lowers it by \<open>k + 1\<close>.
\<close>

definition bfs_measure :: "adjacency \<Rightarrow> bfs_state \<Rightarrow> nat" where
  "bfs_measure a st = 2 * card (adj_universe a - fst st) + length (snd st)"

text \<open>
  The loop invariant: the start is visited, the queue holds visited identifiers only,
  everything visited is reachable, and every visited identifier already popped has all its
  neighbours visited.
\<close>

definition bfs_inv :: "adjacency \<Rightarrow> int \<Rightarrow> bfs_state \<Rightarrow> bool" where
  "bfs_inv a s st \<longleftrightarrow>
     (case st of (vis, q) \<Rightarrow>
        s \<in> vis \<and> set q \<subseteq> vis \<and> vis \<subseteq> (adj_rel a)\<^sup>* `` {s} \<and>
        adj_rel a `` (vis - set q) \<subseteq> vis)"

subsection \<open>One step of the loop\<close>

lemma bfs_visit_Cons_None [simp]:
  "a c = None \<Longrightarrow> bfs_visit a (vis, c # rest) = (vis, rest)"
  by (simp add: bfs_visit_def)

lemma bfs_visit_Cons_Some [simp]:
  "a c = Some N \<Longrightarrow> bfs_visit a (vis, c # rest) = (vis \<union> N, rest @ sorted_list_of_set (N - vis))"
  by (simp add: bfs_visit_def)

lemma bfs_visit_decreases:
  assumes fin: "finite_adj a" and q: "toVisit \<noteq> []"
  shows "bfs_measure a (bfs_visit a (vis, toVisit)) < bfs_measure a (vis, toVisit)"
proof -
  obtain c rest where qc: "toVisit = c # rest" using q by (cases toVisit) auto
  show ?thesis
  proof (cases "a c")
    case None
    then show ?thesis by (simp add: qc bfs_measure_def)
  next
    case (Some N)
    let ?U = "adj_universe a"
    have NU: "N \<subseteq> ?U" using adj_get_subset_universe [of a c] Some by (simp add: adj_get_def)
    have finU: "finite ?U" using fin by (rule finite_adj_universe)
    have finN: "finite (N - vis)" using finU NU by (blast intro: finite_subset)
    have split: "?U - vis = (?U - (vis \<union> N)) \<union> (N - vis)" using NU by blast
    have disj: "(?U - (vis \<union> N)) \<inter> (N - vis) = {}" by blast
    have "card ((?U - (vis \<union> N)) \<union> (N - vis)) = card (?U - (vis \<union> N)) + card (N - vis)"
      using finU finN disj by (intro card_Un_disjoint) auto
    then have "card (?U - vis) = card (?U - (vis \<union> N)) + card (N - vis)"
      by (simp only: split [symmetric])
    then show ?thesis by (simp add: qc Some bfs_measure_def)
  qed
qed

lemma bfs_loop_Some: "finite_adj a \<Longrightarrow> \<exists>r. bfs_loop a s = Some r"
  unfolding bfs_loop_def
  by (rule measure_while_option_Some [where P = "\<lambda>_. True" and f = "bfs_measure a"])
     (auto intro: bfs_visit_decreases)

subsection \<open>What the loop computes\<close>

lemma bfs_inv_init: "bfs_inv a s ({s}, [s])"
  by (simp add: bfs_inv_def)

lemma adj_rel_Image_Some: "a c = Some N \<Longrightarrow> adj_rel a `` {c} = N"
  by (auto simp: adj_get_def)

lemma adj_rel_Image_None: "a c = None \<Longrightarrow> adj_rel a `` {c} = {}"
  by (auto simp: adj_get_def)

lemma bfs_inv_step:
  assumes inv: "bfs_inv a s (vis, c # rest)" and fin: "finite_adj a"
  shows "bfs_inv a s (bfs_visit a (vis, c # rest))"
proof (cases "a c")
  case None
  from inv have s: "s \<in> vis" and q: "set rest \<subseteq> vis"
    and r: "vis \<subseteq> (adj_rel a)\<^sup>* `` {s}"
    and cl: "adj_rel a `` (vis - insert c (set rest)) \<subseteq> vis"
    unfolding bfs_inv_def by simp_all
  have "adj_rel a `` {c} = {}" using None by (rule adj_rel_Image_None)
  then have "adj_rel a `` (vis - set rest) \<subseteq> vis" using cl by blast
  with s q r None show ?thesis unfolding bfs_inv_def by simp
next
  case (Some N)
  let ?R = "adj_rel a"
  have finN: "finite (N - vis)"
    using finite_adj_get [OF fin, of c] Some by (simp add: adj_get_def)
  have cR: "c \<in> ?R\<^sup>* `` {s}" using inv by (auto simp: bfs_inv_def)
  have NR: "N \<subseteq> ?R\<^sup>* `` {s}"
    using cR adj_rel_Image_Some [of a c N, OF Some] by (auto intro: rtrancl_into_rtrancl)
  have closed: "?R `` (vis \<union> N - set (rest @ sorted_list_of_set (N - vis))) \<subseteq> vis \<union> N"
  proof
    fix y assume y: "y \<in> ?R `` (vis \<union> N - set (rest @ sorted_list_of_set (N - vis)))"
    have "set (rest @ sorted_list_of_set (N - vis)) = set rest \<union> (N - vis)"
      using finN by simp
    with y obtain x where xy: "(x, y) \<in> ?R" and xv: "x \<in> vis \<union> N"
      and xr: "x \<notin> set rest" and xn: "x \<notin> N - vis"
      by blast
    show "y \<in> vis \<union> N"
    proof (cases "x = c")
      case True
      then show ?thesis using xy adj_rel_Image_Some [of a c N, OF Some] by blast
    next
      case False
      then have "x \<in> vis - insert c (set rest)" using xv xr xn by auto
      moreover from inv have "?R `` (vis - insert c (set rest)) \<subseteq> vis"
        unfolding bfs_inv_def by simp
      ultimately show ?thesis using xy by blast
    qed
  qed
  show ?thesis using inv Some finN NR closed by (auto simp: bfs_inv_def)
qed

lemma bfs_loop_result:
  assumes fin: "finite_adj a" and r: "bfs_loop a s = Some (vis, q)"
  shows "vis = (adj_rel a)\<^sup>* `` {s}"
proof -
  have inv: "bfs_inv a s (vis, q)"
  proof (rule while_option_rule [where P = "bfs_inv a s", OF _ r [unfolded bfs_loop_def]])
    fix st :: bfs_state
    assume "bfs_inv a s st" and "(\<lambda>(_, toVisit). toVisit \<noteq> []) st"
    then obtain v c rest where "st = (v, c # rest)" and "bfs_inv a s (v, c # rest)"
      by (cases st; cases "snd st") auto
    with fin show "bfs_inv a s (bfs_visit a st)" by (simp add: bfs_inv_step)
  qed (rule bfs_inv_init)
  have "q = []" using while_option_stop [OF r [unfolded bfs_loop_def]] by simp
  with inv have sub: "vis \<subseteq> (adj_rel a)\<^sup>* `` {s}" and cl: "adj_rel a `` vis \<subseteq> vis"
    and sv: "s \<in> vis"
    by (auto simp: bfs_inv_def)
  have "(adj_rel a)\<^sup>* `` vis = vis" using cl by (rule Image_closed_trancl)
  then have "(adj_rel a)\<^sup>* `` {s} \<subseteq> vis" using sv by blast
  with sub show ?thesis by blast
qed

lemma bfs_loop_image:
  assumes "finite_adj a"
  shows "\<exists>q. bfs_loop a s = Some ((adj_rel a)\<^sup>* `` {s}, q)"
proof -
  obtain vis q where r: "bfs_loop a s = Some (vis, q)"
    using bfs_loop_Some [OF assms, of s] by auto
  then show ?thesis using bfs_loop_result [OF assms r] by blast
qed

text \<open>
  C6: on every finite adjacency map, bfsReachable returns exactly the identifiers reachable
  from the start in zero or more steps, the start itself removed.
\<close>

theorem bfsReachable_rtrancl:
  assumes "finite_adj a"
  shows "bfsReachable a s = (adj_rel a)\<^sup>* `` {s} - {s}"
  using bfs_loop_image [OF assms, of s] by (auto simp: bfsReachable_def)

lemma bfsReachable_trancl:
  assumes "finite_adj a"
  shows "bfsReachable a s = {t. (s, t) \<in> (adj_rel a)\<^sup>+ \<and> t \<noteq> s}"
  using bfs_loop_image [OF assms, of s] by (auto simp: bfsReachable_def rtrancl_eq_or_trancl)

end
