(* ===== verification/Interference.thy ===== *)
theory Interference
  imports Geo Closure
begin

text \<open>
  The interference-graph builder of \<open>src/src/interference_graph.cpp\<close> and
  \<open>src/include/interference_graph.h\<close>: the snapshot and antenna-neighbourhood values
  handed to the worker, the graph object with its adjacency list, transitive closure,
  closure flag and statistics, and \<open>buildGraphFromSnapshots\<close> with its two candidate
  enumerations (per antenna cell, or all pairs as fallback). The spatial grid the class
  also owns is a type parameter here: the builder never reads it, and the driver theory
  instantiates it. Wall-clock build time and the debug printing are not modelled.

  The loop over \<open>vehiclesPerAntenna\<close> (an \<open>unordered_map\<close>) follows the order of the
  association list, whatever it is; every theorem below holds for every order. The
  \<open>std::set\<close> of neighbour antennas is iterated in ascending order, as the container
  does. The comparison counter is a \<open>nat\<close>; \<open>comparisons_bound\<close> shows that it and its
  double stay below \<open>2^31\<close> for every population the user interface allows.
\<close>

record VehicleSnapshot =
  snap_id :: vid
  snap_lon :: real
  snap_lat :: real
  snap_range :: real
  snap_micro :: cell_id

record AntennaNeighborhood =
  vehiclesPerAntenna :: "(cell_id \<times> int list) list"
  neighborAntennas :: "cell_id \<rightharpoonup> cell_id set"

record ('g, 'v) InterferenceGraph =
  adjacencyList :: adjacency
  transitiveClosure :: adjacency
  spatialGrid :: 'g
  useSpatialGrid :: bool
  gridInitialized :: bool
  computeTransitive :: bool
  vehicleMap :: "vid \<rightharpoonup> 'v"
  lastComparisons :: int
  lastAvgNeighbors :: real

definition new_InterferenceGraph :: "'g \<Rightarrow> ('g, 'v) InterferenceGraph" where
  "new_InterferenceGraph grid =
     \<lparr>adjacencyList = Map.empty, transitiveClosure = Map.empty, spatialGrid = grid,
      useSpatialGrid = True, gridInitialized = False, computeTransitive = False, vehicleMap = Map.empty,
      lastComparisons = 0, lastAvgNeighbors = 0\<rparr>"

subsection \<open>Comparing one pair\<close>

definition in_range :: "VehicleSnapshot \<Rightarrow> VehicleSnapshot \<Rightarrow> bool" where
  "in_range v1 v2 =
     (let distance = builder_distance (snap_lat v1) (snap_lon v1) (snap_lat v2) (snap_lon v2)
      in distance \<le> snap_range v1 \<and> distance \<le> snap_range v2)"

definition adj_insert :: "adjacency \<Rightarrow> int \<Rightarrow> int \<Rightarrow> adjacency" where
  "adj_insert a k v = a(k \<mapsto> insert v (adj_get a k))"

definition add_link :: "adjacency \<Rightarrow> vid \<Rightarrow> vid \<Rightarrow> adjacency" where
  "add_link a x y = adj_insert (adj_insert a x y) y x"

type_synonym build_state = "adjacency \<times> nat"

definition compare_pair :: "VehicleSnapshot \<Rightarrow> VehicleSnapshot \<Rightarrow> build_state \<Rightarrow> build_state" where
  "compare_pair v1 v2 st =
     (case st of (a, comparisons) \<Rightarrow>
        (if in_range v1 v2 then add_link a (snap_id v1) (snap_id v2) else a, Suc comparisons))"

subsection \<open>The two enumerations of candidate pairs\<close>

fun fallback_pairs :: "VehicleSnapshot list \<Rightarrow> build_state \<Rightarrow> build_state" where
  "fallback_pairs [] st = st"
| "fallback_pairs (v1 # vs) st = fallback_pairs vs (fold (compare_pair v1) vs st)"

definition valid_index :: "VehicleSnapshot list \<Rightarrow> int \<Rightarrow> bool" where
  "valid_index s idx \<longleftrightarrow> 0 \<le> idx \<and> nat idx < length s"

definition compare_index_with :: "VehicleSnapshot list \<Rightarrow> int \<Rightarrow> int list \<Rightarrow> build_state \<Rightarrow> build_state" where
  "compare_index_with s idx1 others st =
     (if valid_index s idx1
      then fold (\<lambda>idx2 st. if valid_index s idx2 then compare_pair (s ! nat idx1) (s ! nat idx2) st else st)
             others st
      else st)"

fun same_antenna_pairs :: "VehicleSnapshot list \<Rightarrow> int list \<Rightarrow> build_state \<Rightarrow> build_state" where
  "same_antenna_pairs s [] st = st"
| "same_antenna_pairs s (idx1 # rest) st = same_antenna_pairs s rest (compare_index_with s idx1 rest st)"

definition cross_antenna_pairs :: "VehicleSnapshot list \<Rightarrow> int list \<Rightarrow> int list \<Rightarrow> build_state \<Rightarrow> build_state" where
  "cross_antenna_pairs s vehicleIndices neighborIndices st =
     fold (\<lambda>idx1. compare_index_with s idx1 neighborIndices) vehicleIndices st"

definition neighbor_antenna_pairs ::
  "VehicleSnapshot list \<Rightarrow> AntennaNeighborhood \<Rightarrow> cell_id \<Rightarrow> int list \<Rightarrow> build_state \<Rightarrow> build_state" where
  "neighbor_antenna_pairs s info antennaId vehicleIndices st =
     (case neighborAntennas info antennaId of
        None \<Rightarrow> st
      | Some nbrs \<Rightarrow>
          fold (\<lambda>neighborAntennaId st.
                  if neighborAntennaId \<le> antennaId then st
                  else (case map_of (vehiclesPerAntenna info) neighborAntennaId of
                          None \<Rightarrow> st
                        | Some neighborIndices \<Rightarrow> cross_antenna_pairs s vehicleIndices neighborIndices st))
               (sorted_list_of_set nbrs) st)"

definition antenna_pairs :: "VehicleSnapshot list \<Rightarrow> AntennaNeighborhood \<Rightarrow> build_state \<Rightarrow> build_state" where
  "antenna_pairs s info st =
     fold (\<lambda>(antennaId, vehicleIndices) st.
             neighbor_antenna_pairs s info antennaId vehicleIndices (same_antenna_pairs s vehicleIndices st))
          (vehiclesPerAntenna info) st"

subsection \<open>The builder and the read accessors\<close>

definition init_adjacency :: "VehicleSnapshot list \<Rightarrow> adjacency" where
  "init_adjacency s = fold (\<lambda>snap a. a(snap_id snap \<mapsto> {})) s Map.empty"

definition build_pairs :: "VehicleSnapshot list \<Rightarrow> AntennaNeighborhood option \<Rightarrow> build_state" where
  "build_pairs s antennaInfo =
     (case antennaInfo of
        Some info \<Rightarrow>
          if vehiclesPerAntenna info \<noteq> [] then antenna_pairs s info (init_adjacency s, 0)
          else fallback_pairs s (init_adjacency s, 0)
      | None \<Rightarrow> fallback_pairs s (init_adjacency s, 0))"

definition computeTransitiveClosure :: "('g, 'v) InterferenceGraph \<Rightarrow> ('g, 'v) InterferenceGraph" where
  "computeTransitiveClosure g = g\<lparr>transitiveClosure := closure_map (adjacencyList g)\<rparr>"

definition buildGraphFromSnapshots ::
  "('g, 'v) InterferenceGraph \<Rightarrow> VehicleSnapshot list \<Rightarrow> AntennaNeighborhood option \<Rightarrow> ('g, 'v) InterferenceGraph" where
  "buildGraphFromSnapshots g snapshots antennaInfo =
     (let g0 = g\<lparr>adjacencyList := Map.empty, transitiveClosure := Map.empty, vehicleMap := Map.empty\<rparr>
      in if snapshots = [] then g0
         else
           (case build_pairs snapshots antennaInfo of
              (a, comparisons) \<Rightarrow>
                (let g1 = g0\<lparr>adjacencyList := a\<rparr>;
                     g2 = (if computeTransitive g1 then computeTransitiveClosure g1 else g1)
                 in g2\<lparr>lastComparisons := int comparisons,
                       lastAvgNeighbors := real (comparisons * 2) / real (length snapshots)\<rparr>)))"

definition calculateGraphAsync ::
  "'g \<Rightarrow> VehicleSnapshot list \<Rightarrow> bool \<Rightarrow> AntennaNeighborhood \<Rightarrow> ('g, 'v) InterferenceGraph" where
  "calculateGraphAsync grid snapshots computeT antennaInfo =
     buildGraphFromSnapshots ((new_InterferenceGraph grid)\<lparr>computeTransitive := computeT\<rparr>)
       snapshots (Some antennaInfo)"

definition copyFrom :: "('g, 'v) InterferenceGraph \<Rightarrow> ('h, 'w) InterferenceGraph \<Rightarrow> ('g, 'v) InterferenceGraph" where
  "copyFrom g other =
     g\<lparr>adjacencyList := adjacencyList other, transitiveClosure := transitiveClosure other,
       lastComparisons := lastComparisons other, lastAvgNeighbors := lastAvgNeighbors other\<rparr>"

definition canCommunicate :: "('g, 'v) InterferenceGraph \<Rightarrow> vid \<Rightarrow> vid \<Rightarrow> bool" where
  "canCommunicate g id1 id2 =
     (case transitiveClosure g id1 of None \<Rightarrow> False | Some reachable \<Rightarrow> id2 \<in> reachable)"

definition getReachableVehicles :: "('g, 'v) InterferenceGraph \<Rightarrow> vid \<Rightarrow> vid set" where
  "getReachableVehicles g vehicleId = adj_get (transitiveClosure g) vehicleId"

definition getDirectNeighbors :: "('g, 'v) InterferenceGraph \<Rightarrow> vid \<Rightarrow> vid set" where
  "getDirectNeighbors g vehicleId = adj_get (adjacencyList g) vehicleId"

subsection \<open>Candidate pairs\<close>

text \<open>
  Every enumeration of the builder folds \<open>compare_pair\<close> over a list of candidate
  pairs; these lists name them. \<open>edges_adjacency K E\<close> is the adjacency map with keys
  \<open>K\<close> whose neighbour sets are those of the symmetric closure of \<open>E\<close>.
\<close>

definition edges_adjacency :: "vid set \<Rightarrow> vid rel \<Rightarrow> adjacency" where
  "edges_adjacency K E k = (if k \<in> K then Some ((E \<union> E\<inverse>) `` {k}) else None)"

definition run_pairs :: "(VehicleSnapshot \<times> VehicleSnapshot) list \<Rightarrow> build_state \<Rightarrow> build_state" where
  "run_pairs ps st = fold (\<lambda>(v1, v2). compare_pair v1 v2) ps st"

definition pair_edges :: "(VehicleSnapshot \<times> VehicleSnapshot) list \<Rightarrow> vid rel" where
  "pair_edges ps = (\<lambda>(v1, v2). (snap_id v1, snap_id v2)) ` {p \<in> set ps. case p of (v1, v2) \<Rightarrow> in_range v1 v2}"

definition pair_ids :: "(VehicleSnapshot \<times> VehicleSnapshot) list \<Rightarrow> vid set" where
  "pair_ids ps = (\<Union>(v1, v2) \<in> set ps. {snap_id v1, snap_id v2})"

fun ordered_pairs :: "'a list \<Rightarrow> ('a \<times> 'a) list" where
  "ordered_pairs [] = []"
| "ordered_pairs (x # xs) = map (Pair x) xs @ ordered_pairs xs"

definition index_list :: "VehicleSnapshot list \<Rightarrow> int \<Rightarrow> int list \<Rightarrow> (VehicleSnapshot \<times> VehicleSnapshot) list" where
  "index_list s idx1 others =
     (if valid_index s idx1 then map (\<lambda>idx2. (s ! nat idx1, s ! nat idx2)) (filter (valid_index s) others) else [])"

definition same_list :: "VehicleSnapshot list \<Rightarrow> int list \<Rightarrow> (VehicleSnapshot \<times> VehicleSnapshot) list" where
  "same_list s L = map (\<lambda>(i, j). (s ! nat i, s ! nat j)) (ordered_pairs (filter (valid_index s) L))"

definition cross_list :: "VehicleSnapshot list \<Rightarrow> int list \<Rightarrow> int list \<Rightarrow> (VehicleSnapshot \<times> VehicleSnapshot) list" where
  "cross_list s L1 L2 = concat (map (\<lambda>idx1. index_list s idx1 L2) L1)"

definition neighbor_list ::
  "VehicleSnapshot list \<Rightarrow> AntennaNeighborhood \<Rightarrow> cell_id \<Rightarrow> int list \<Rightarrow> (VehicleSnapshot \<times> VehicleSnapshot) list" where
  "neighbor_list s info antennaId L =
     (case neighborAntennas info antennaId of
        None \<Rightarrow> []
      | Some nbrs \<Rightarrow> concat (map (\<lambda>n. if n \<le> antennaId then []
                                     else (case map_of (vehiclesPerAntenna info) n of
                                             None \<Rightarrow> [] | Some L2 \<Rightarrow> cross_list s L L2))
                              (sorted_list_of_set nbrs)))"

definition antenna_list :: "VehicleSnapshot list \<Rightarrow> AntennaNeighborhood \<Rightarrow> (VehicleSnapshot \<times> VehicleSnapshot) list" where
  "antenna_list s info =
     concat (map (\<lambda>(antennaId, L). same_list s L @ neighbor_list s info antennaId L) (vehiclesPerAntenna info))"

definition candidates :: "VehicleSnapshot list \<Rightarrow> AntennaNeighborhood option \<Rightarrow> (VehicleSnapshot \<times> VehicleSnapshot) list" where
  "candidates s antennaInfo =
     (case antennaInfo of
        Some info \<Rightarrow> if vehiclesPerAntenna info \<noteq> [] then antenna_list s info else ordered_pairs s
      | None \<Rightarrow> ordered_pairs s)"

subsection \<open>What the builder promises\<close>

text \<open>
  \<open>spec_edges s\<close>: the pairs of snapshot positions \<open>i < j\<close> within mutual range (the
  spec's edge construction, section 4.3). \<open>antenna_info_sound\<close>: the antenna
  neighbourhood the driver hands over partitions the snapshot indices into cells with
  distinct identifiers, its neighbour sets are finite and symmetric, and two vehicles in
  range sit in one cell or in neighbouring cells (the spec's neighbour-set soundness,
  section 8 item 7). \<open>range_symmetric\<close>: the range gate does not depend on the order of
  the pair, which \<open>builder_distance\<close> only guarantees on a common latitude.
\<close>

definition spec_edges :: "VehicleSnapshot list \<Rightarrow> vid rel" where
  "spec_edges s = {(snap_id (s ! i), snap_id (s ! j)) | i j. i < j \<and> j < length s \<and> in_range (s ! i) (s ! j)}"

definition antenna_info_sound :: "VehicleSnapshot list \<Rightarrow> AntennaNeighborhood \<Rightarrow> bool" where
  "antenna_info_sound s info \<longleftrightarrow>
     distinct (map fst (vehiclesPerAntenna info)) \<and>
     distinct (concat (map snd (vehiclesPerAntenna info))) \<and>
     set (concat (map snd (vehiclesPerAntenna info))) = int ` {..<length s} \<and>
     sym_adj (neighborAntennas info) \<and> finite_adj (neighborAntennas info) \<and>
     (\<forall>(c, L) \<in> set (vehiclesPerAntenna info). \<forall>(c', L') \<in> set (vehiclesPerAntenna info).
        \<forall>i \<in> set L. \<forall>j \<in> set L'. in_range (s ! nat i) (s ! nat j) \<longrightarrow>
          c = c' \<or> c' \<in> adj_get (neighborAntennas info) c)"

definition range_symmetric :: "VehicleSnapshot list \<Rightarrow> bool" where
  "range_symmetric s \<longleftrightarrow> (\<forall>v \<in> set s. \<forall>w \<in> set s. in_range v w = in_range w v)"

definition antenna_info_distinct :: "AntennaNeighborhood option \<Rightarrow> bool" where
  "antenna_info_distinct info =
     (case info of None \<Rightarrow> True
      | Some ai \<Rightarrow> distinct (map fst (vehiclesPerAntenna ai)) \<and> distinct (concat (map snd (vehiclesPerAntenna ai))))"

subsection \<open>Each loop folds over its candidate list\<close>

lemma add_link_edges:
  assumes "x \<in> K" "y \<in> K"
  shows "add_link (edges_adjacency K E) x y = edges_adjacency K (insert (x, y) E)"
  using assms
  by (auto simp: add_link_def adj_insert_def edges_adjacency_def adj_get_def fun_eq_iff)

lemma compare_pair_edges:
  assumes "snap_id v1 \<in> K" "snap_id v2 \<in> K"
  shows "compare_pair v1 v2 (edges_adjacency K E, c) =
         (edges_adjacency K (if in_range v1 v2 then insert (snap_id v1, snap_id v2) E else E), Suc c)"
  using assms by (simp add: compare_pair_def add_link_edges)

lemma run_pairs_edges:
  assumes "pair_ids ps \<subseteq> K"
  shows "run_pairs ps (edges_adjacency K E, c) = (edges_adjacency K (E \<union> pair_edges ps), c + length ps)"
  using assms
proof (induction ps arbitrary: E c)
  case Nil
  then show ?case by (simp add: run_pairs_def pair_edges_def)
next
  case (Cons p ps)
  obtain v1 v2 where p: "p = (v1, v2)" by (cases p)
  have ids: "snap_id v1 \<in> K" "snap_id v2 \<in> K" "pair_ids ps \<subseteq> K"
    using Cons.prems by (auto simp: pair_ids_def p)
  have "pair_edges (p # ps) = (if in_range v1 v2 then insert (snap_id v1, snap_id v2) (pair_edges ps) else pair_edges ps)"
    by (auto simp: pair_edges_def p)
  then show ?case
    using Cons.IH [OF ids(3)] ids by (simp add: run_pairs_def p compare_pair_edges)
qed

lemma run_pairs_append: "run_pairs (xs @ ys) st = run_pairs ys (run_pairs xs st)"
  by (simp add: run_pairs_def)

lemma init_adjacency_edges: "init_adjacency s = edges_adjacency (snap_id ` set s) {}"
proof -
  have "fold (\<lambda>snap a. a(snap_id snap \<mapsto> {})) s a =
        (\<lambda>k. if k \<in> snap_id ` set s then Some {} else a k)" for a :: adjacency
    by (induction s arbitrary: a) (auto simp: fun_eq_iff)
  then show ?thesis by (simp add: init_adjacency_def edges_adjacency_def fun_eq_iff)
qed

lemma run_pairs_Nil [simp]: "run_pairs [] st = st"
  by (simp add: run_pairs_def)

lemma run_pairs_concat: "run_pairs (concat xss) st = fold run_pairs xss st"
  by (induction xss arbitrary: st) (simp_all add: run_pairs_append)

lemma fallback_pairs_run: "fallback_pairs s st = run_pairs (ordered_pairs s) st"
proof (induction s arbitrary: st)
  case Nil
  then show ?case by (simp add: run_pairs_def)
next
  case (Cons v vs)
  have "fold (compare_pair v) vs st = run_pairs (map (Pair v) vs) st" for st
    by (induction vs arbitrary: st) (simp_all add: run_pairs_def)
  then show ?case using Cons.IH by (simp add: run_pairs_append)
qed

lemma compare_index_with_run: "compare_index_with s idx1 others = run_pairs (index_list s idx1 others)"
proof (rule ext)
  fix st
  have "fold (\<lambda>idx2 st. if valid_index s idx2 then compare_pair v (s ! nat idx2) st else st) others st =
        run_pairs (map (\<lambda>idx2. (v, s ! nat idx2)) (filter (valid_index s) others)) st" for v st
    by (induction others arbitrary: st) (simp_all add: run_pairs_def)
  then show "compare_index_with s idx1 others st = run_pairs (index_list s idx1 others) st"
    by (simp add: compare_index_with_def index_list_def run_pairs_def)
qed

lemma same_antenna_pairs_run: "same_antenna_pairs s L st = run_pairs (same_list s L) st"
proof (induction L arbitrary: st)
  case Nil
  then show ?case by (simp add: same_list_def)
next
  case (Cons i rest)
  have "same_list s (i # rest) = index_list s i rest @ same_list s rest"
    by (simp add: same_list_def index_list_def)
  then show ?case using Cons.IH by (simp add: compare_index_with_run run_pairs_append)
qed

lemma cross_antenna_pairs_run: "cross_antenna_pairs s L1 L2 st = run_pairs (cross_list s L1 L2) st"
  by (simp add: cross_antenna_pairs_def cross_list_def run_pairs_concat fold_map comp_def compare_index_with_run)

lemma neighbor_antenna_pairs_run:
  "neighbor_antenna_pairs s info c L st = run_pairs (neighbor_list s info c L) st"
proof (cases "neighborAntennas info c")
  case None
  then show ?thesis by (simp add: neighbor_antenna_pairs_def neighbor_list_def run_pairs_def)
next
  case (Some nbrs)
  have "fold (\<lambda>n st. if n \<le> c then st else (case map_of (vehiclesPerAntenna info) n of
                None \<Rightarrow> st | Some L2 \<Rightarrow> cross_antenna_pairs s L L2 st)) ns st =
        fold run_pairs (map (\<lambda>n. if n \<le> c then [] else (case map_of (vehiclesPerAntenna info) n of
                None \<Rightarrow> [] | Some L2 \<Rightarrow> cross_list s L L2)) ns) st" for ns st
    by (induction ns arbitrary: st)
       (auto simp: cross_antenna_pairs_run run_pairs_def split: option.splits)
  then show ?thesis using Some
    by (simp add: neighbor_antenna_pairs_def neighbor_list_def run_pairs_concat)
qed

lemma antenna_pairs_run: "antenna_pairs s info st = run_pairs (antenna_list s info) st"
proof -
  have "fold (\<lambda>(c, L) st. neighbor_antenna_pairs s info c L (same_antenna_pairs s L st)) xs st =
        fold run_pairs (map (\<lambda>(c, L). same_list s L @ neighbor_list s info c L) xs) st" for xs st
    by (induction xs arbitrary: st)
       (auto simp: same_antenna_pairs_run neighbor_antenna_pairs_run run_pairs_append)
  then show ?thesis by (simp add: antenna_pairs_def antenna_list_def run_pairs_concat)
qed

lemma build_pairs_run: "build_pairs s info = run_pairs (candidates s info) (init_adjacency s, 0)"
  by (simp add: build_pairs_def candidates_def fallback_pairs_run antenna_pairs_run split: option.splits)


subsection \<open>Characterisation of the builder\<close>

lemma index_list_from_s: "(v, w) \<in> set (index_list s i L) \<Longrightarrow> v \<in> set s \<and> w \<in> set s"
  by (auto simp: index_list_def valid_index_def split: if_splits)

lemma ordered_pairs_in_set: "(x, y) \<in> set (ordered_pairs xs) \<Longrightarrow> x \<in> set xs \<and> y \<in> set xs"
  by (induction xs) auto

lemma same_list_from_s: "(v, w) \<in> set (same_list s L) \<Longrightarrow> v \<in> set s \<and> w \<in> set s"
  by (auto simp: same_list_def valid_index_def dest!: ordered_pairs_in_set)

lemma cross_list_from_s: "(v, w) \<in> set (cross_list s L1 L2) \<Longrightarrow> v \<in> set s \<and> w \<in> set s"
  by (auto simp: cross_list_def dest: index_list_from_s)

lemma candidates_from_s: "(v, w) \<in> set (candidates s info) \<Longrightarrow> v \<in> set s \<and> w \<in> set s"
  by (auto simp: candidates_def antenna_list_def neighbor_list_def
      dest: ordered_pairs_in_set same_list_from_s cross_list_from_s
      split: option.splits if_splits)

lemma pair_ids_candidates: "pair_ids (candidates s info) \<subseteq> snap_id ` set s"
  by (auto simp: pair_ids_def dest: candidates_from_s)

lemma build_pairs_edges:
  "build_pairs s info =
     (edges_adjacency (snap_id ` set s) (pair_edges (candidates s info)), length (candidates s info))"
  using run_pairs_edges [OF pair_ids_candidates, of s info "{}" 0]
  by (simp add: build_pairs_run init_adjacency_edges)

lemma pair_edges_ids: "(x, y) \<in> pair_edges (candidates s info) \<Longrightarrow> x \<in> snap_id ` set s \<and> y \<in> snap_id ` set s"
  by (auto simp: pair_edges_def dest: candidates_from_s)

lemma build_adjacency:
  "adjacencyList (buildGraphFromSnapshots g s info) =
     (if s = [] then Map.empty else edges_adjacency (snap_id ` set s) (pair_edges (candidates s info)))"
  by (simp add: buildGraphFromSnapshots_def build_pairs_edges Let_def computeTransitiveClosure_def)

lemma build_closure:
  "transitiveClosure (buildGraphFromSnapshots g s info) =
     (if s \<noteq> [] \<and> computeTransitive g then closure_map (adjacencyList (buildGraphFromSnapshots g s info))
      else Map.empty)"
  by (simp add: buildGraphFromSnapshots_def build_pairs_edges Let_def computeTransitiveClosure_def)

lemma build_comparisons:
  "s \<noteq> [] \<Longrightarrow> lastComparisons (buildGraphFromSnapshots g s info) = int (length (candidates s info))"
  by (simp add: buildGraphFromSnapshots_def build_pairs_edges Let_def computeTransitiveClosure_def)

lemma sym_edges_adjacency: "(\<And>x y. (x, y) \<in> E \<Longrightarrow> x \<in> K \<and> y \<in> K) \<Longrightarrow> sym_adj (edges_adjacency K E)"
  by (auto simp: sym_adj_def adj_get_def edges_adjacency_def)

lemma finite_edges_adjacency: "finite K \<Longrightarrow> finite E \<Longrightarrow> finite_adj (edges_adjacency K E)"
proof -
  assume fK: "finite K" and fE: "finite E"
  have "dom (edges_adjacency K E) = K" by (auto simp: edges_adjacency_def split: if_splits)
  moreover have "finite ((E \<union> E\<inverse>) `` {k})" for k using fE by simp
  ultimately show ?thesis using fK by (auto simp: finite_adj_def ran_def edges_adjacency_def split: if_splits)
qed

lemma finite_pair_edges: "finite (pair_edges ps)"
  by (simp add: pair_edges_def)

theorem build_adjacency_symmetric: "sym_adj (adjacencyList (buildGraphFromSnapshots g s info))"
proof (cases "s = []")
  case True
  then show ?thesis by (simp add: build_adjacency sym_adj_def)
next
  case False
  have "sym_adj (edges_adjacency (snap_id ` set s) (pair_edges (candidates s info)))"
    by (rule sym_edges_adjacency) (rule pair_edges_ids)
  with False show ?thesis by (simp add: build_adjacency)
qed

lemma build_finite: "finite_adj (adjacencyList (buildGraphFromSnapshots g s info))"
  by (simp add: build_adjacency finite_edges_adjacency finite_pair_edges)

lemma set_ordered_pairs: "set (ordered_pairs s) = {(s ! i, s ! j) | i j. i < j \<and> j < length s}"
proof (induction s)
  case Nil
  then show ?case by simp
next
  case (Cons v vs)
  have "{((v # vs) ! i, (v # vs) ! j) | i j. i < j \<and> j < length (v # vs)} =
        {(v, vs ! j) | j. j < length vs} \<union> {(vs ! i, vs ! j) | i j. i < j \<and> j < length vs}"
    (is "?L = ?R")
  proof
    show "?L \<subseteq> ?R"
    proof
      fix p assume "p \<in> ?L"
      then obtain i j where p: "p = ((v # vs) ! i, (v # vs) ! j)" and ij: "i < j" "j < Suc (length vs)"
        by auto
      show "p \<in> ?R"
      proof (cases i)
        case 0
        then show ?thesis using p ij by (cases j) auto
      next
        case (Suc i')
        then obtain j' where "j = Suc j'" using ij by (cases j) auto
        then show ?thesis using p ij Suc by auto
      qed
    qed
  next
    show "?R \<subseteq> ?L"
    proof
      fix p assume "p \<in> ?R"
      then consider j where "p = (v, vs ! j)" "j < length vs"
        | i j where "p = (vs ! i, vs ! j)" "i < j" "j < length vs" by auto
      then show "p \<in> ?L"
      proof cases
        case (1 j)
        then show ?thesis by (intro CollectI exI [of _ 0] exI [of _ "Suc j"]) simp
      next
        case (2 i j)
        then show ?thesis by (intro CollectI exI [of _ "Suc i"] exI [of _ "Suc j"]) simp
      qed
    qed
  qed
  moreover have "set (map (Pair v) vs) = {(v, vs ! j) | j. j < length vs}"
    by (auto simp: in_set_conv_nth image_iff)
  ultimately show ?case using Cons.IH by simp
qed

lemma length_ordered_pairs: "length (ordered_pairs s) = length s * (length s - 1) div 2"
proof (induction s)
  case Nil
  then show ?case by simp
next
  case (Cons v vs)
  have "length vs + length vs * (length vs - 1) div 2 = Suc (length vs) * length vs div 2"
    by (cases "length vs") (auto simp: algebra_simps)
  then show ?case using Cons.IH by simp
qed

lemma ordered_pairs_distinct: "distinct xs \<Longrightarrow> (x, y) \<in> set (ordered_pairs xs) \<Longrightarrow> x \<noteq> y"
  by (induction xs) (auto dest: ordered_pairs_in_set)

lemma ordered_pairs_cover:
  "x \<in> set xs \<Longrightarrow> y \<in> set xs \<Longrightarrow> x \<noteq> y \<Longrightarrow> (x, y) \<in> set (ordered_pairs xs) \<or> (y, x) \<in> set (ordered_pairs xs)"
  by (induction xs) auto

lemma pair_edges_eq: "pair_edges ps = {(snap_id v, snap_id w) | v w. (v, w) \<in> set ps \<and> in_range v w}"
  by (auto simp: pair_edges_def)

lemma pair_edges_ordered_pairs: "pair_edges (ordered_pairs s) = spec_edges s"
  unfolding pair_edges_eq spec_edges_def set_ordered_pairs by blast

lemma edges_adjacency_sym_cong:
  "E \<union> E\<inverse> = F \<union> F\<inverse> \<Longrightarrow> edges_adjacency K E = edges_adjacency K F"
  by (simp add: edges_adjacency_def fun_eq_iff)

text \<open>
  C2: the all-pairs fallback of buildGraphFromSnapshots builds exactly the specified graph:
  every vehicle has an entry, and two vehicles are adjacent iff for some indices i < j of
  the snapshots they are within each other's range by the builder's distance; zero vehicles
  give the empty map.
\<close>

theorem fallback_adjacency:
  "adjacencyList (buildGraphFromSnapshots g s None) =
     (if s = [] then Map.empty else edges_adjacency (snap_id ` set s) (spec_edges s))"
  by (simp add: build_adjacency candidates_def pair_edges_ordered_pairs)

text \<open>Membership in the cell-based candidate list.\<close>

lemma set_index_list:
  "set (index_list s i L) = (if valid_index s i then {(s ! nat i, s ! nat j) | j. j \<in> set L \<and> valid_index s j} else {})"
  by (auto simp: index_list_def)

lemma set_cross_list:
  "set (cross_list s L1 L2) = {(s ! nat i, s ! nat j) | i j. i \<in> set L1 \<and> j \<in> set L2 \<and> valid_index s i \<and> valid_index s j}"
  by (auto simp: cross_list_def set_index_list split: if_splits)

lemma set_same_list:
  "set (same_list s L) = {(s ! nat i, s ! nat j) | i j. (i, j) \<in> set (ordered_pairs (filter (valid_index s) L))}"
  by (auto simp: same_list_def)

lemma set_neighbor_list:
  assumes "neighborAntennas info c = Some N" and "finite N"
  shows "p \<in> set (neighbor_list s info c L) \<longleftrightarrow>
    (\<exists>n L2. n \<in> N \<and> c < n \<and> map_of (vehiclesPerAntenna info) n = Some L2 \<and> p \<in> set (cross_list s L L2))"
  using assms by (force simp: neighbor_list_def split: option.splits if_splits)

lemma cells_disjoint:
  "distinct (map fst xs) \<Longrightarrow> distinct (concat (map snd xs)) \<Longrightarrow> (a, L) \<in> set xs \<Longrightarrow>
   (b, L') \<in> set xs \<Longrightarrow> a \<noteq> b \<Longrightarrow> set L \<inter> set L' = {}"
proof (induction xs)
  case Nil
  then show ?case by simp
next
  case (Cons e xs)
  then show ?case by (cases e) (fastforce simp: image_iff)
qed

lemma cell_distinct: "distinct (concat (map snd xs)) \<Longrightarrow> (a, L) \<in> set xs \<Longrightarrow> distinct L"
  by (induction xs) auto

lemma in_sorted_list_of_set: "x \<in> set (sorted_list_of_set N) \<Longrightarrow> x \<in> N"
  by (cases "finite N") auto

lemma antenna_list_same:
  "(c, L) \<in> set (vehiclesPerAntenna info) \<Longrightarrow> p \<in> set (same_list s L) \<Longrightarrow> p \<in> set (antenna_list s info)"
  by (force simp: antenna_list_def)

lemma antenna_list_cross:
  assumes "(c, L) \<in> set (vehiclesPerAntenna info)" "neighborAntennas info c = Some N" "finite N"
    "n \<in> N" "c < n" "map_of (vehiclesPerAntenna info) n = Some L2" "p \<in> set (cross_list s L L2)"
  shows "p \<in> set (antenna_list s info)"
proof -
  have "p \<in> set (neighbor_list s info c L)"
    using assms(2-7) set_neighbor_list [OF assms(2,3)] by blast
  with assms(1) show ?thesis by (force simp: antenna_list_def)
qed

lemma antenna_pair_indices:
  assumes keys: "distinct (map fst (vehiclesPerAntenna info))"
    and idx: "distinct (concat (map snd (vehiclesPerAntenna info)))"
    and p: "(v, w) \<in> set (antenna_list s info)"
  shows "\<exists>i j. valid_index s i \<and> valid_index s j \<and> i \<noteq> j \<and> v = s ! nat i \<and> w = s ! nat j"
proof -
  obtain c L where cL: "(c, L) \<in> set (vehiclesPerAntenna info)"
    and vw: "(v, w) \<in> set (same_list s L) \<or> (v, w) \<in> set (neighbor_list s info c L)"
    using p by (auto simp: antenna_list_def)
  from vw show ?thesis
  proof
    assume "(v, w) \<in> set (same_list s L)"
    then obtain i j where ij: "(i, j) \<in> set (ordered_pairs (filter (valid_index s) L))"
      and vw': "v = s ! nat i" "w = s ! nat j"
      by (auto simp: set_same_list)
    have "distinct (filter (valid_index s) L)" using cell_distinct [OF idx cL] by simp
    then have "i \<noteq> j" using ij by (rule ordered_pairs_distinct)
    moreover have "valid_index s i" "valid_index s j" using ordered_pairs_in_set [OF ij] by auto
    ultimately show ?thesis using vw' by blast
  next
    assume nb: "(v, w) \<in> set (neighbor_list s info c L)"
    then obtain N where N: "neighborAntennas info c = Some N"
      by (cases "neighborAntennas info c") (auto simp: neighbor_list_def)
    from nb obtain n L2 where n: "n \<in> N" "c < n" and L2: "map_of (vehiclesPerAntenna info) n = Some L2"
      and vw': "(v, w) \<in> set (cross_list s L L2)"
      using N by (force simp: neighbor_list_def dest: in_sorted_list_of_set split: if_splits option.splits)
    obtain i j where ij: "i \<in> set L" "j \<in> set L2" "valid_index s i" "valid_index s j"
      and vw'': "v = s ! nat i" "w = s ! nat j"
      using vw' by (auto simp: set_cross_list)
    have "(n, L2) \<in> set (vehiclesPerAntenna info)" using L2 by (rule map_of_SomeD)
    then have "set L \<inter> set L2 = {}" using cells_disjoint [OF keys idx cL] n by auto
    then have "i \<noteq> j" using ij by auto
    then show ?thesis using ij vw'' by blast
  qed
qed

lemma antenna_cross_cover:
  assumes keys: "distinct (map fst (vehiclesPerAntenna info))"
    and fin: "finite_adj (neighborAntennas info)"
    and cL: "(c, L) \<in> set (vehiclesPerAntenna info)" and cL': "(c', L') \<in> set (vehiclesPerAntenna info)"
    and lt: "c < c'" and nb: "c' \<in> adj_get (neighborAntennas info) c"
    and a: "int a \<in> set L" "a < length s" and b: "int b \<in> set L'" "b < length s"
  shows "(s ! a, s ! b) \<in> set (antenna_list s info)"
proof -
  obtain N where N: "neighborAntennas info c = Some N" and cN: "c' \<in> N"
    using nb by (auto simp: adj_get_def split: option.splits)
  have finN: "finite N" using fin N by (auto simp: finite_adj_def ran_def)
  have L': "map_of (vehiclesPerAntenna info) c' = Some L'" using keys cL' by (rule map_of_is_SomeI)
  have "(s ! a, s ! b) \<in> set (cross_list s L L')"
    using a b by (force simp: set_cross_list valid_index_def)
  then show ?thesis using antenna_list_cross [OF cL N finN cN lt L'] by blast
qed

lemma antenna_list_covers:
  assumes sound: "antenna_info_sound s info"
    and ab: "a < length s" "b < length s" "a \<noteq> b" and r: "in_range (s ! a) (s ! b)"
  shows "(s ! a, s ! b) \<in> set (antenna_list s info) \<or> (s ! b, s ! a) \<in> set (antenna_list s info)"
proof -
  let ?V = "vehiclesPerAntenna info" and ?N = "neighborAntennas info"
  have keys: "distinct (map fst ?V)" and idx: "distinct (concat (map snd ?V))"
    and cover: "set (concat (map snd ?V)) = int ` {..<length s}"
    and sym: "sym_adj ?N" and fin: "finite_adj ?N"
    and local: "\<forall>(c, L) \<in> set ?V. \<forall>(c', L') \<in> set ?V. \<forall>i \<in> set L. \<forall>j \<in> set L'.
                  in_range (s ! nat i) (s ! nat j) \<longrightarrow> c = c' \<or> c' \<in> adj_get ?N c"
    using sound by (simp_all add: antenna_info_sound_def)
  have "int a \<in> set (concat (map snd ?V))" "int b \<in> set (concat (map snd ?V))"
    using ab(1,2) cover by auto
  then obtain c L c' L' where cL: "(c, L) \<in> set ?V" and aL: "int a \<in> set L"
    and cL': "(c', L') \<in> set ?V" and bL': "int b \<in> set L'"
    by auto
  have l1: "\<forall>(c', L') \<in> set ?V. \<forall>i \<in> set L. \<forall>j \<in> set L'.
              in_range (s ! nat i) (s ! nat j) \<longrightarrow> c = c' \<or> c' \<in> adj_get ?N c"
    using bspec [OF local cL] by simp
  have "\<forall>i \<in> set L. \<forall>j \<in> set L'. in_range (s ! nat i) (s ! nat j) \<longrightarrow> c = c' \<or> c' \<in> adj_get ?N c"
    using bspec [OF l1 cL'] by simp
  then have "c = c' \<or> c' \<in> adj_get ?N c" using aL bL' r by fastforce
  then consider "c = c'" | "c \<noteq> c'" "c' \<in> adj_get ?N c" by blast
  then show ?thesis
  proof cases
    case 1
    then have "L = L'" using keys cL cL' by (blast intro: eq_key_imp_eq_value)
    then have "int a \<in> set (filter (valid_index s) L)" "int b \<in> set (filter (valid_index s) L)"
      using aL bL' ab by (auto simp: valid_index_def)
    then have "(int a, int b) \<in> set (ordered_pairs (filter (valid_index s) L)) \<or>
               (int b, int a) \<in> set (ordered_pairs (filter (valid_index s) L))"
      using ab(3) by (intro ordered_pairs_cover) auto
    then have "(s ! a, s ! b) \<in> set (same_list s L) \<or> (s ! b, s ! a) \<in> set (same_list s L)"
      by (force simp: set_same_list)
    then show ?thesis using cL by (blast intro: antenna_list_same)
  next
    case 2
    then have nb': "c \<in> adj_get ?N c'" using sym by (simp add: sym_adj_def)
    show ?thesis
    proof (cases "c < c'")
      case True
      then show ?thesis using antenna_cross_cover [OF keys fin cL cL' True 2(2) aL ab(1) bL' ab(2)] by blast
    next
      case False
      then have "c' < c" using 2(1) by simp
      then show ?thesis using antenna_cross_cover [OF keys fin cL' cL _ nb' bL' ab(2) aL ab(1)] by blast
    qed
  qed
qed

text \<open>
  C1: when the antenna data is sound (the cells partition the snapshot indices, the
  neighbour sets are finite and symmetric, every in-range pair lies in one cell or in
  neighbouring cells) and the range gate gives the same answer in both orders, the per-cell
  build of buildGraphFromSnapshots yields the same adjacency as the all-pairs fallback.
\<close>

theorem antenna_adjacency_eq_fallback:
  assumes sound: "antenna_info_sound s info" and sym: "range_symmetric s"
  shows "adjacencyList (buildGraphFromSnapshots g s (Some info)) =
         adjacencyList (buildGraphFromSnapshots g s None)"
proof (cases "s = [] \<or> vehiclesPerAntenna info = []")
  case True
  then show ?thesis by (auto simp: build_adjacency candidates_def)
next
  case False
  let ?A = "pair_edges (antenna_list s info)" and ?F = "spec_edges s"
  have keys: "distinct (map fst (vehiclesPerAntenna info))"
    and idx: "distinct (concat (map snd (vehiclesPerAntenna info)))"
    using sound by (simp_all add: antenna_info_sound_def)
  have AF: "?A \<subseteq> ?F \<union> ?F\<inverse>"
  proof
    fix p assume "p \<in> ?A"
    then obtain v w where vw: "(v, w) \<in> set (antenna_list s info)" "in_range v w"
      and p: "p = (snap_id v, snap_id w)"
      by (auto simp: pair_edges_eq)
    obtain i j where ij: "valid_index s i" "valid_index s j" "i \<noteq> j" "v = s ! nat i" "w = s ! nat j"
      using antenna_pair_indices [OF keys idx vw(1)] by blast
    have vs: "v \<in> set s" "w \<in> set s" using ij by (auto simp: valid_index_def)
    have "nat i \<noteq> nat j" using ij by (auto simp: valid_index_def)
    then consider "nat i < nat j" | "nat j < nat i" by linarith
    then show "p \<in> ?F \<union> ?F\<inverse>"
    proof cases
      case 1
      then show ?thesis using ij vw(2) p by (auto simp: spec_edges_def valid_index_def)
    next
      case 2
      have "in_range w v" using sym vs vw(2) by (simp add: range_symmetric_def)
      then show ?thesis using 2 ij p by (auto simp: spec_edges_def valid_index_def)
    qed
  qed
  have FA: "?F \<subseteq> ?A \<union> ?A\<inverse>"
  proof
    fix p assume "p \<in> ?F"
    then obtain a b where ab: "a < b" "b < length s" "in_range (s ! a) (s ! b)"
      and p: "p = (snap_id (s ! a), snap_id (s ! b))"
      by (auto simp: spec_edges_def)
    have r': "in_range (s ! b) (s ! a)" using sym ab by (simp add: range_symmetric_def)
    have "(s ! a, s ! b) \<in> set (antenna_list s info) \<or> (s ! b, s ! a) \<in> set (antenna_list s info)"
      using antenna_list_covers [OF sound _ ab(2) _ ab(3)] ab by simp
    then show "p \<in> ?A \<union> ?A\<inverse>" using ab(3) r' p by (auto simp: pair_edges_eq)
  qed
  have "?A \<union> ?A\<inverse> = ?F \<union> ?F\<inverse>" using AF FA by blast
  then have "edges_adjacency (snap_id ` set s) ?A = edges_adjacency (snap_id ` set s) ?F"
    by (rule edges_adjacency_sym_cong)
  with False show ?thesis by (simp add: build_adjacency candidates_def pair_edges_ordered_pairs)
qed


subsection \<open>Closure, self-loops and counts on the built graph\<close>

lemma adj_get_edges_adjacency:
  "adj_get (edges_adjacency K E) k = (if k \<in> K then (E \<union> E\<inverse>) `` {k} else {})"
  by (simp add: adj_get_def edges_adjacency_def)

lemma build_reachable:
  "getReachableVehicles (buildGraphFromSnapshots g s info) i =
     (if computeTransitive g
      then {j. (i, j) \<in> (adj_rel (adjacencyList (buildGraphFromSnapshots g s info)))\<^sup>+ \<and> j \<noteq> i} else {})"
proof -
  let ?A = "adjacencyList (buildGraphFromSnapshots g s info)"
  have none: "{j. (i, j) \<in> (adj_rel ?A)\<^sup>+ \<and> j \<noteq> i} = {}" if "?A i = None"
  proof -
    have "(i, j) \<notin> (adj_rel ?A)\<^sup>+" for j
    proof
      assume "(i, j) \<in> (adj_rel ?A)\<^sup>+"
      then obtain z where "(i, z) \<in> adj_rel ?A" by (auto dest: tranclD)
      then show False using that by (simp add: adj_get_def)
    qed
    then show ?thesis by blast
  qed
  show ?thesis
  proof (cases "s \<noteq> [] \<and> computeTransitive g")
    case True
    then show ?thesis
      using none bfsReachable_trancl [OF build_finite [of g s info], of i]
      by (cases "?A i") (simp_all add: getReachableVehicles_def build_closure closure_map_def adj_get_def)
  next
    case False
    then show ?thesis
      using none by (auto simp: getReachableVehicles_def build_closure build_adjacency)
  qed
qed

lemma snap_id_inj:
  "distinct (map snap_id s) \<Longrightarrow> a < length s \<Longrightarrow> b < length s \<Longrightarrow> snap_id (s ! a) = snap_id (s ! b) \<Longrightarrow> a = b"
  using nth_eq_iff_index_eq [of "map snap_id s" a b] by simp

lemma candidates_no_self:
  assumes ids: "distinct (map snap_id s)" and ok: "antenna_info_distinct info"
    and p: "(v, w) \<in> set (candidates s info)"
  shows "snap_id v \<noteq> snap_id w"
proof (cases "\<exists>ai. info = Some ai \<and> vehiclesPerAntenna ai \<noteq> []")
  case True
  then obtain ai where ai: "info = Some ai" "vehiclesPerAntenna ai \<noteq> []" by blast
  then have "(v, w) \<in> set (antenna_list s ai)" using p by (simp add: candidates_def)
  moreover have "distinct (map fst (vehiclesPerAntenna ai))" "distinct (concat (map snd (vehiclesPerAntenna ai)))"
    using ok ai by (simp_all add: antenna_info_distinct_def)
  ultimately obtain i j where ij: "valid_index s i" "valid_index s j" "i \<noteq> j"
    and vw: "v = s ! nat i" "w = s ! nat j"
    using antenna_pair_indices by blast
  then have "nat i \<noteq> nat j" "nat i < length s" "nat j < length s"
    by (auto simp: valid_index_def eq_nat_nat_iff)
  then show ?thesis using snap_id_inj [OF ids, of "nat i" "nat j"] vw by auto
next
  case False
  then have "(v, w) \<in> set (ordered_pairs s)" using p by (auto simp: candidates_def split: option.splits)
  then obtain a b where "a < b" "b < length s" "v = s ! a" "w = s ! b" by (auto simp: set_ordered_pairs)
  then show ?thesis using snap_id_inj [OF ids, of a b] by auto
qed

lemma build_no_self_link:
  assumes "distinct (map snap_id s)" and "antenna_info_distinct info"
  shows "i \<notin> getDirectNeighbors (buildGraphFromSnapshots g s info) i"
proof
  assume "i \<in> getDirectNeighbors (buildGraphFromSnapshots g s info) i"
  then have "(i, i) \<in> pair_edges (candidates s info)"
    by (auto simp: getDirectNeighbors_def build_adjacency adj_get_edges_adjacency split: if_splits)
  then obtain v w where vw: "(v, w) \<in> set (candidates s info)" and "snap_id v = i" "snap_id w = i"
    by (auto simp: pair_edges_eq)
  moreover have "snap_id v \<noteq> snap_id w" using assms vw by (rule candidates_no_self)
  ultimately show False by simp
qed

text \<open>
  The built closure is symmetric: j is reachable from i iff i is reachable from j.
\<close>

theorem build_closure_symmetric:
  "j \<in> getReachableVehicles (buildGraphFromSnapshots g s info) i \<longleftrightarrow>
   i \<in> getReachableVehicles (buildGraphFromSnapshots g s info) j"
proof -
  have "sym (adj_rel (adjacencyList (buildGraphFromSnapshots g s info)))"
    by (rule sym_adj_sym_rel [OF build_adjacency_symmetric])
  then have "sym ((adj_rel (adjacencyList (buildGraphFromSnapshots g s info)))\<^sup>+)"
    by (rule sym_trancl)
  then show ?thesis by (auto simp: build_reachable sym_def)
qed

text \<open>
  With distinct identifiers, well-formed cells and the closure enabled, every direct
  neighbour of a vehicle is in its reachable set.
\<close>

theorem build_adjacency_in_closure:
  assumes "distinct (map snap_id s)" and "antenna_info_distinct info" and "computeTransitive g"
  shows "getDirectNeighbors (buildGraphFromSnapshots g s info) i \<subseteq>
         getReachableVehicles (buildGraphFromSnapshots g s info) i"
proof
  fix j assume j: "j \<in> getDirectNeighbors (buildGraphFromSnapshots g s info) i"
  then have "j \<noteq> i" using build_no_self_link [OF assms(1,2)] by auto
  moreover have "(i, j) \<in> adj_rel (adjacencyList (buildGraphFromSnapshots g s info))"
    using j by (simp add: getDirectNeighbors_def)
  ultimately show "j \<in> getReachableVehicles (buildGraphFromSnapshots g s info) i"
    using assms(3) by (auto simp: build_reachable)
qed

text \<open>
  A build over zero snapshots leaves every vehicle without direct neighbours and
  without reachable vehicles.
\<close>

theorem build_empty:
  "getDirectNeighbors (buildGraphFromSnapshots g [] info) i = {} \<and>
   getReachableVehicles (buildGraphFromSnapshots g [] info) i = {}"
  by (simp add: getDirectNeighbors_def getReachableVehicles_def buildGraphFromSnapshots_def)

text \<open>
  The all-pairs fallback on n vehicles performs and records exactly n(n-1)/2 distance
  comparisons.
\<close>

theorem fallback_comparisons:
  "lastComparisons (buildGraphFromSnapshots g (v # vs) None) = int (Suc (length vs) * length vs div 2)"
  using length_ordered_pairs [of "v # vs"] by (simp add: build_comparisons candidates_def)

text \<open>
  For at most 10000 vehicles (the slider maximum), the doubled comparison count used
  for the average-degree statistic stays below 2^31, so the int arithmetic does not
  overflow.
\<close>

theorem comparisons_bound:
  assumes "length (v # vs) \<le> 10000"
  shows "lastComparisons (buildGraphFromSnapshots g (v # vs) None) * 2 < 2 ^ 31"
proof -
  define m where "m = Suc (length vs) * length vs"
  have "m \<le> 10000 * 10000"
    using assms unfolding m_def by (intro mult_le_mono) auto
  moreover have "m div 2 * 2 \<le> m" by simp
  ultimately have "m div 2 * 2 \<le> 100000000" by simp
  then have "int (m div 2 * 2) \<le> 100000000" by linarith
  then have lt: "int (m div 2) * 2 < 2 ^ 31" by simp
  have "lastComparisons (buildGraphFromSnapshots g (v # vs) None) = int (m div 2)"
    using length_ordered_pairs [of "v # vs"]
    by (simp add: build_comparisons candidates_def m_def del: ordered_pairs.simps)
  then show ?thesis using lt by simp
qed

text \<open>
  C4: the built adjacency is symmetric: j is a direct neighbour of i iff i is a direct
  neighbour of j.
\<close>

theorem direct_neighbors_symmetric:
  "j \<in> getDirectNeighbors (buildGraphFromSnapshots g s info) i \<longleftrightarrow>
   i \<in> getDirectNeighbors (buildGraphFromSnapshots g s info) j"
  using build_adjacency_symmetric [of g s info] by (simp add: sym_adj_def getDirectNeighbors_def)

text \<open>
  C3: after a build, canCommunicate i j holds iff the closure is enabled and j is reachable
  from i over one or more adjacency links, j being different from i.
\<close>

theorem canCommunicate_iff:
  "canCommunicate (buildGraphFromSnapshots g s info) i j \<longleftrightarrow>
   computeTransitive g \<and> (i, j) \<in> (adj_rel (adjacencyList (buildGraphFromSnapshots g s info)))\<^sup>+ \<and> j \<noteq> i"
proof -
  have "canCommunicate G i j \<longleftrightarrow> j \<in> getReachableVehicles G i" for G :: "('a, 'b) InterferenceGraph"
    by (simp add: canCommunicate_def getReachableVehicles_def adj_get_def split: option.splits)
  then show ?thesis by (simp add: build_reachable)
qed

text \<open>
  C5: with distinct vehicle identifiers and antenna cells that list each index once, no
  vehicle is its own direct neighbour or reaches itself.
\<close>

theorem build_no_self_loops:
  assumes "distinct (map snap_id s)" and "antenna_info_distinct info"
  shows "i \<notin> getDirectNeighbors (buildGraphFromSnapshots g s info) i \<and>
         i \<notin> getReachableVehicles (buildGraphFromSnapshots g s info) i"
  using build_no_self_link [OF assms] by (simp add: build_reachable)

text \<open>
  C7: the breadth-first search of computeTransitiveClosure terminates from every start on
  every built adjacency.
\<close>

theorem build_bfs_terminates:
  "\<exists>r. bfs_loop (adjacencyList (buildGraphFromSnapshots g s info)) k = Some r"
  by (rule bfs_loop_Some [OF build_finite])

end
