(* ===== verification/Vehicle.thy ===== *)
theory Vehicle
  imports RoadGraph "HOL-Library.Stream"
begin

text \<open>
  The vehicle motion model, \<open>Vehicule\<close> (\<open>src/src/vehicule.cpp\<close>,
  \<open>src/include/vehicule.h\<close>). The object is a record; every method that changes it
  returns the new record. The C library's \<open>rand()\<close> is a stream of naturals threaded
  through the calls that draw from it. The members the constructor leaves uninitialised
  (\<open>previousVertex\<close>, \<open>nextVertex\<close>, \<open>currEdge\<close>) are parameters of the constructor,
  so that every theorem holds for whatever value they have. Pointers to neighbour
  vehicles are their identifiers.

  \<open>update\<close> ends in the carry loop \<open>while (positionOnEdge >= edgeLength)\<close>, which need not
  end; it is \<open>carry\<close>, a \<open>partial_function\<close> in the option monad, so that a run that never
  returns is the value \<open>None\<close>.
\<close>

definition MAX_HISTORY :: nat where
  "MAX_HISTORY = 8"

definition valid_road_types :: "string list" where
  "valid_road_types =
     [''motorway'', ''trunk'', ''primary'', ''secondary'', ''tertiary'',
      ''motorway_link'', ''trunk_link'', ''primary_link'', ''secondary_link'', ''tertiary_link'',
      ''unclassified'', ''road'']"

definition isValidRoad :: "string \<Rightarrow> bool" where
  "isValidRoad type \<longleftrightarrow> type \<in> set valid_road_types"

definition isValidVertex :: "Vertex \<Rightarrow> RoadGraph \<Rightarrow> bool" where
  "isValidVertex v g \<longleftrightarrow> list_ex (\<lambda>e. isValidRoad (e_type e)) (out_edges v g)"

definition hasValidOutgoingEdge :: "Vertex \<Rightarrow> RoadGraph \<Rightarrow> bool" where
  "hasValidOutgoingEdge v g \<longleftrightarrow> list_ex (\<lambda>e. isValidRoad (e_type e)) (out_edges v g)"

record Vehicule =
  veh_id :: int
  start :: Vertex
  goal :: Vertex
  nextVertex :: Vertex
  currEdge :: EdgeData
  previousVertex :: Vertex
  collisionDist :: real
  transmissionRange :: real
  speed :: real
  recentVertices :: "Vertex list"
  stuckCounter :: int
  currVertex :: Vertex
  edgeLength :: real
  positionOnEdge :: real
  destReached :: bool
  slowFactor :: real
  currentHeading :: real
  targetHeading :: real
  headingSmoothingFactor :: real
  previousLat :: real
  previousLon :: real
  neighbors :: "vid list"
  route :: "Vertex list"

definition new_Vehicule ::
  "int \<Rightarrow> Vertex \<Rightarrow> Vertex \<Rightarrow> real \<Rightarrow> real \<Rightarrow> real \<Rightarrow> Vertex \<Rightarrow> Vertex \<Rightarrow> EdgeData \<Rightarrow> Vehicule" where
  "new_Vehicule i s g sp rng cd prev0 next0 edge0 =
     \<lparr>veh_id = i, start = s, goal = g, nextVertex = next0, currEdge = edge0, previousVertex = prev0,
      collisionDist = cd, transmissionRange = rng, speed = sp, recentVertices = [], stuckCounter = 0,
      currVertex = s, edgeLength = 0, positionOnEdge = 0, destReached = False, slowFactor = 0.8,
      currentHeading = 0, targetHeading = 0, headingSmoothingFactor = 0.15, previousLat = 0,
      previousLon = 0, neighbors = [], route = []\<rparr>"

definition DestReached :: "Vehicule \<Rightarrow> Vehicule" where
  "DestReached v = v\<lparr>start := goal v, goal := start v, edgeLength := 0\<rparr>"

subsection \<open>Choosing the next edge\<close>

text \<open>
  The three buckets of \<open>pickNextEdge\<close>: fresh targets, recently visited targets, and the
  edge back to the previous vertex (the last such edge, as the loop overwrites it).
\<close>

definition bucket_step ::
  "Vehicule \<Rightarrow> EdgeData \<Rightarrow> EdgeData list \<times> EdgeData list \<times> EdgeData option \<Rightarrow>
   EdgeData list \<times> EdgeData list \<times> EdgeData option" where
  "bucket_step v e acc =
     (case acc of (validEdges, lessPreferredEdges, backEdge) \<Rightarrow>
        if \<not> isValidRoad (e_type e) then acc
        else if e_target e = previousVertex v then (validEdges, lessPreferredEdges, Some e)
        else if e_target e \<in> set (recentVertices v) then (validEdges, lessPreferredEdges @ [e], backEdge)
        else (validEdges @ [e], lessPreferredEdges, backEdge))"

definition buckets :: "RoadGraph \<Rightarrow> Vehicule \<Rightarrow> EdgeData list \<times> EdgeData list \<times> EdgeData option" where
  "buckets g v = fold (bucket_step v) (out_edges (currVertex v) g) ([], [], None)"

definition push_recent :: "Vertex \<Rightarrow> Vertex list \<Rightarrow> Vertex list" where
  "push_recent x q = (let q' = q @ [x] in if MAX_HISTORY < length q' then tl q' else q')"

definition apply_edge :: "EdgeData \<Rightarrow> Vehicule \<Rightarrow> Vehicule" where
  "apply_edge e v =
     v\<lparr>recentVertices := push_recent (currVertex v) (recentVertices v), currEdge := e,
       previousVertex := currVertex v, nextVertex := e_target e, edgeLength := e_distance e,
       positionOnEdge := 0\<rparr>"

definition candidateGoals :: "RoadGraph \<Rightarrow> Vertex list" where
  "candidateGoals g = filter (\<lambda>c. hasValidOutgoingEdge c g) [0..<num_vertices g]"

definition stuck_reroute :: "RoadGraph \<Rightarrow> Vehicule \<Rightarrow> nat stream \<Rightarrow> Vehicule \<times> nat stream" where
  "stuck_reroute g v rs =
     (let v1 = v\<lparr>stuckCounter := stuckCounter v + 1\<rparr>;
          cands = candidateGoals g;
          (v2, rs2) = (if 3 < stuckCounter v1 \<and> cands \<noteq> []
                       then (v1\<lparr>goal := cands ! (shd rs mod length cands), stuckCounter := 0,
                                 recentVertices := []\<rparr>, stl rs)
                       else (v1, rs));
          v3 = v2\<lparr>start := goal v2, goal := start v2\<rparr>
      in (v3\<lparr>nextVertex := start v3, edgeLength := 0, previousVertex := currVertex v3,
             recentVertices := []\<rparr>, rs2))"

definition pickNextEdge :: "RoadGraph \<Rightarrow> Vehicule \<Rightarrow> nat stream \<Rightarrow> Vehicule \<times> nat stream" where
  "pickNextEdge g v rs =
     (case buckets g v of (validEdges, lessPreferredEdges, backEdge) \<Rightarrow>
        if validEdges \<noteq> [] then
          (apply_edge (validEdges ! (shd rs mod length validEdges)) (v\<lparr>stuckCounter := 0\<rparr>), stl rs)
        else if lessPreferredEdges \<noteq> [] then
          (apply_edge (lessPreferredEdges ! (shd rs mod length lessPreferredEdges))
             (v\<lparr>stuckCounter := stuckCounter v + 1\<rparr>), stl rs)
        else (case backEdge of
                Some e \<Rightarrow> (apply_edge e (v\<lparr>stuckCounter := stuckCounter v + 1\<rparr>), rs)
              | None \<Rightarrow> stuck_reroute g v rs))"

subsection \<open>Position and heading\<close>

definition vertex_pos :: "RoadGraph \<Rightarrow> Vertex \<Rightarrow> real \<times> real" where
  "vertex_pos g x = (vd_lat (vertex_data g x), vd_lon (vertex_data g x))"

definition clamp01 :: "real \<Rightarrow> real" where
  "clamp01 t = (let t1 = (if t < 0 then 0 else t) in if 1 < t1 then 1 else t1)"

definition getPosition :: "RoadGraph \<Rightarrow> Vehicule \<Rightarrow> real \<times> real" where
  "getPosition g v =
     (if edgeLength v \<le> 0 then vertex_pos g (currVertex v)
      else
        (let (slat, slon) = vertex_pos g (e_source (currEdge v));
             (tlat, tlon) = vertex_pos g (e_target (currEdge v));
             tparam = clamp01 (positionOnEdge v / edgeLength v)
         in (slat + tparam * (tlat - slat), slon + tparam * (tlon - slon))))"

definition calculateDist :: "RoadGraph \<Rightarrow> Vehicule \<Rightarrow> Vehicule \<Rightarrow> real" where
  "calculateDist g v from =
     (case getPosition g v of (lat1, lon1) \<Rightarrow>
        case getPosition g from of (lat2, lon2) \<Rightarrow> gb_distance lat1 lon1 lat2 lon2)"

definition avoidCollision :: "RoadGraph \<Rightarrow> (vid \<Rightarrow> Vehicule) \<Rightarrow> Vehicule \<Rightarrow> Vehicule" where
  "avoidCollision g vehicleOf v =
     fold (\<lambda>n v. if calculateDist g v (vehicleOf n) \<le> collisionDist v then v\<lparr>speed := speed v * slowFactor v\<rparr> else v)
          (neighbors v) v"

text \<open>
  The heading update of \<open>update\<close>: the bearing of the movement vector in degrees
  (0 = north, clockwise) brought into \<open>[0, 360)\<close>, the turn brought into
  \<open>[-180, 180]\<close>, a smoothed step and one renormalisation. Movements of at most
  \<open>10^-10\<close> degrees on both axes leave the heading unchanged.
\<close>

definition update_heading :: "real \<times> real \<Rightarrow> real \<times> real \<Rightarrow> Vehicule \<Rightarrow> Vehicule" where
  "update_heading prevPos currPos v =
     (case prevPos of (prevLat, prevLon) \<Rightarrow> case currPos of (currLat, currLon) \<Rightarrow>
       (let dLat = currLat - prevLat; dLon = currLon - prevLon
        in if 1 / 10000000000 < \<bar>dLat\<bar> \<or> 1 / 10000000000 < \<bar>dLon\<bar> then
             (let angleRad = atan2 dLon dLat;
                  t0 = angleRad * 180 / pi;
                  t = (if t0 < 0 then t0 + 360 else t0);
                  d0 = t - currentHeading v;
                  d = (if 180 < d0 then d0 - 360 else if d0 < - 180 then d0 + 360 else d0);
                  h0 = currentHeading v + d * headingSmoothingFactor v;
                  h = (if h0 < 0 then h0 + 360 else if 360 \<le> h0 then h0 - 360 else h0)
              in v\<lparr>targetHeading := t, currentHeading := h\<rparr>)
           else v))"

subsection \<open>The update step and its carry loop\<close>

partial_function (option) carry :: "RoadGraph \<Rightarrow> Vehicule \<Rightarrow> nat stream \<Rightarrow> (Vehicule \<times> nat stream) option" where
  "carry g v rs =
     (if edgeLength v \<le> positionOnEdge v then
        (let overshoot = positionOnEdge v - edgeLength v;
             v1 = v\<lparr>previousVertex := currVertex v, currVertex := nextVertex v\<rparr>
         in if currVertex v1 = goal v1 then Some (DestReached v1, rs)
            else (case pickNextEdge g v1 rs of
                    (v2, rs2) \<Rightarrow> carry g (v2\<lparr>positionOnEdge := overshoot\<rparr>) rs2))
      else Some (v, rs))"

definition update :: "RoadGraph \<Rightarrow> real \<Rightarrow> Vehicule \<Rightarrow> nat stream \<Rightarrow> (Vehicule \<times> nat stream) option" where
  "update g deltaTime v rs =
     (if currVertex v = goal v then Some (DestReached v, rs)
      else
        (case (if edgeLength v \<le> 0 then pickNextEdge g v rs else (v, rs)) of
           (v1, rs1) \<Rightarrow>
             (let prevPos = getPosition g v1;
                  v2 = v1\<lparr>positionOnEdge := positionOnEdge v1 + speed v1 * deltaTime\<rparr>;
                  currPos = getPosition g v2
              in carry g (update_heading prevPos currPos v2) rs1)))"

subsection \<open>Predicates of the specification\<close>

text \<open>
  The buckets of the specification (section 4.1) as predicates on an out-edge; the
  heading and history invariants (section 3); a road graph on which every vertex has a
  valid outgoing edge, all valid edges being at least \<open>\<delta> > 0\<close> long; and a graph
  without any valid edge, the case of the specification's \<open>NoValidGoal\<close> error.
\<close>

definition edge_fresh :: "Vehicule \<Rightarrow> EdgeData \<Rightarrow> bool" where
  "edge_fresh v e \<longleftrightarrow>
     isValidRoad (e_type e) \<and> e_target e \<noteq> previousVertex v \<and> e_target e \<notin> set (recentVertices v)"

definition edge_recent :: "Vehicule \<Rightarrow> EdgeData \<Rightarrow> bool" where
  "edge_recent v e \<longleftrightarrow>
     isValidRoad (e_type e) \<and> e_target e \<noteq> previousVertex v \<and> e_target e \<in> set (recentVertices v)"

definition edge_back :: "Vehicule \<Rightarrow> EdgeData \<Rightarrow> bool" where
  "edge_back v e \<longleftrightarrow> isValidRoad (e_type e) \<and> e_target e = previousVertex v"

definition heading_ok :: "Vehicule \<Rightarrow> bool" where
  "heading_ok v \<longleftrightarrow> 0 \<le> currentHeading v \<and> currentHeading v < 360"

definition history_ok :: "Vehicule \<Rightarrow> bool" where
  "history_ok v \<longleftrightarrow> length (recentVertices v) \<le> MAX_HISTORY"

definition road_ok :: "RoadGraph \<Rightarrow> real \<Rightarrow> bool" where
  "road_ok g \<delta> \<longleftrightarrow>
     0 < \<delta> \<and> rg_wf g \<and> list_all (\<lambda>x. hasValidOutgoingEdge x g) [0..<num_vertices g] \<and>
     list_all (\<lambda>e. isValidRoad (e_type e) \<longrightarrow> \<delta> \<le> e_distance e) (rg_edges g)"

definition no_valid_edges :: "RoadGraph \<Rightarrow> bool" where
  "no_valid_edges g \<longleftrightarrow> list_all (\<lambda>e. \<not> isValidRoad (e_type e)) (rg_edges g)"

text \<open>
  A vehicle is well formed on a graph when it stands on a vertex of the graph and, while it
  is on an edge, heads for a vertex of the graph; a new vehicle (edge length 0, next vertex
  uninitialised) is well formed when its start vertex is a vertex of the graph.
\<close>

definition vehicle_wf :: "RoadGraph \<Rightarrow> Vehicule \<Rightarrow> bool" where
  "vehicle_wf g v \<longleftrightarrow> currVertex v < num_vertices g \<and> (0 < edgeLength v \<longrightarrow> nextVertex v < num_vertices g)"

subsection \<open>The buckets\<close>

lemma fold_bucket_step:
  "fold (bucket_step v) es (a, b, c) =
     (a @ filter (edge_fresh v) es, b @ filter (edge_recent v) es,
      (case filter (edge_back v) es of [] \<Rightarrow> c | xs \<Rightarrow> Some (last xs)))"
  by (induction es arbitrary: a b c)
     (auto simp: bucket_step_def edge_fresh_def edge_recent_def edge_back_def split: list.splits)

lemma buckets_eq:
  "buckets g v =
     (filter (edge_fresh v) (out_edges (currVertex v) g), filter (edge_recent v) (out_edges (currVertex v) g),
      (case filter (edge_back v) (out_edges (currVertex v) g) of [] \<Rightarrow> None | xs \<Rightarrow> Some (last xs)))"
  by (simp add: buckets_def fold_bucket_step)

lemma valid_edge_bucket:
  "isValidRoad (e_type e) \<Longrightarrow> edge_fresh v e \<or> edge_recent v e \<or> edge_back v e"
  by (auto simp: edge_fresh_def edge_recent_def edge_back_def)

lemma last_filter_in: "filter P xs = y # ys \<Longrightarrow> last (y # ys) \<in> set xs \<and> P (last (y # ys))"
proof -
  assume f: "filter P xs = y # ys"
  have "last (y # ys) \<in> set (filter P xs)" by (simp only: f) (rule last_in_set, simp)
  then show ?thesis by simp
qed

subsection \<open>The selection of the next edge\<close>

text \<open>
  C12: \<open>pickNextEdge\<close> implements the specification's selection: a random fresh edge if
  there is one (the stuck counter reset), else a random recently visited one, else the
  edge back to the previous vertex (both counted as stuck), else the stuck recovery.
\<close>

theorem pickNextEdge_spec:
  "pickNextEdge g v rs =
     (let outs = out_edges (currVertex v) g;
          F = filter (edge_fresh v) outs; R = filter (edge_recent v) outs; B = filter (edge_back v) outs
      in if F \<noteq> [] then (apply_edge (F ! (shd rs mod length F)) (v\<lparr>stuckCounter := 0\<rparr>), stl rs)
         else if R \<noteq> [] then (apply_edge (R ! (shd rs mod length R)) (v\<lparr>stuckCounter := stuckCounter v + 1\<rparr>), stl rs)
         else if B \<noteq> [] then (apply_edge (last B) (v\<lparr>stuckCounter := stuckCounter v + 1\<rparr>), rs)
         else stuck_reroute g v rs)"
  by (simp add: pickNextEdge_def buckets_eq Let_def split: list.splits)

lemma filter_nth_mod:
  "filter P xs \<noteq> [] \<Longrightarrow>
   filter P xs ! (i mod length (filter P xs)) \<in> set xs \<and> P (filter P xs ! (i mod length (filter P xs)))"
proof -
  assume "filter P xs \<noteq> []"
  then have "filter P xs ! (i mod length (filter P xs)) \<in> set (filter P xs)" by (intro nth_mem) simp
  then show ?thesis by simp
qed

lemma pick_valid:
  assumes "hasValidOutgoingEdge (currVertex v) g"
  shows "\<exists>e sc. e \<in> set (out_edges (currVertex v) g) \<and> isValidRoad (e_type e) \<and>
                fst (pickNextEdge g v rs) = apply_edge e (v\<lparr>stuckCounter := sc\<rparr>)"
proof -
  let ?outs = "out_edges (currVertex v) g"
  let ?F = "filter (edge_fresh v) ?outs" and ?R = "filter (edge_recent v) ?outs"
    and ?B = "filter (edge_back v) ?outs"
  have eq: "buckets g v = (?F, ?R, case ?B of [] \<Rightarrow> None | xs \<Rightarrow> Some (last xs))" by (rule buckets_eq)
  consider "?F \<noteq> []" | "?F = []" "?R \<noteq> []" | "?F = []" "?R = []" "?B \<noteq> []" | "?F = []" "?R = []" "?B = []"
    by blast
  then show ?thesis
  proof cases
    case 1
    then show ?thesis using filter_nth_mod [OF 1, of "shd rs"]
      by (auto simp: pickNextEdge_def eq edge_fresh_def)
  next
    case 2
    then show ?thesis using filter_nth_mod [OF 2(2), of "shd rs"]
      by (auto simp: pickNextEdge_def eq edge_recent_def)
  next
    case 3
    then obtain y ys where B: "?B = y # ys" by (cases ?B) auto
    then show ?thesis using 3 last_filter_in [OF B]
      by (auto simp: pickNextEdge_def eq edge_back_def)
  next
    case 4
    obtain e where "e \<in> set ?outs" "isValidRoad (e_type e)"
      using assms by (auto simp: hasValidOutgoingEdge_def list_ex_iff)
    then show ?thesis using 4 valid_edge_bucket [of e v] by (auto simp: filter_empty_conv)
  qed
qed

lemma pick_stuck:
  "\<not> hasValidOutgoingEdge (currVertex v) g \<Longrightarrow> pickNextEdge g v rs = stuck_reroute g v rs"
  by (auto simp: hasValidOutgoingEdge_def pickNextEdge_def buckets_eq filter_empty_conv list_ex_iff
        edge_fresh_def edge_recent_def edge_back_def)

lemma pick_keeps [simp]:
  "currentHeading (fst (pickNextEdge g v rs)) = currentHeading v"
  "targetHeading (fst (pickNextEdge g v rs)) = targetHeading v"
  "headingSmoothingFactor (fst (pickNextEdge g v rs)) = headingSmoothingFactor v"
  "speed (fst (pickNextEdge g v rs)) = speed v"
  "currVertex (fst (pickNextEdge g v rs)) = currVertex v"
  "veh_id (fst (pickNextEdge g v rs)) = veh_id v"
  "transmissionRange (fst (pickNextEdge g v rs)) = transmissionRange v"
  by (simp_all add: pickNextEdge_def stuck_reroute_def apply_edge_def Let_def
      split: prod.splits option.splits if_splits)

lemma push_recent_length: "length q \<le> MAX_HISTORY \<Longrightarrow> length (push_recent x q) \<le> MAX_HISTORY"
  by (simp add: push_recent_def Let_def)

lemma pick_history: "history_ok v \<Longrightarrow> history_ok (fst (pickNextEdge g v rs))"
  by (simp add: pickNextEdge_def stuck_reroute_def apply_edge_def Let_def history_ok_def push_recent_length
      split: prod.splits option.splits if_splits)

subsection \<open>What the carry loop keeps\<close>

text \<open>Partial correctness of the carry loop: a property of its three exits.\<close>

lemma carry_rule:
  assumes run: "carry g v rs = Some r"
    and stop: "\<And>v rs. positionOnEdge v < edgeLength v \<Longrightarrow> P v (v, rs)"
    and dest: "\<And>v rs. edgeLength v \<le> positionOnEdge v \<Longrightarrow> nextVertex v = goal v \<Longrightarrow>
                 P v (DestReached (v\<lparr>previousVertex := currVertex v, currVertex := nextVertex v\<rparr>), rs)"
    and step: "\<And>v rs r. edgeLength v \<le> positionOnEdge v \<Longrightarrow> nextVertex v \<noteq> goal v \<Longrightarrow>
                 P ((fst (pickNextEdge g (v\<lparr>previousVertex := currVertex v, currVertex := nextVertex v\<rparr>) rs))
                      \<lparr>positionOnEdge := positionOnEdge v - edgeLength v\<rparr>) r \<Longrightarrow> P v r"
  shows "P v r"
proof -
  have "g = g \<longrightarrow> P v r"
  proof (rule carry.raw_induct [where P = "\<lambda>g' v rs r. g' = g \<longrightarrow> P v r", OF _ run])
  fix c g' v rs r
  assume IH: "\<And>v rs b y. c v rs b = Some y \<Longrightarrow> v = g \<longrightarrow> P rs y"
    and body: "(if edgeLength v \<le> positionOnEdge v
       then let overshoot = positionOnEdge v - edgeLength v;
                v1 = v\<lparr>previousVertex := currVertex v, currVertex := nextVertex v\<rparr>
            in if currVertex v1 = goal v1 then Some (DestReached v1, rs)
               else case pickNextEdge g' v1 rs of (v2, rs2) \<Rightarrow> c g' (v2\<lparr>positionOnEdge := overshoot\<rparr>) rs2
       else Some (v, rs)) = Some r"
  show "g' = g \<longrightarrow> P v r"
  proof
    assume g: "g' = g"
    let ?v1 = "v\<lparr>previousVertex := currVertex v, currVertex := nextVertex v\<rparr>"
    obtain v2 rs2 where p: "pickNextEdge g ?v1 rs = (v2, rs2)" by fastforce
    consider "positionOnEdge v < edgeLength v" | "edgeLength v \<le> positionOnEdge v" "nextVertex v = goal v"
      | "edgeLength v \<le> positionOnEdge v" "nextVertex v \<noteq> goal v" by linarith
    then show "P v r"
    proof cases
      case 1
      with body have "r = (v, rs)" by simp
      then show ?thesis using stop [OF 1] by simp
    next
      case 2
      with body have "r = (DestReached ?v1, rs)" by (simp add: Let_def)
      then show ?thesis using dest [OF 2] by simp
    next
      case 3
      then have "c g (v2\<lparr>positionOnEdge := positionOnEdge v - edgeLength v\<rparr>) rs2 = Some r"
        using body p g by (simp add: Let_def)
      from IH [OF this] have "P (v2\<lparr>positionOnEdge := positionOnEdge v - edgeLength v\<rparr>) r" by simp
      then show ?thesis using step [OF 3, of rs r] p by simp
    qed
  qed
  qed
  then show ?thesis by simp
qed

lemma carry_keeps_heading:
  "carry g v rs = Some r \<Longrightarrow>
   currentHeading (fst r) = currentHeading v \<and> targetHeading (fst r) = targetHeading v \<and>
   headingSmoothingFactor (fst r) = headingSmoothingFactor v"
  by (erule carry_rule) (simp_all add: DestReached_def)

lemma carry_keeps_id:
  "carry g v rs = Some r \<Longrightarrow> veh_id (fst r) = veh_id v \<and> transmissionRange (fst r) = transmissionRange v"
  by (erule carry_rule) (simp_all add: DestReached_def)

lemma carry_history:
  assumes "carry g v rs = Some r"
  shows "history_ok v \<longrightarrow> history_ok (fst r)"
proof (rule carry_rule [OF assms])
  fix v :: Vehicule and rs r
  let ?v1 = "v\<lparr>previousVertex := currVertex v, currVertex := nextVertex v\<rparr>"
  assume "history_ok ((fst (pickNextEdge g ?v1 rs))\<lparr>positionOnEdge := positionOnEdge v - edgeLength v\<rparr>) \<longrightarrow>
          history_ok (fst r)"
  then show "history_ok v \<longrightarrow> history_ok (fst r)"
    using pick_history [of ?v1 g rs] by (simp add: history_ok_def)
qed (simp_all add: DestReached_def history_ok_def)

subsection \<open>The heading stays in range\<close>

lemma bearing_range:
  assumes "- pi < a" "a \<le> pi"
  shows "0 \<le> (if a * 180 / pi < 0 then a * 180 / pi + 360 else a * 180 / pi) \<and>
         (if a * 180 / pi < 0 then a * 180 / pi + 360 else a * 180 / pi) < 360"
proof -
  have p: "0 < pi" by (rule pi_gt_zero)
  have "- 180 < a * 180 / pi" using assms(1) p by (simp add: field_simps)
  moreover have "a * 180 / pi \<le> 180" using assms(2) p by (simp add: field_simps)
  ultimately show ?thesis by auto
qed

lemma smoothed_heading_range:
  assumes c: "0 \<le> (c::real)" "c < 360" and t: "0 \<le> t" "t < 360" and k: "0 \<le> k" "k \<le> 1"
  defines "d \<equiv> (if 180 < t - c then t - c - 360 else if t - c < - 180 then t - c + 360 else t - c)"
  shows "0 \<le> (if c + d * k < 0 then c + d * k + 360 else if 360 \<le> c + d * k then c + d * k - 360 else c + d * k) \<and>
         (if c + d * k < 0 then c + d * k + 360 else if 360 \<le> c + d * k then c + d * k - 360 else c + d * k) < 360"
proof -
  have "\<bar>d\<bar> \<le> 180" using c t unfolding d_def by auto
  moreover have "\<bar>d * k\<bar> = \<bar>d\<bar> * k" using k by (simp add: abs_mult)
  moreover have "\<bar>d\<bar> * k \<le> \<bar>d\<bar> * 1" using k by (intro mult_left_mono) auto
  ultimately have "\<bar>d * k\<bar> \<le> 180" by linarith
  then show ?thesis using c by auto
qed

lemma update_heading_ok:
  assumes "heading_ok v" "0 \<le> headingSmoothingFactor v" "headingSmoothingFactor v \<le> 1"
  shows "heading_ok (update_heading p q v) \<and> headingSmoothingFactor (update_heading p q v) = headingSmoothingFactor v"
proof -
  obtain pl po ql qo where pq: "p = (pl, po)" "q = (ql, qo)" by fastforce
  let ?a = "atan2 (qo - po) (ql - pl)"
  have t: "0 \<le> (if ?a * 180 / pi < 0 then ?a * 180 / pi + 360 else ?a * 180 / pi) \<and>
           (if ?a * 180 / pi < 0 then ?a * 180 / pi + 360 else ?a * 180 / pi) < 360"
    using atan2_bounds [of "qo - po" "ql - pl"] by (intro bearing_range) auto
  show ?thesis
    using assms t smoothed_heading_range [of "currentHeading v" _ "headingSmoothingFactor v"]
    unfolding heading_ok_def update_heading_def pq Let_def
    by (simp del: if_split_mem1 if_split_mem2)
qed

subsection \<open>The update step\<close>

lemma update_run:
  assumes run: "update g dt v rs = Some r" and ng: "currVertex v \<noteq> goal v"
  obtains v1 rs1 where "(if edgeLength v \<le> 0 then pickNextEdge g v rs else (v, rs)) = (v1, rs1)"
    "carry g (update_heading (getPosition g v1)
                (getPosition g (v1\<lparr>positionOnEdge := positionOnEdge v1 + speed v1 * dt\<rparr>))
                (v1\<lparr>positionOnEdge := positionOnEdge v1 + speed v1 * dt\<rparr>)) rs1 = Some r"
proof -
  obtain v1 rs1 where p: "(if edgeLength v \<le> 0 then pickNextEdge g v rs else (v, rs)) = (v1, rs1)"
    by fastforce
  then show ?thesis using run ng that by (simp add: update_def Let_def)
qed

lemma update_first_keeps:
  "(if edgeLength v \<le> 0 then pickNextEdge g v rs else (v, rs)) = (v1, rs1) \<Longrightarrow>
   currentHeading v1 = currentHeading v \<and> headingSmoothingFactor v1 = headingSmoothingFactor v \<and>
   (history_ok v \<longrightarrow> history_ok v1) \<and> veh_id v1 = veh_id v \<and> transmissionRange v1 = transmissionRange v"
proof (cases "edgeLength v \<le> 0")
  case True
  assume "(if edgeLength v \<le> 0 then pickNextEdge g v rs else (v, rs)) = (v1, rs1)"
  with True have "v1 = fst (pickNextEdge g v rs)" by simp
  then show ?thesis using pick_keeps(1,3,6,7) [of g v rs] pick_history [of v g rs] by simp
qed simp

lemma update_keeps_id:
  assumes "update g dt v rs = Some r"
  shows "veh_id (fst r) = veh_id v \<and> transmissionRange (fst r) = transmissionRange v"
proof (cases "currVertex v = goal v")
  case True
  then show ?thesis using assms by (auto simp: update_def DestReached_def)
next
  case False
  obtain v1 rs1 where first: "(if edgeLength v \<le> 0 then pickNextEdge g v rs else (v, rs)) = (v1, rs1)"
    and c: "carry g (update_heading (getPosition g v1)
                (getPosition g (v1\<lparr>positionOnEdge := positionOnEdge v1 + speed v1 * dt\<rparr>))
                (v1\<lparr>positionOnEdge := positionOnEdge v1 + speed v1 * dt\<rparr>)) rs1 = Some r"
    using update_run [OF assms False] by blast
  have "veh_id v1 = veh_id v \<and> transmissionRange v1 = transmissionRange v"
    using update_first_keeps [OF first] by simp
  then show ?thesis using carry_keeps_id [OF c] by (simp add: update_heading_def Let_def split: prod.splits)
qed

text \<open>
  C11: every \<open>update\<close> that returns keeps the vehicle invariants of the specification that the
  code maintains: the heading stays in \<open>[0, 360)\<close> (for a smoothing factor in \<open>[0, 1]\<close>) and
  the history of recently visited vertices holds at most \<open>MAX_HISTORY\<close> = 8 vertices.
\<close>

theorem update_invariants:
  assumes "heading_ok v" "history_ok v" "0 \<le> headingSmoothingFactor v" "headingSmoothingFactor v \<le> 1"
    and run: "update g dt v rs = Some r"
  shows "heading_ok (fst r) \<and> history_ok (fst r)"
proof (cases "currVertex v = goal v")
  case True
  then have "r = (DestReached v, rs)" using run by (simp add: update_def)
  then show ?thesis using assms by (simp add: DestReached_def heading_ok_def history_ok_def)
next
  case False
  obtain v1 rs1 where first: "(if edgeLength v \<le> 0 then pickNextEdge g v rs else (v, rs)) = (v1, rs1)"
    and c: "carry g (update_heading (getPosition g v1)
                (getPosition g (v1\<lparr>positionOnEdge := positionOnEdge v1 + speed v1 * dt\<rparr>))
                (v1\<lparr>positionOnEdge := positionOnEdge v1 + speed v1 * dt\<rparr>)) rs1 = Some r"
    using update_run [OF run False] by blast
  let ?v2 = "v1\<lparr>positionOnEdge := positionOnEdge v1 + speed v1 * dt\<rparr>"
  have k: "currentHeading ?v2 = currentHeading v" "headingSmoothingFactor ?v2 = headingSmoothingFactor v"
    "history_ok ?v2" using update_first_keeps [OF first] assms(2) by (simp_all add: history_ok_def)
  have h: "heading_ok (update_heading (getPosition g v1) (getPosition g ?v2) ?v2)"
    using update_heading_ok [of ?v2] k assms(1,3,4) by (simp add: heading_ok_def)
  have "history_ok (update_heading (getPosition g v1) (getPosition g ?v2) ?v2)"
    using k(3) by (simp add: update_heading_def Let_def history_ok_def split: prod.splits)
  then show ?thesis
    using h carry_keeps_heading [OF c] carry_history [OF c] by (simp add: heading_ok_def)
qed

subsection \<open>Termination of the carry loop\<close>

lemma update_heading_keeps [simp]:
  "edgeLength (update_heading p q v) = edgeLength v" "positionOnEdge (update_heading p q v) = positionOnEdge v"
  "nextVertex (update_heading p q v) = nextVertex v" "currVertex (update_heading p q v) = currVertex v"
  "goal (update_heading p q v) = goal v" "start (update_heading p q v) = start v"
  by (simp_all add: update_heading_def Let_def split: prod.splits)

lemma pick_on_good_road:
  assumes road: "road_ok g \<delta>" and cv: "currVertex v < num_vertices g"
  shows "\<delta> \<le> edgeLength (fst (pickNextEdge g v rs)) \<and> nextVertex (fst (pickNextEdge g v rs)) < num_vertices g \<and>
         positionOnEdge (fst (pickNextEdge g v rs)) = 0"
proof -
  have "hasValidOutgoingEdge (currVertex v) g"
    using road cv by (simp add: road_ok_def list_all_iff)
  then obtain e sc where e: "e \<in> set (out_edges (currVertex v) g)" "isValidRoad (e_type e)"
    and p: "fst (pickNextEdge g v rs) = apply_edge e (v\<lparr>stuckCounter := sc\<rparr>)"
    using pick_valid by blast
  have "e \<in> set (rg_edges g)" using e(1) by (simp add: out_edges_def)
  then have "\<delta> \<le> e_distance e \<and> e_target e < num_vertices g"
    using road e(2) by (auto simp: road_ok_def rg_wf_def list_all_iff)
  then show ?thesis by (simp add: p apply_edge_def)
qed

lemma floor_step:
  assumes "0 < \<delta>" "\<delta> \<le> l" "l \<le> x"
  shows "nat \<lfloor>(x - l) / \<delta>\<rfloor> < nat \<lfloor>x / \<delta>\<rfloor>"
proof -
  have "1 \<le> x / \<delta>" using assms by (simp add: field_simps)
  moreover have "(x - l) / \<delta> \<le> x / \<delta> - 1" using assms by (simp add: field_simps)
  ultimately have "\<lfloor>(x - l) / \<delta>\<rfloor> \<le> \<lfloor>x / \<delta>\<rfloor> - 1" "1 \<le> \<lfloor>x / \<delta>\<rfloor>"
    by (metis floor_diff_of_int floor_mono of_int_1, simp)
  then show ?thesis by linarith
qed

lemma carry_terminates_long:
  assumes "road_ok g \<delta>" "\<delta> \<le> edgeLength v" "nextVertex v < num_vertices g" "currVertex v < num_vertices g"
  shows "\<exists>r. carry g v rs = Some r \<and> vehicle_wf g (fst r)"
  using assms
proof (induction "nat \<lfloor>positionOnEdge v / \<delta>\<rfloor>" arbitrary: v rs rule: less_induct)
  case less
  let ?v1 = "v\<lparr>previousVertex := currVertex v, currVertex := nextVertex v\<rparr>"
  obtain v2 rs2 where p: "pickNextEdge g ?v1 rs = (v2, rs2)" by fastforce
  have d: "0 < \<delta>" using less.prems(1) by (simp add: road_ok_def)
  show ?case
  proof (cases "edgeLength v \<le> positionOnEdge v")
    case True
    have g2: "\<delta> \<le> edgeLength v2 \<and> nextVertex v2 < num_vertices g \<and> currVertex v2 = nextVertex v"
      using pick_on_good_road [OF less.prems(1), of ?v1 rs] pick_keeps(5) [of g ?v1 rs] less.prems(3)
      by (simp add: p)
    have "nat \<lfloor>(positionOnEdge v - edgeLength v) / \<delta>\<rfloor> < nat \<lfloor>positionOnEdge v / \<delta>\<rfloor>"
      using floor_step [OF d less.prems(2) True] .
    then have "\<exists>r. carry g (v2\<lparr>positionOnEdge := positionOnEdge v - edgeLength v\<rparr>) rs2 = Some r \<and> vehicle_wf g (fst r)"
      using less.hyps [of "v2\<lparr>positionOnEdge := positionOnEdge v - edgeLength v\<rparr>"] less.prems(1,3) g2 by simp
    then show ?thesis
      using True less.prems(3) p by (subst carry.simps) (auto simp: Let_def DestReached_def vehicle_wf_def)
  next
    case False
    then show ?thesis using less.prems by (subst carry.simps) (simp add: vehicle_wf_def)
  qed
qed

lemma carry_terminates:
  assumes road: "road_ok g \<delta>" and wf: "vehicle_wf g v" and el: "0 < edgeLength v"
  shows "\<exists>r. carry g v rs = Some r \<and> vehicle_wf g (fst r)"
proof -
  let ?v1 = "v\<lparr>previousVertex := currVertex v, currVertex := nextVertex v\<rparr>"
  obtain v2 rs2 where p: "pickNextEdge g ?v1 rs = (v2, rs2)" by fastforce
  have nv: "nextVertex v < num_vertices g" using wf el by (simp add: vehicle_wf_def)
  have g2: "\<delta> \<le> edgeLength v2 \<and> nextVertex v2 < num_vertices g \<and> currVertex v2 = nextVertex v"
    using pick_on_good_road [OF road, of ?v1 rs] pick_keeps(5) [of g ?v1 rs] nv by (simp add: p)
  have "\<exists>r. carry g (v2\<lparr>positionOnEdge := positionOnEdge v - edgeLength v\<rparr>) rs2 = Some r \<and> vehicle_wf g (fst r)"
    using carry_terminates_long [OF road, of "v2\<lparr>positionOnEdge := positionOnEdge v - edgeLength v\<rparr>"] g2 nv
    by simp
  then show ?thesis
    using wf nv p by (subst carry.simps) (auto simp: Let_def DestReached_def vehicle_wf_def)
qed

text \<open>
  C9: on a road graph where every vertex has a valid outgoing edge and every valid edge is
  at least \<open>\<delta> > 0\<close> long, \<open>update\<close> returns from every well-formed vehicle, whatever the
  random numbers, and leaves it well formed: the carry loop runs at most
  \<open>1 + positionOnEdge / \<delta>\<close> times.
\<close>

theorem update_terminates:
  assumes road: "road_ok g \<delta>" and wf: "vehicle_wf g v"
  shows "\<exists>r. update g dt v rs = Some r \<and> vehicle_wf g (fst r)"
proof (cases "currVertex v = goal v")
  case True
  then show ?thesis using wf by (simp add: update_def DestReached_def vehicle_wf_def)
next
  case False
  obtain v1 rs1 where first: "(if edgeLength v \<le> 0 then pickNextEdge g v rs else (v, rs)) = (v1, rs1)"
    by fastforce
  have d: "0 < \<delta>" using road by (simp add: road_ok_def)
  have v1: "vehicle_wf g v1 \<and> 0 < edgeLength v1"
  proof (cases "edgeLength v \<le> 0")
    case True
    then have "v1 = fst (pickNextEdge g v rs)" using first by simp
    then show ?thesis
      using pick_on_good_road [OF road, of v rs] pick_keeps(5) [of g v rs] wf d
      by (simp add: vehicle_wf_def)
  next
    case False
    then show ?thesis using first wf by simp
  qed
  let ?v2 = "v1\<lparr>positionOnEdge := positionOnEdge v1 + speed v1 * dt\<rparr>"
  let ?v3 = "update_heading (getPosition g v1) (getPosition g ?v2) ?v2"
  have "vehicle_wf g ?v3" "0 < edgeLength ?v3" using v1 by (simp_all add: vehicle_wf_def)
  then have "\<exists>r. carry g ?v3 rs1 = Some r \<and> vehicle_wf g (fst r)" by (rule carry_terminates [OF road])
  then show ?thesis using False first by (simp add: update_def Let_def)
qed

subsection \<open>No valid edge anywhere: the carry loop never returns\<close>

lemma no_valid_pick:
  assumes "no_valid_edges g"
  shows "pickNextEdge g v rs =
           (v\<lparr>stuckCounter := stuckCounter v + 1, start := goal v, goal := start v, nextVertex := goal v,
               edgeLength := 0, previousVertex := currVertex v, recentVertices := []\<rparr>, rs)"
proof -
  have nv: "\<not> hasValidOutgoingEdge x g" for x
    using assms by (auto simp: no_valid_edges_def hasValidOutgoingEdge_def list_ex_iff list_all_iff out_edges_def)
  then have "candidateGoals g = []" by (simp add: candidateGoals_def)
  then show ?thesis using pick_stuck [OF nv] by (simp add: stuck_reroute_def Let_def)
qed

text \<open>
  The states the stuck vehicle cycles through: at a vertex (\<open>edgeLength = 0\<close>) with a
  non-negative position, heading back to its start, which is not its goal.
\<close>

lemma carry_hangs:
  assumes nv: "no_valid_edges g" and st: "edgeLength v = 0" "0 \<le> positionOnEdge v" "nextVertex v = start v"
    "start v \<noteq> goal v"
  shows "carry g v rs = None"
proof (rule ccontr)
  assume "carry g v rs \<noteq> None"
  then obtain r where run: "carry g v rs = Some r" by blast
  let ?S = "\<lambda>v. edgeLength v = 0 \<and> 0 \<le> positionOnEdge v \<and> nextVertex v = start v \<and> start v \<noteq> goal v"
  have "\<not> ?S v"
  proof (rule carry_rule [OF run, where P = "\<lambda>v r. \<not> ?S v"])
    fix v :: Vehicule and rs r
    let ?v1 = "v\<lparr>previousVertex := currVertex v, currVertex := nextVertex v\<rparr>"
    assume "\<not> ?S ((fst (pickNextEdge g ?v1 rs))\<lparr>positionOnEdge := positionOnEdge v - edgeLength v\<rparr>)"
    then show "\<not> ?S v" using no_valid_pick [OF nv, of ?v1 rs] by auto
  qed auto
  with st show False by simp
qed

text \<open>
  C10: \<open>Vehicule::update\<close> does not return when the vehicle is stuck and no vertex of the
  graph has a valid outgoing edge: the stuck recovery finds no new goal, swaps start and
  goal and restarts, and the carry loop \<open>while (positionOnEdge >= edgeLength)\<close> runs
  forever with \<open>edgeLength = 0\<close>. The specification (section 7, \<open>NoValidGoal\<close>) requires
  the vehicle to become inert instead.
\<close>

theorem update_hangs:
  assumes nv: "no_valid_edges g" and ng: "currVertex v \<noteq> goal v" and el: "edgeLength v \<le> 0"
    and sg: "start v \<noteq> goal v" and pos: "0 \<le> positionOnEdge v + speed v * dt"
  shows "update g dt v rs = None"
proof -
  obtain v1 rs1 where p: "pickNextEdge g v rs = (v1, rs1)" by fastforce
  let ?v2 = "v1\<lparr>positionOnEdge := positionOnEdge v1 + speed v1 * dt\<rparr>"
  let ?v3 = "update_heading (getPosition g v1) (getPosition g ?v2) ?v2"
  have "carry g ?v3 rs1 = None"
    using no_valid_pick [OF nv, of v rs] p sg pos by (intro carry_hangs [OF nv]) auto
  then show ?thesis using ng el p by (simp add: update_def Let_def)
qed

end
