(* ===== verification/SpatialGrid.thy ===== *)
theory SpatialGrid
  imports Vehicle
begin

text \<open>
  The two-level spatial index \<open>SpatialGrid\<close> (\<open>src/include/spatial_grid.h\<close>). Its data
  (\<open>MicroAntenna\<close>, \<open>MacroAntenna\<close>, the three maps and the parameters) and its inline
  members are those of the header. The implementation file is not among the sources: the
  operations are modelled from the specification (section 4.2): neighbour sets of
  micro-cells by the conservative bound \<open>radius + radius' + max range\<close>, assignment to the
  micro-cell with the nearest centre (ties to the smaller identifier), removal, the nearby
  query and the look-ups, which answer \<open>-1\<close> for an unassigned vehicle as the driver's
  test \<open>antennaId >= 0\<close> expects. The k-means placement of the cells is not modelled:
  \<open>initialize\<close> takes the cell layout it produces as an argument and then does what the
  specification says follows it (neighbour sets, assignment of every vehicle).
\<close>

record MicroAntenna =
  mi_id :: int
  macroAntennaId :: int
  mi_centerLat :: real
  mi_centerLon :: real
  mi_radius :: real
  mi_vehicleIds :: "int list"
  neighborMicroIds :: "int set"

record MacroAntenna =
  ma_id :: int
  ma_centerLat :: real
  ma_centerLon :: real
  ma_radius :: real
  microAntennaIds :: "int list"
  neighborMacroIds :: "int set"

record SpatialGrid =
  macroAntennas :: "int \<rightharpoonup> MacroAntenna"
  microAntennas :: "int \<rightharpoonup> MicroAntenna"
  vehicleToMicroAntenna :: "int \<rightharpoonup> int"
  numMacroAntennas :: int
  microPerMacro :: int
  maxTransmissionRange :: real

definition new_SpatialGrid :: SpatialGrid where
  "new_SpatialGrid =
     \<lparr>macroAntennas = Map.empty, microAntennas = Map.empty, vehicleToMicroAntenna = Map.empty,
      numMacroAntennas = 10, microPerMacro = 10, maxTransmissionRange = 1000\<rparr>"

definition setMaxTransmissionRange :: "real \<Rightarrow> SpatialGrid \<Rightarrow> SpatialGrid" where
  "setMaxTransmissionRange rng sg = sg\<lparr>maxTransmissionRange := rng\<rparr>"

definition getMaxTransmissionRange :: "SpatialGrid \<Rightarrow> real" where
  "getMaxTransmissionRange sg = maxTransmissionRange sg"

definition getMicroAntennas :: "SpatialGrid \<Rightarrow> int \<rightharpoonup> MicroAntenna" where
  "getMicroAntennas sg = microAntennas sg"

definition getMacroAntennas :: "SpatialGrid \<Rightarrow> int \<rightharpoonup> MacroAntenna" where
  "getMacroAntennas sg = macroAntennas sg"

definition grid_distance :: "real \<Rightarrow> real \<Rightarrow> real \<Rightarrow> real \<Rightarrow> real" where
  "grid_distance lat1 lon1 lat2 lon2 = gb_distance lat1 lon1 lat2 lon2"

definition micro_distance :: "MicroAntenna \<Rightarrow> MicroAntenna \<Rightarrow> real" where
  "micro_distance m m' = grid_distance (mi_centerLat m) (mi_centerLon m) (mi_centerLat m') (mi_centerLon m')"

definition micro_neighbors :: "SpatialGrid \<Rightarrow> int \<Rightarrow> MicroAntenna \<Rightarrow> int set" where
  "micro_neighbors sg k m =
     {k' \<in> dom (microAntennas sg). k' \<noteq> k \<and>
        (case microAntennas sg k' of None \<Rightarrow> False
         | Some m' \<Rightarrow> micro_distance m m' \<le> mi_radius m + mi_radius m' + maxTransmissionRange sg)}"

definition updateNeighborhoods :: "SpatialGrid \<Rightarrow> SpatialGrid" where
  "updateNeighborhoods sg =
     sg\<lparr>microAntennas := (\<lambda>k. map_option (\<lambda>m. m\<lparr>neighborMicroIds := micro_neighbors sg k m\<rparr>) (microAntennas sg k))\<rparr>"

text \<open>The nearest micro-cell centre, scanning the cells in ascending identifier order.\<close>

definition nearest_step :: "SpatialGrid \<Rightarrow> real \<Rightarrow> real \<Rightarrow> int \<Rightarrow> (int \<times> real) option \<Rightarrow> (int \<times> real) option" where
  "nearest_step sg lat lon k best =
     (case microAntennas sg k of None \<Rightarrow> best
      | Some m \<Rightarrow>
          (let d = grid_distance lat lon (mi_centerLat m) (mi_centerLon m)
           in case best of None \<Rightarrow> Some (k, d) | Some (_, bd) \<Rightarrow> if d < bd then Some (k, d) else best))"

definition findNearestMicroAntenna :: "SpatialGrid \<Rightarrow> real \<Rightarrow> real \<Rightarrow> int" where
  "findNearestMicroAntenna sg lat lon =
     (case fold (nearest_step sg lat lon) (sorted_list_of_set (dom (microAntennas sg))) None of
        None \<Rightarrow> -1 | Some (k, _) \<Rightarrow> k)"

definition remove_from_cell :: "int \<Rightarrow> int \<Rightarrow> SpatialGrid \<Rightarrow> SpatialGrid" where
  "remove_from_cell vid c sg =
     sg\<lparr>microAntennas := (microAntennas sg)(c := map_option (\<lambda>m. m\<lparr>mi_vehicleIds := removeAll vid (mi_vehicleIds m)\<rparr>)
                                                         (microAntennas sg c))\<rparr>"

definition removeVehicleFromAntenna :: "int \<Rightarrow> SpatialGrid \<Rightarrow> SpatialGrid" where
  "removeVehicleFromAntenna vid sg =
     (case vehicleToMicroAntenna sg vid of None \<Rightarrow> sg
      | Some c \<Rightarrow> (remove_from_cell vid c sg)\<lparr>vehicleToMicroAntenna := (vehicleToMicroAntenna sg)(vid := None)\<rparr>)"

definition assignVehicleToAntenna :: "RoadGraph \<Rightarrow> Vehicule \<Rightarrow> SpatialGrid \<Rightarrow> SpatialGrid" where
  "assignVehicleToAntenna g v sg =
     (case getPosition g v of (lat, lon) \<Rightarrow>
        (let c = findNearestMicroAntenna sg lat lon; sg1 = removeVehicleFromAntenna (veh_id v) sg
         in if c < 0 then sg1
            else sg1\<lparr>microAntennas := (microAntennas sg1)(c := map_option (\<lambda>m. m\<lparr>mi_vehicleIds := mi_vehicleIds m @ [veh_id v]\<rparr>)
                                                                   (microAntennas sg1 c)),
                     vehicleToMicroAntenna := (vehicleToMicroAntenna sg1)(veh_id v \<mapsto> c)\<rparr>))"

definition assignVehiclesToAntennas :: "RoadGraph \<Rightarrow> Vehicule list \<Rightarrow> SpatialGrid \<Rightarrow> SpatialGrid" where
  "assignVehiclesToAntennas g vs sg = fold (assignVehicleToAntenna g) vs sg"

definition getMicroAntennaId :: "SpatialGrid \<Rightarrow> int \<Rightarrow> int" where
  "getMicroAntennaId sg vid = (case vehicleToMicroAntenna sg vid of None \<Rightarrow> -1 | Some c \<Rightarrow> c)"

definition getMacroAntennaId :: "SpatialGrid \<Rightarrow> int \<Rightarrow> int" where
  "getMacroAntennaId sg vid =
     (case vehicleToMicroAntenna sg vid of None \<Rightarrow> -1
      | Some c \<Rightarrow> (case microAntennas sg c of None \<Rightarrow> -1 | Some m \<Rightarrow> macroAntennaId m))"

definition cell_vehicles :: "SpatialGrid \<Rightarrow> int \<Rightarrow> int list" where
  "cell_vehicles sg c = (case microAntennas sg c of None \<Rightarrow> [] | Some m \<Rightarrow> mi_vehicleIds m)"

definition getNearbyVehicles :: "SpatialGrid \<Rightarrow> int \<Rightarrow> int list" where
  "getNearbyVehicles sg vid =
     (case vehicleToMicroAntenna sg vid of None \<Rightarrow> []
      | Some c \<Rightarrow>
          cell_vehicles sg c @
          (case microAntennas sg c of None \<Rightarrow> []
           | Some m \<Rightarrow> concat (map (cell_vehicles sg) (sorted_list_of_set (neighborMicroIds m)))))"

definition clear_grid :: "SpatialGrid \<Rightarrow> SpatialGrid" where
  "clear_grid sg = sg\<lparr>macroAntennas := Map.empty, microAntennas := Map.empty, vehicleToMicroAntenna := Map.empty\<rparr>"

type_synonym cell_layout = "(int \<rightharpoonup> MacroAntenna) \<times> (int \<rightharpoonup> MicroAntenna)"

definition initialize ::
  "RoadGraph \<Rightarrow> Vehicule list \<Rightarrow> cell_layout \<Rightarrow> int \<Rightarrow> int \<Rightarrow> SpatialGrid \<Rightarrow> SpatialGrid" where
  "initialize g vehicles layout numMacro numMicro sg =
     assignVehiclesToAntennas g vehicles
       (updateNeighborhoods
          ((clear_grid sg)\<lparr>macroAntennas := fst layout, microAntennas := snd layout,
                           numMacroAntennas := numMacro, microPerMacro := numMicro\<rparr>))"

subsection \<open>Neighbour sets\<close>

lemma micro_distance_sym: "micro_distance m m' = micro_distance m' m"
  by (simp add: micro_distance_def grid_distance_def gb_distance_sym)

lemma updateNeighborhoods_cells [simp]:
  "dom (microAntennas (updateNeighborhoods sg)) = dom (microAntennas sg)"
  "vehicleToMicroAntenna (updateNeighborhoods sg) = vehicleToMicroAntenna sg"
  "maxTransmissionRange (updateNeighborhoods sg) = maxTransmissionRange sg"
  by (auto simp: updateNeighborhoods_def)

lemma neighbor_iff:
  "microAntennas sg k = Some m \<Longrightarrow>
   k' \<in> micro_neighbors sg k m \<longleftrightarrow>
   (\<exists>m'. microAntennas sg k' = Some m' \<and> k' \<noteq> k \<and>
         micro_distance m m' \<le> mi_radius m + mi_radius m' + maxTransmissionRange sg)"
  by (auto simp: micro_neighbors_def split: option.splits)

text \<open>
  The neighbour map the driver copies out of the grid, after \<open>updateNeighborhoods\<close>, is
  symmetric and irreflexive, and finite when the grid has finitely many cells: the
  conditions on \<open>neighborAntennas\<close> of the builder's equivalence theorem.
\<close>

lemma updateNeighborhoods_sym:
  "sym_adj (\<lambda>k. map_option neighborMicroIds (microAntennas (updateNeighborhoods sg) k))"
  unfolding sym_adj_def adj_get_def updateNeighborhoods_def
  by (auto simp: neighbor_iff micro_distance_sym add.commute split: option.splits)

lemma updateNeighborhoods_irrefl:
  "k \<notin> adj_get (\<lambda>k. map_option neighborMicroIds (microAntennas (updateNeighborhoods sg) k)) k"
  by (auto simp: adj_get_def updateNeighborhoods_def neighbor_iff split: option.splits)

lemma updateNeighborhoods_finite:
  assumes "finite (dom (microAntennas sg))"
  shows "finite_adj (\<lambda>k. map_option neighborMicroIds (microAntennas (updateNeighborhoods sg) k))"
proof -
  have "finite (micro_neighbors sg k m)" for k m
    using assms by (rule finite_subset [rotated]) (auto simp: micro_neighbors_def)
  moreover have "dom (\<lambda>k. map_option neighborMicroIds (microAntennas (updateNeighborhoods sg) k)) =
                 dom (microAntennas sg)"
    by (auto simp: updateNeighborhoods_def)
  ultimately show ?thesis
    using assms by (auto simp: finite_adj_def ran_def updateNeighborhoods_def)
qed

subsection \<open>Assignment and removal\<close>

lemma removeVehicleFromAntenna_id: "getMicroAntennaId (removeVehicleFromAntenna vid sg) vid = -1"
  by (simp add: removeVehicleFromAntenna_def getMicroAntennaId_def remove_from_cell_def split: option.splits)

lemma removeVehicleFromAntenna_other:
  "vid' \<noteq> vid \<Longrightarrow> getMicroAntennaId (removeVehicleFromAntenna vid sg) vid' = getMicroAntennaId sg vid'"
  by (simp add: removeVehicleFromAntenna_def getMicroAntennaId_def remove_from_cell_def split: option.splits)

lemma assignVehicleToAntenna_id:
  "getMicroAntennaId (assignVehicleToAntenna g v sg) (veh_id v) =
     (case getPosition g v of (lat, lon) \<Rightarrow>
        if findNearestMicroAntenna sg lat lon < 0 then -1 else findNearestMicroAntenna sg lat lon)"
  by (simp add: assignVehicleToAntenna_def getMicroAntennaId_def removeVehicleFromAntenna_def
      remove_from_cell_def Let_def split: prod.splits option.splits)

lemma assignVehicleToAntenna_other:
  "vid' \<noteq> veh_id v \<Longrightarrow> getMicroAntennaId (assignVehicleToAntenna g v sg) vid' = getMicroAntennaId sg vid'"
  by (simp add: assignVehicleToAntenna_def getMicroAntennaId_def removeVehicleFromAntenna_def
      remove_from_cell_def Let_def split: prod.splits option.splits)

end
