(* ===== verification/GridGraph.thy ===== *)
theory GridGraph
  imports Interference SpatialGrid
begin

text \<open>
  The members of \<open>InterferenceGraph\<close> (\<open>src/src/interference_graph.cpp\<close>) that work on
  its spatial grid or on \<open>Vehicule\<close> objects, with the grid type instantiated to
  \<open>SpatialGrid\<close> and the vehicle map to vehicle records: \<open>clear\<close>, the grid
  (re)initialisation with its parameter defaults, the range update, the per-vehicle
  assignment hooks, the inline accessors of the header, and the legacy builder
  \<open>buildGraph\<close> over vehicle objects with its two enumerations. The k-means cell layout
  is an argument of the initialisation (see \<open>SpatialGrid\<close>). Console output and timing are
  not modelled.
\<close>

type_synonym graph_state = "(SpatialGrid, Vehicule) InterferenceGraph"

definition new_graph_state :: graph_state where
  "new_graph_state = new_InterferenceGraph new_SpatialGrid"

definition clear :: "graph_state \<Rightarrow> graph_state" where
  "clear g =
     g\<lparr>adjacencyList := Map.empty, transitiveClosure := Map.empty, vehicleMap := Map.empty,
       spatialGrid := clear_grid (spatialGrid g)\<rparr>"

definition getVehicleCount :: "('g, 'v) InterferenceGraph \<Rightarrow> nat" where
  "getVehicleCount g = card (dom (adjacencyList g))"

definition enableSpatialOptimization :: "bool \<Rightarrow> ('g, 'v) InterferenceGraph \<Rightarrow> ('g, 'v) InterferenceGraph" where
  "enableSpatialOptimization enable g = g\<lparr>useSpatialGrid := enable\<rparr>"

definition isSpatialOptimizationEnabled :: "('g, 'v) InterferenceGraph \<Rightarrow> bool" where
  "isSpatialOptimizationEnabled g = useSpatialGrid g"

definition enableTransitiveClosure :: "bool \<Rightarrow> ('g, 'v) InterferenceGraph \<Rightarrow> ('g, 'v) InterferenceGraph" where
  "enableTransitiveClosure enable g = g\<lparr>computeTransitive := enable\<rparr>"

definition isTransitiveClosureEnabled :: "('g, 'v) InterferenceGraph \<Rightarrow> bool" where
  "isTransitiveClosureEnabled g = computeTransitive g"

definition getSpatialGrid :: "('g, 'v) InterferenceGraph \<Rightarrow> 'g" where
  "getSpatialGrid g = spatialGrid g"

text \<open>
  The cell counts \<open>initializeSpatialGrid\<close> substitutes for a parameter 0: 10, 20 or 30
  macro cells and 10, 15 or 20 micro cells for more than 500 and 2000 vehicles.
\<close>

definition default_count :: "nat \<Rightarrow> int \<Rightarrow> int \<Rightarrow> int \<Rightarrow> int \<Rightarrow> int" where
  "default_count n k small mid large =
     (if k = 0 then (if 2000 < n then large else if 500 < n then mid else small) else k)"

definition first_range :: "Vehicule list \<Rightarrow> real" where
  "first_range vehicles = (case vehicles of [] \<Rightarrow> 500 | v # _ \<Rightarrow> transmissionRange v)"

definition initializeSpatialGrid ::
  "RoadGraph \<Rightarrow> Vehicule list \<Rightarrow> cell_layout \<Rightarrow> int \<Rightarrow> int \<Rightarrow> graph_state \<Rightarrow> graph_state" where
  "initializeSpatialGrid rg vehicles layout numMacro numMicro g =
     (if \<not> useSpatialGrid g \<or> length vehicles < 20 then g
      else if gridInitialized g then g
      else
        (let numMacro' = default_count (length vehicles) numMacro 10 20 30;
             numMicro' = default_count (length vehicles) numMicro 10 15 20;
             sg = setMaxTransmissionRange (first_range vehicles) (spatialGrid g)
         in g\<lparr>spatialGrid := initialize rg vehicles layout numMacro' numMicro' sg, gridInitialized := True\<rparr>))"

definition reinitializeSpatialGrid ::
  "RoadGraph \<Rightarrow> Vehicule list \<Rightarrow> cell_layout \<Rightarrow> int \<Rightarrow> int \<Rightarrow> graph_state \<Rightarrow> graph_state" where
  "reinitializeSpatialGrid rg vehicles layout numMacro numMicro g =
     (if \<not> useSpatialGrid g \<or> length vehicles < 20 then g
      else
        (let sg = setMaxTransmissionRange (first_range vehicles) (spatialGrid g)
         in g\<lparr>spatialGrid := initialize rg vehicles layout numMacro numMicro sg, gridInitialized := True\<rparr>))"

definition updateTransmissionRange :: "real \<Rightarrow> graph_state \<Rightarrow> graph_state" where
  "updateTransmissionRange rng g =
     (if \<not> gridInitialized g then g
      else g\<lparr>spatialGrid := updateNeighborhoods (setMaxTransmissionRange rng (spatialGrid g))\<rparr>)"

definition assignVehicleToAntenna_ig :: "RoadGraph \<Rightarrow> Vehicule \<Rightarrow> graph_state \<Rightarrow> graph_state" where
  "assignVehicleToAntenna_ig rg v g =
     (if \<not> gridInitialized g then g else g\<lparr>spatialGrid := assignVehicleToAntenna rg v (spatialGrid g)\<rparr>)"

definition removeVehicleFromAntenna_ig :: "vid \<Rightarrow> graph_state \<Rightarrow> graph_state" where
  "removeVehicleFromAntenna_ig vid g =
     (if \<not> gridInitialized g then g else g\<lparr>spatialGrid := removeVehicleFromAntenna vid (spatialGrid g)\<rparr>)"

subsection \<open>The legacy builder over vehicle objects\<close>

text \<open>
  One comparison of \<open>buildGraphClassic\<close> and \<open>buildGraphWithSpatialGrid\<close>: the
  \<open>GraphBuilder::distance\<close> between the two vehicles' positions against both ranges.
\<close>

definition legacy_compare :: "RoadGraph \<Rightarrow> Vehicule \<Rightarrow> Vehicule \<Rightarrow> adjacency \<Rightarrow> adjacency" where
  "legacy_compare rg v1 v2 a =
     (let distance = calculateDist rg v1 v2
      in if distance \<le> transmissionRange v1 \<and> distance \<le> transmissionRange v2
         then add_link a (veh_id v1) (veh_id v2) else a)"

definition buildGraphClassic :: "RoadGraph \<Rightarrow> Vehicule list \<Rightarrow> graph_state \<Rightarrow> graph_state" where
  "buildGraphClassic rg vehicles g =
     (let a = fold (\<lambda>(v1, v2). legacy_compare rg v1 v2) (ordered_pairs vehicles) (adjacencyList g)
      in g\<lparr>adjacencyList := a, lastComparisons := int (length (ordered_pairs vehicles)),
           lastAvgNeighbors := (if vehicles = [] then 0 else real (length vehicles - 1))\<rparr>)"

definition grid_pairs_step :: "RoadGraph \<Rightarrow> graph_state \<Rightarrow> Vehicule \<Rightarrow> int \<Rightarrow> adjacency \<times> nat \<Rightarrow> adjacency \<times> nat" where
  "grid_pairs_step rg g v1 nearbyId st =
     (case st of (a, comparisons) \<Rightarrow>
        if nearbyId \<le> veh_id v1 then st
        else (case vehicleMap g nearbyId of
                None \<Rightarrow> (a, Suc comparisons)
              | Some v2 \<Rightarrow> (legacy_compare rg v1 v2 a, Suc comparisons)))"

definition grid_vehicle_step :: "RoadGraph \<Rightarrow> graph_state \<Rightarrow> Vehicule \<Rightarrow> adjacency \<times> nat \<times> nat \<Rightarrow> adjacency \<times> nat \<times> nat" where
  "grid_vehicle_step rg g v1 st =
     (case st of (a, comparisons, nearby) \<Rightarrow>
        (let nearbyIds = getNearbyVehicles (spatialGrid g) (veh_id v1)
         in case fold (grid_pairs_step rg g v1) nearbyIds (a, comparisons) of
              (a', comparisons') \<Rightarrow> (a', comparisons', nearby + length nearbyIds)))"

definition buildGraphWithSpatialGrid :: "RoadGraph \<Rightarrow> Vehicule list \<Rightarrow> graph_state \<Rightarrow> graph_state" where
  "buildGraphWithSpatialGrid rg vehicles g =
     (case fold (grid_vehicle_step rg g) vehicles (adjacencyList g, 0, 0) of
        (a, totalComparisons, totalNearby) \<Rightarrow>
          g\<lparr>adjacencyList := a, lastComparisons := int totalComparisons,
            lastAvgNeighbors := (if vehicles = [] then 0 else real totalNearby / real (length vehicles))\<rparr>)"

text \<open>
  After the closure, each vehicle's neighbour list is refilled with the other vehicles
  (by position in the list, the source compares pointers) in its reachable set; the read
  through \<open>operator[]\<close> inserts an empty set for a vehicle without closure entry.
\<close>

definition refresh_neighbors :: "Vehicule list \<Rightarrow> adjacency \<Rightarrow> Vehicule list" where
  "refresh_neighbors vehicles closure =
     map (\<lambda>i. (vehicles ! i)\<lparr>neighbors :=
                 map veh_id (map (\<lambda>j. vehicles ! j)
                   (filter (\<lambda>j. j \<noteq> i \<and> veh_id (vehicles ! j) \<in> adj_get closure (veh_id (vehicles ! i)))
                           [0..<length vehicles]))\<rparr>)
         [0..<length vehicles]"

definition touch_closure :: "Vehicule list \<Rightarrow> adjacency \<Rightarrow> adjacency" where
  "touch_closure vehicles closure = fold (\<lambda>v c. c(veh_id v \<mapsto> adj_get c (veh_id v))) vehicles closure"

definition buildGraph_ig :: "RoadGraph \<Rightarrow> Vehicule list \<Rightarrow> graph_state \<Rightarrow> graph_state \<times> Vehicule list" where
  "buildGraph_ig rg vehicles g =
     (let g0 = g\<lparr>adjacencyList := Map.empty, transitiveClosure := Map.empty, vehicleMap := Map.empty\<rparr>
      in if vehicles = [] then (g0, vehicles)
         else
           (let g1 = g0\<lparr>vehicleMap := fold (\<lambda>v m. m(veh_id v \<mapsto> v)) vehicles Map.empty,
                        adjacencyList := fold (\<lambda>v a. a(veh_id v \<mapsto> {})) vehicles Map.empty\<rparr>;
                big = useSpatialGrid g1 \<and> 20 \<le> length vehicles;
                g2 = (if big \<and> gridInitialized g1
                      then g1\<lparr>spatialGrid := assignVehiclesToAntennas rg vehicles (spatialGrid g1)\<rparr> else g1);
                g3 = (if big then buildGraphWithSpatialGrid rg vehicles g2 else buildGraphClassic rg vehicles g2)
            in if computeTransitive g3 then
                 (let g4 = computeTransitiveClosure g3;
                      c = touch_closure vehicles (transitiveClosure g4)
                  in (g4\<lparr>transitiveClosure := c\<rparr>, refresh_neighbors vehicles c))
               else (g3, vehicles)))"

subsection \<open>Properties of the legacy builder\<close>

lemma sym_adj_add_link: "sym_adj a \<Longrightarrow> sym_adj (add_link a x y)"
  by (auto simp: sym_adj_def add_link_def adj_insert_def)

lemma sym_adj_legacy_compare: "sym_adj a \<Longrightarrow> sym_adj (legacy_compare rg v1 v2 a)"
  by (simp add: legacy_compare_def Let_def sym_adj_add_link)

lemma adj_get_empty_sets:
  "(\<forall>k. adj_get a k = {}) \<Longrightarrow> adj_get (fold (\<lambda>v a. a(veh_id v \<mapsto> {})) vs a) k = {}"
  by (induction vs arbitrary: a) auto

lemma empty_sets_sym: "(\<forall>k. adj_get a k = {}) \<Longrightarrow> sym_adj a"
  by (simp add: sym_adj_def)

lemma classic_sym:
  assumes "sym_adj (adjacencyList g)"
  shows "sym_adj (adjacencyList (buildGraphClassic rg vs g))"
proof -
  have "sym_adj (fold (\<lambda>(v1, v2). legacy_compare rg v1 v2) (ordered_pairs vs) (adjacencyList g))"
    by (rule fold_invariant [where P = sym_adj]) (auto intro: sym_adj_legacy_compare assms split: prod.splits)
  then show ?thesis by (simp add: buildGraphClassic_def Let_def)
qed

lemma grid_pairs_sym: "sym_adj (fst st) \<Longrightarrow> sym_adj (fst (fold (grid_pairs_step rg g v1) ids st))"
  by (rule fold_invariant)
     (auto simp: grid_pairs_step_def intro: sym_adj_legacy_compare split: prod.splits option.splits)

lemma grid_vehicle_sym: "sym_adj (fst st) \<Longrightarrow> sym_adj (fst (grid_vehicle_step rg g v st))"
proof -
  assume s: "sym_adj (fst st)"
  obtain a c n where st: "st = (a, c, n)" by (cases st) auto
  show ?thesis
    using grid_pairs_sym [of "(a, c)" rg g v "getNearbyVehicles (spatialGrid g) (veh_id v)"] s
    by (simp add: grid_vehicle_step_def st Let_def split_beta)
qed

lemma grid_sym:
  assumes "sym_adj (adjacencyList g)"
  shows "sym_adj (adjacencyList (buildGraphWithSpatialGrid rg vs g))"
proof -
  have "sym_adj (fst (fold (grid_vehicle_step rg g) vs (adjacencyList g, 0, 0)))"
    by (rule fold_invariant [where P = "\<lambda>st. sym_adj (fst st)"]) (use assms grid_vehicle_sym in auto)
  then show ?thesis by (simp add: buildGraphWithSpatialGrid_def split_beta)
qed

lemma legacy_closure_keeps [simp]:
  "adjacencyList (computeTransitiveClosure g) = adjacencyList g"
  by (simp add: computeTransitiveClosure_def)

text \<open>
  C18: the adjacency built by the legacy \<open>InterferenceGraph::buildGraph\<close> over vehicle
  objects is symmetric, on the all-pairs path and on the spatial-grid path.
\<close>

theorem buildGraph_ig_symmetric: "sym_adj (adjacencyList (fst (buildGraph_ig rg vehicles g)))"
proof -
  let ?a0 = "fold (\<lambda>v a. a(veh_id v \<mapsto> {})) vehicles Map.empty"
  have e: "sym_adj ?a0" by (rule empty_sets_sym) (simp add: adj_get_empty_sets)
  show ?thesis
    unfolding buildGraph_ig_def Let_def
    using e classic_sym grid_sym by (auto simp: sym_adj_def)
qed

lemma nearby_unassigned: "vehicleToMicroAntenna sg = Map.empty \<Longrightarrow> getNearbyVehicles sg vid = []"
  by (simp add: getNearbyVehicles_def)

text \<open>
  On the spatial-grid path of the legacy \<open>buildGraph\<close> (at least 20 vehicles, spatial
  optimisation on) the all-pairs fallback is not taken even when the grid has not been
  initialised. What the grid's \<open>getNearbyVehicles\<close> answers then is not in the sources;
  under the spec-modelled query (the empty list for a vehicle with no micro-antenna) no
  vehicle is linked to any other.
\<close>

theorem buildGraph_ig_uninitialised_grid:
  assumes "useSpatialGrid g" "\<not> gridInitialized g" "vehicleToMicroAntenna (spatialGrid g) = Map.empty"
    and "20 \<le> length vehicles"
  shows "getDirectNeighbors (fst (buildGraph_ig rg vehicles g)) i = {}"
proof -
  let ?a0 = "fold (\<lambda>v a. a(veh_id v \<mapsto> {})) vehicles Map.empty"
  have step: "grid_vehicle_step rg g' v st = (case st of (a, c, n) \<Rightarrow> (a, c, n))"
    if "vehicleToMicroAntenna (spatialGrid g') = Map.empty" for g' v st
    using that by (simp add: grid_vehicle_step_def nearby_unassigned split: prod.splits)
  have "fold (grid_vehicle_step rg g') vs st = st"
    if "vehicleToMicroAntenna (spatialGrid g') = Map.empty" for g' vs st
    using that step by (induction vs arbitrary: st) (auto split: prod.splits)
  then have "adjacencyList (buildGraphWithSpatialGrid rg vehicles g'') = adjacencyList g''"
    if "vehicleToMicroAntenna (spatialGrid g'') = Map.empty" for g''
    using that by (simp add: buildGraphWithSpatialGrid_def)
  moreover have "adj_get ?a0 k = {}" for k by (simp add: adj_get_empty_sets)
  moreover have "vehicles \<noteq> []" using assms(4) by auto
  ultimately show ?thesis
    using assms by (simp add: buildGraph_ig_def Let_def getDirectNeighbors_def)
qed

subsection \<open>The statistics printed by \<open>printStats\<close>\<close>

text \<open>
  \<open>printStats\<close> prints the number of vehicles, the direct and the transitive connections (the
  sizes of the neighbour sets summed and halved) and, for the first five entries of the
  closure in the iteration order of the \<open>unordered_map\<close> (an argument), the sizes of their
  two sets. The report is the values printed.
\<close>

record GraphReport =
  gr_vehicles :: int
  gr_direct :: int
  gr_total :: int
  gr_examples :: "(vid \<times> int \<times> int) list"

definition printStats :: "vid list \<Rightarrow> ('g, 'v) InterferenceGraph \<Rightarrow> GraphReport" where
  "printStats order g =
     \<lparr>gr_vehicles = int (card (dom (adjacencyList g))),
      gr_direct = int (\<Sum>i\<in>dom (adjacencyList g). card (adj_get (adjacencyList g) i)) div 2,
      gr_total = int (\<Sum>i\<in>dom (transitiveClosure g). card (adj_get (transitiveClosure g) i)) div 2,
      gr_examples = map (\<lambda>i. (i, int (card (getDirectNeighbors g i)), int (card (adj_get (transitiveClosure g) i)))) (take 5 order)\<rparr>"

lemma adj_sum_links:
  assumes "finite_adj a" "sym_adj a" "\<forall>x. x \<notin> adj_get a x" "\<forall>x\<in>dom a. adj_get a x \<subseteq> dom a"
  shows "(\<Sum>i\<in>dom a. card (adj_get a i)) = 2 * card {(x, y). x \<in> dom a \<and> y \<in> adj_get a x \<and> x < y}"
proof -
  let ?xs = "sorted_list_of_set (dom a)"
  have f: "finite (dom a)" using assms(1) by (simp add: finite_adj_def)
  have d: "distinct ?xs" and s: "set ?xs = dom a" using f by simp_all
  have "(\<Sum>i\<in>dom a. card (adj_get a i)) = sum_list (map (\<lambda>x. card (adj_get a x)) ?xs)"
    using sum_list_distinct_conv_sum_set [OF d, of "\<lambda>x. card (adj_get a x)"] s by simp
  also have "\<dots> = 2 * card {(x, y). x \<in> set ?xs \<and> y \<in> adj_get a x \<and> x < y}"
    using assms(2,3,4) s by (intro handshake [OF d]) simp_all
  finally show ?thesis using s by simp
qed

theorem printStats_direct:
  assumes "finite_adj (adjacencyList g)" "sym_adj (adjacencyList g)" "\<forall>x. x \<notin> getDirectNeighbors g x"
    and "\<forall>x\<in>dom (adjacencyList g). getDirectNeighbors g x \<subseteq> dom (adjacencyList g)"
  shows "gr_direct (printStats order g) =
           int (card {(x, y). x \<in> dom (adjacencyList g) \<and> y \<in> getDirectNeighbors g x \<and> x < y})"
  using adj_sum_links [OF assms(1,2)] assms(3,4) by (simp add: printStats_def getDirectNeighbors_def)

end
