(* ===== verification/Simulator.thy ===== *)
theory Simulator
  imports GridGraph
begin

text \<open>
  The simulation driver \<open>Simulator\<close> (\<open>src/src/simulator.cpp\<close>,
  \<open>src/include/simulator.h\<close>). The object is a record. The Qt timer is a flag, the
  elapsed-time clock is the number of milliseconds handed to \<open>onTick\<close>, and the
  \<open>QFutureWatcher\<close> holds the arguments of the build task it runs: the worker
  \<open>calculateGraphAsync\<close> is a pure function of them, so the result the completion slot
  reads is that function applied to them. \<open>rand()\<close> is a stream of naturals in the state,
  shared by the vehicles' updates and the driver's own draws. The members a new
  \<open>Vehicule\<close> leaves uninitialised come from an argument \<open>junk\<close>, the bytes the
  allocation happens to hold. The k-means layout of the grid is an argument of the
  commands that build the grid. Signals, console output and the redraw requests are not
  modelled; \<open>stepOnce\<close>, \<open>updateSimulation\<close>, \<open>setSpeedMultiplier\<close>, \<open>speedMultiplier\<close>
  and \<open>setCollisionDetectionEnabled\<close> are declared in the header but never defined.
\<close>

type_synonym task = "VehicleSnapshot list \<times> bool \<times> AntennaNeighborhood"
type_synonym junk = "Vertex \<times> Vertex \<times> EdgeData"

record Simulator =
  sim_graph :: RoadGraph
  m_tickIntervalMs :: int
  m_speedMultiplier :: real
  m_running :: bool
  m_paused :: bool
  m_collisionDetectionEnabled :: bool
  m_vehicles :: "Vehicule list"
  m_interferenceGraph :: graph_state
  m_future :: "task option"
  m_calculationInProgress :: bool
  m_vertices :: "Vertex list"
  m_nextVehicleId :: int
  m_timerActive :: bool
  m_rand :: "nat stream"

definition new_Simulator :: "RoadGraph \<Rightarrow> nat stream \<Rightarrow> Simulator" where
  "new_Simulator g rs =
     \<lparr>sim_graph = g, m_tickIntervalMs = 50, m_speedMultiplier = 1, m_running = False, m_paused = False,
      m_collisionDetectionEnabled = True, m_vehicles = [], m_interferenceGraph = new_graph_state,
      m_future = None, m_calculationInProgress = False, m_vertices = [0..<num_vertices g],
      m_nextVehicleId = 0, m_timerActive = False, m_rand = rs\<rparr>"

definition isRunning :: "Simulator \<Rightarrow> bool" where
  "isRunning s \<longleftrightarrow> m_running s \<and> \<not> m_paused s"

subsection \<open>Lifecycle\<close>

definition start_sim :: "int \<Rightarrow> cell_layout \<Rightarrow> Simulator \<Rightarrow> Simulator" where
  "start_sim tickIntervalMs layout s =
     (let vs = m_vehicles s;
          s1 = s\<lparr>m_tickIntervalMs := tickIntervalMs, m_running := True, m_paused := False\<rparr>;
          s2 = (if vs \<noteq> [] then s1\<lparr>m_nextVehicleId := fold (\<lambda>v m. max m (veh_id v)) vs 0 + 1\<rparr> else s1);
          s3 = (if vs \<noteq> [] then s2\<lparr>m_interferenceGraph :=
                                   initializeSpatialGrid (sim_graph s) vs layout 5 20 (m_interferenceGraph s2)\<rparr>
                else s2)
      in s3\<lparr>m_timerActive := True\<rparr>)"

definition pause :: "Simulator \<Rightarrow> Simulator" where
  "pause s = s\<lparr>m_paused := True, m_timerActive := False\<rparr>"

definition resume :: "Simulator \<Rightarrow> Simulator" where
  "resume s = s\<lparr>m_paused := False, m_timerActive := True\<rparr>"

definition togglePause :: "Simulator \<Rightarrow> Simulator" where
  "togglePause s = (if m_paused s then resume s else pause s)"

definition clearVehicles :: "Simulator \<Rightarrow> Simulator" where
  "clearVehicles s = s\<lparr>m_vehicles := []\<rparr>"

definition reset :: "Simulator \<Rightarrow> Simulator" where
  "reset s = (let s1 = clearVehicles (pause s) in s1\<lparr>m_interferenceGraph := clear (m_interferenceGraph s1)\<rparr>)"

definition stop :: "Simulator \<Rightarrow> Simulator" where
  "stop s = s\<lparr>m_running := False, m_timerActive := False\<rparr>"

subsection \<open>The tick and the build hand-off\<close>

text \<open>Every vehicle is updated in order; an update that does not return stops the tick.\<close>

primrec update_all :: "RoadGraph \<Rightarrow> real \<Rightarrow> Vehicule list \<Rightarrow> nat stream \<Rightarrow> (Vehicule list \<times> nat stream) option" where
  "update_all g dt [] rs = Some ([], rs)"
| "update_all g dt (v # vs) rs =
     (case update g dt v rs of
        None \<Rightarrow> None
      | Some (v', rs') \<Rightarrow> (case update_all g dt vs rs' of None \<Rightarrow> None | Some (vs', rs'') \<Rightarrow> Some (v' # vs', rs'')))"

definition make_snapshot :: "RoadGraph \<Rightarrow> SpatialGrid \<Rightarrow> Vehicule \<Rightarrow> VehicleSnapshot" where
  "make_snapshot g sg v =
     (case getPosition g v of (lat, lon) \<Rightarrow>
        \<lparr>snap_id = veh_id v, snap_lon = lon, snap_lat = lat, snap_range = transmissionRange v,
         snap_micro = getMicroAntennaId sg (veh_id v)\<rparr>)"

text \<open>
  The inversion cell \<open>\<rightarrow>\<close> snapshot indices (only assigned vehicles, cell identifier at
  least 0), each cell's indices in increasing order; the cells in ascending order, one of
  the orders of the \<open>unordered_map\<close>.
\<close>

definition vehicles_per_antenna :: "VehicleSnapshot list \<Rightarrow> (cell_id \<times> int list) list" where
  "vehicles_per_antenna snaps =
     map (\<lambda>a. (a, map int (filter (\<lambda>i. snap_micro (snaps ! i) = a) [0..<length snaps])))
         (sort (remdups (filter (\<lambda>a. 0 \<le> a) (map snap_micro snaps))))"

definition neighbor_antennas :: "SpatialGrid \<Rightarrow> cell_id \<rightharpoonup> cell_id set" where
  "neighbor_antennas sg = (\<lambda>k. map_option neighborMicroIds (getMicroAntennas sg k))"

definition startGraphCalculation :: "Simulator \<Rightarrow> Simulator" where
  "startGraphCalculation s =
     (if m_calculationInProgress s then s
      else
        (let sg = getSpatialGrid (m_interferenceGraph s);
             snapshots = map (make_snapshot (sim_graph s) sg) (m_vehicles s)
         in if snapshots = [] then s
            else
              (let antennaInfo = \<lparr>vehiclesPerAntenna = vehicles_per_antenna snapshots,
                                  neighborAntennas = neighbor_antennas sg\<rparr>
               in s\<lparr>m_calculationInProgress := True,
                    m_future := Some (snapshots, isTransitiveClosureEnabled (m_interferenceGraph s), antennaInfo)\<rparr>)))"

definition onTick :: "nat \<Rightarrow> Simulator \<Rightarrow> Simulator option" where
  "onTick elapsedMs s =
     (let deltaTime = real elapsedMs / 1000 * m_speedMultiplier s
      in case update_all (sim_graph s) deltaTime (m_vehicles s) (m_rand s) of
           None \<Rightarrow> None
         | Some (vs, rs) \<Rightarrow>
             (let s1 = s\<lparr>m_vehicles := vs, m_rand := rs\<rparr>
              in Some (if \<not> m_calculationInProgress s1 \<and> vs \<noteq> [] then startGraphCalculation s1 else s1)))"

definition task_result :: "task \<Rightarrow> (SpatialGrid, Vehicule) InterferenceGraph" where
  "task_result t = (case t of (snapshots, computeT, antennaInfo) \<Rightarrow>
                      calculateGraphAsync new_SpatialGrid snapshots computeT antennaInfo)"

definition onGraphCalculationFinished :: "Simulator \<Rightarrow> Simulator" where
  "onGraphCalculationFinished s =
     (case m_future s of None \<Rightarrow> s
      | Some t \<Rightarrow> s\<lparr>m_interferenceGraph := copyFrom (m_interferenceGraph s) (task_result t),
                     m_calculationInProgress := False\<rparr>)"

subsection \<open>Vehicle management\<close>

definition addVehicle :: "Vehicule \<Rightarrow> Simulator \<Rightarrow> Simulator" where
  "addVehicle v s =
     s\<lparr>m_vehicles := m_vehicles s @ [v],
       m_interferenceGraph := assignVehicleToAntenna_ig (sim_graph s) v (m_interferenceGraph s)\<rparr>"

text \<open>\<open>removeVehicle\<close> finds the vehicle by pointer; vehicles are identified by identifier here.\<close>

definition removeVehicle :: "vid \<Rightarrow> Simulator \<Rightarrow> Simulator \<times> bool" where
  "removeVehicle vid s =
     (case find (\<lambda>i. veh_id (m_vehicles s ! i) = vid) [0..<length (m_vehicles s)] of
        None \<Rightarrow> (s, False)
      | Some i \<Rightarrow> (s\<lparr>m_interferenceGraph := removeVehicleFromAntenna_ig vid (m_interferenceGraph s),
                      m_vehicles := take i (m_vehicles s) @ drop (Suc i) (m_vehicles s)\<rparr>, True))"

definition valid_start :: "RoadGraph \<Rightarrow> Vertex \<Rightarrow> bool" where
  "valid_start g x \<longleftrightarrow> isValidVertex x g \<and> hasValidOutgoingEdge x g"

definition nearest_vertex_step :: "RoadGraph \<Rightarrow> real \<Rightarrow> real \<Rightarrow> Vertex \<Rightarrow> Vertex \<times> real option \<Rightarrow> Vertex \<times> real option" where
  "nearest_vertex_step g lon lat x st =
     (case st of (nearest, minDist) \<Rightarrow>
        (let vLat = vd_lat (vertex_data g x); vLon = vd_lon (vertex_data g x);
             d = (vLon - lon) * (vLon - lon) + (vLat - lat) * (vLat - lat)
         in if (case minDist of None \<Rightarrow> True | Some m \<Rightarrow> d < m) \<and> valid_start g x then (x, Some d) else st))"

text \<open>At most 100 further draws for a goal (\<open>attempts < 100\<close>).\<close>

fun goal_search :: "RoadGraph \<Rightarrow> Vertex list \<Rightarrow> Vertex \<Rightarrow> nat \<Rightarrow> nat stream \<Rightarrow> Vertex \<times> nat stream" where
  "goal_search g verts gl 0 rs = (gl, rs)"
| "goal_search g verts gl (Suc k) rs =
     (if \<not> valid_start g gl then goal_search g verts (verts ! (shd rs mod length verts)) k (stl rs)
      else (gl, rs))"

definition createVehicleNear :: "real \<Rightarrow> real \<Rightarrow> (int \<Rightarrow> junk) \<Rightarrow> Simulator \<Rightarrow> Simulator \<times> Vehicule option" where
  "createVehicleNear lon lat jk s =
     (let verts = m_vertices s; g = sim_graph s
      in if verts = [] then (s, None)
         else
           (let nearestVertex = fst (fold (nearest_vertex_step g lon lat) verts (verts ! 0, None));
                rs = m_rand s;
                (gl, rs') = goal_search g verts (verts ! (shd rs mod length verts)) 100 (stl rs);
                i = m_nextVehicleId s;
                car = (case jk i of (p0, n0, e0) \<Rightarrow> new_Vehicule i nearestVertex gl 14 500 5 p0 n0 e0)
            in (addVehicle car (s\<lparr>m_rand := rs', m_nextVehicleId := i + 1\<rparr>), Some car)))"

text \<open>
  The rejection loops of \<open>setVehicleCount\<close>,
  \<open>while (!isValidVertex(x) && !hasValidOutgoingEdge(x)) x = m_vertices[rand() % n]\<close>,
  which have no bound: a \<open>partial_function\<close>, \<open>None\<close> when the loop never ends.
\<close>

partial_function (option) retry_vertex :: "RoadGraph \<Rightarrow> Vertex list \<Rightarrow> Vertex \<Rightarrow> nat stream \<Rightarrow> (Vertex \<times> nat stream) option" where
  "retry_vertex g verts x rs =
     (if \<not> isValidVertex x g \<and> \<not> hasValidOutgoingEdge x g
      then retry_vertex g verts (verts ! (shd rs mod length verts)) (stl rs)
      else Some (x, rs))"

definition add_one_vehicle :: "(int \<Rightarrow> junk) \<Rightarrow> Simulator \<Rightarrow> Simulator option" where
  "add_one_vehicle jk s =
     (let verts = m_vertices s; g = sim_graph s; rs = m_rand s;
          start0 = verts ! (shd rs mod length verts);
          goal0 = verts ! (shd (stl rs) mod length verts)
      in case retry_vertex g verts start0 (stl (stl rs)) of
           None \<Rightarrow> None
         | Some (st, rs1) \<Rightarrow>
             (case retry_vertex g verts goal0 rs1 of
                None \<Rightarrow> None
              | Some (gl, rs2) \<Rightarrow>
                  (let i = m_nextVehicleId s;
                       car = (case jk i of (p0, n0, e0) \<Rightarrow> new_Vehicule i st gl 14 500 5 p0 n0 e0)
                   in Some (addVehicle car (s\<lparr>m_rand := rs2, m_nextVehicleId := i + 1\<rparr>)))))"

primrec add_vehicles :: "nat \<Rightarrow> (int \<Rightarrow> junk) \<Rightarrow> Simulator \<Rightarrow> Simulator option" where
  "add_vehicles 0 jk s = Some s"
| "add_vehicles (Suc k) jk s =
     (if m_vertices s = [] then Some s
      else (case add_one_vehicle jk s of None \<Rightarrow> None | Some s' \<Rightarrow> add_vehicles k jk s'))"

primrec remove_vehicles :: "nat \<Rightarrow> Simulator \<Rightarrow> Simulator" where
  "remove_vehicles 0 s = s"
| "remove_vehicles (Suc k) s =
     (if m_vehicles s = [] then s
      else remove_vehicles k
             (s\<lparr>m_interferenceGraph := removeVehicleFromAntenna_ig (veh_id (last (m_vehicles s))) (m_interferenceGraph s),
                m_vehicles := butlast (m_vehicles s)\<rparr>))"

definition setVehicleCount :: "int \<Rightarrow> (int \<Rightarrow> junk) \<Rightarrow> Simulator \<Rightarrow> Simulator option" where
  "setVehicleCount count jk s =
     (let currentCount = int (length (m_vehicles s))
      in if count = currentCount then Some s
         else if count < currentCount then Some (remove_vehicles (nat (currentCount - count)) s)
         else add_vehicles (nat (count - currentCount)) jk s)"

definition placeAntennas :: "int \<Rightarrow> int \<Rightarrow> cell_layout \<Rightarrow> Simulator \<Rightarrow> Simulator" where
  "placeAntennas numLarge numSmall layout s =
     (if m_vehicles s = [] then s
      else s\<lparr>m_interferenceGraph := reinitializeSpatialGrid (sim_graph s) (m_vehicles s) layout numLarge numSmall
                                      (m_interferenceGraph s)\<rparr>)"

subsection \<open>The parameter commands of the map view\<close>

text \<open>
  The handlers \<open>MapView\<close> connects to the parameter panel (\<open>src/src/map_view.cpp\<close>):
  the vehicle count, the closure toggle, the transmission range (every vehicle, then the
  grid's neighbour sets), the speed in km/h, and the antenna layout.
\<close>

definition cmd_showTransitive :: "bool \<Rightarrow> Simulator \<Rightarrow> Simulator" where
  "cmd_showTransitive enable s = s\<lparr>m_interferenceGraph := enableTransitiveClosure enable (m_interferenceGraph s)\<rparr>"

definition cmd_transmissionRange :: "int \<Rightarrow> Simulator \<Rightarrow> Simulator" where
  "cmd_transmissionRange rng s =
     s\<lparr>m_vehicles := map (\<lambda>v. v\<lparr>transmissionRange := real_of_int rng\<rparr>) (m_vehicles s),
       m_interferenceGraph := updateTransmissionRange (real_of_int rng) (m_interferenceGraph s)\<rparr>"

definition cmd_vehicleSpeed :: "int \<Rightarrow> Simulator \<Rightarrow> Simulator" where
  "cmd_vehicleSpeed speedKmh s = s\<lparr>m_vehicles := map (\<lambda>v. v\<lparr>speed := real_of_int speedKmh / 3.6\<rparr>) (m_vehicles s)\<rparr>"

subsection \<open>The event loop\<close>

text \<open>
  One event of the driver thread: a timer tick (while the timer runs) with the elapsed
  milliseconds, the completion of the build in flight, or a command.
\<close>

inductive sim_step :: "Simulator \<Rightarrow> Simulator \<Rightarrow> bool" where
  tick: "m_timerActive s \<Longrightarrow> onTick ms s = Some s' \<Longrightarrow> sim_step s s'"
| finish: "m_calculationInProgress s \<Longrightarrow> sim_step s (onGraphCalculationFinished s)"
| start: "sim_step s (start_sim ms layout s)"
| pause: "sim_step s (pause s)"
| resume: "sim_step s (resume s)"
| toggle: "sim_step s (togglePause s)"
| stop: "sim_step s (stop s)"
| reset: "sim_step s (reset s)"
| count: "setVehicleCount n jk s = Some s' \<Longrightarrow> sim_step s s'"
| create: "sim_step s (fst (createVehicleNear lon lat jk s))"
| remove: "sim_step s (fst (removeVehicle vid s))"
| transitive: "sim_step s (cmd_showTransitive b s)"
| range: "sim_step s (cmd_transmissionRange r s)"
| speed: "sim_step s (cmd_vehicleSpeed k s)"
| antennas: "sim_step s (placeAntennas nl ns layout s)"

definition reachable :: "RoadGraph \<Rightarrow> nat stream \<Rightarrow> Simulator \<Rightarrow> bool" where
  "reachable g rs s \<longleftrightarrow> sim_step\<^sup>*\<^sup>* (new_Simulator g rs) s"

subsection \<open>Invariants of the driver\<close>

text \<open>
  \<open>ids_ok\<close>: the vehicles have distinct identifiers, all below the next identifier to hand
  out. \<open>task_ok\<close>: a build in flight has its task recorded, and the recorded task has
  snapshots with distinct identifiers and cells that list each snapshot index once.
  \<open>published_ok\<close>: the adjacency readers see is symmetric, finite and has no self-loop.
\<close>

definition ids_ok :: "Simulator \<Rightarrow> bool" where
  "ids_ok s \<longleftrightarrow> distinct (map veh_id (m_vehicles s)) \<and> list_all (\<lambda>v. veh_id v < m_nextVehicleId s) (m_vehicles s)"

definition task_ok :: "Simulator \<Rightarrow> bool" where
  "task_ok s \<longleftrightarrow>
     (m_calculationInProgress s \<longrightarrow> m_future s \<noteq> None) \<and>
     (case m_future s of None \<Rightarrow> True
      | Some (snapshots, computeT, info) \<Rightarrow> distinct (map snap_id snapshots) \<and> antenna_info_distinct (Some info))"

definition published_ok :: "Simulator \<Rightarrow> bool" where
  "published_ok s \<longleftrightarrow>
     sym_adj (adjacencyList (m_interferenceGraph s)) \<and> finite_adj (adjacencyList (m_interferenceGraph s)) \<and>
     list_all (\<lambda>i. i \<notin> adj_get (adjacencyList (m_interferenceGraph s)) i) (sorted_list_of_set (dom (adjacencyList (m_interferenceGraph s))))"

definition sim_inv :: "Simulator \<Rightarrow> bool" where
  "sim_inv s \<longleftrightarrow> ids_ok s \<and> task_ok s \<and> published_ok s"

text \<open>
  A stream of draws is fair for a vertex list when, from every position on, some later draw
  picks a vertex the rejection loops of \<open>setVehicleCount\<close> accept.
\<close>

definition fair_draws :: "RoadGraph \<Rightarrow> Vertex list \<Rightarrow> nat stream \<Rightarrow> bool" where
  "fair_draws g verts rs \<longleftrightarrow>
     (\<forall>k. \<exists>j\<ge>k. isValidVertex (verts ! (snth rs j mod length verts)) g \<or>
                 hasValidOutgoingEdge (verts ! (snth rs j mod length verts)) g)"

lemma graph_ops_keep_adjacency [simp]:
  "adjacencyList (initializeSpatialGrid rg vs layout a b g) = adjacencyList g"
  "adjacencyList (reinitializeSpatialGrid rg vs layout a b g) = adjacencyList g"
  "adjacencyList (updateTransmissionRange r g) = adjacencyList g"
  "adjacencyList (assignVehicleToAntenna_ig rg v g) = adjacencyList g"
  "adjacencyList (removeVehicleFromAntenna_ig vid g) = adjacencyList g"
  "adjacencyList (enableTransitiveClosure e g) = adjacencyList g"
  by (simp_all add: initializeSpatialGrid_def reinitializeSpatialGrid_def updateTransmissionRange_def
      assignVehicleToAntenna_ig_def removeVehicleFromAntenna_ig_def enableTransitiveClosure_def Let_def)

lemma update_all_ids: "update_all g dt vs rs = Some (vs', rs') \<Longrightarrow> map veh_id vs' = map veh_id vs"
proof (induction vs arbitrary: rs vs' rs')
  case Nil
  then show ?case by simp
next
  case (Cons v vs)
  then obtain v' r1 vs1 where u: "update g dt v rs = Some (v', r1)" and r: "update_all g dt vs r1 = Some (vs1, rs')"
    and e: "vs' = v' # vs1"
    by (auto split: option.splits prod.splits)
  show ?case using Cons.IH [OF r] update_keeps_id [OF u] e by simp
qed

lemma startGraphCalculation_keeps [simp]:
  "m_vehicles (startGraphCalculation s) = m_vehicles s"
  "m_nextVehicleId (startGraphCalculation s) = m_nextVehicleId s"
  "m_interferenceGraph (startGraphCalculation s) = m_interferenceGraph s"
  by (simp_all add: startGraphCalculation_def Let_def)

lemma onTick_keeps:
  assumes "onTick ms s = Some s'"
  shows "map veh_id (m_vehicles s') = map veh_id (m_vehicles s) \<and> m_nextVehicleId s' = m_nextVehicleId s \<and>
         m_interferenceGraph s' = m_interferenceGraph s"
proof -
  obtain vs rs where u: "update_all (sim_graph s) (real ms / 1000 * m_speedMultiplier s) (m_vehicles s) (m_rand s) = Some (vs, rs)"
    and s': "s' = (let s1 = s\<lparr>m_vehicles := vs, m_rand := rs\<rparr>
                   in if \<not> m_calculationInProgress s1 \<and> vs \<noteq> [] then startGraphCalculation s1 else s1)"
    using assms by (auto simp: onTick_def Let_def split: option.splits)
  show ?thesis using update_all_ids [OF u] s' by (simp add: Let_def)
qed

lemma distinct_cells:
  "distinct as \<Longrightarrow> distinct (concat (map (\<lambda>a. map int (filter (\<lambda>i. f i = a) [0..<n])) as))"
proof (induction as)
  case Nil
  then show ?case by simp
next
  case (Cons a as)
  have "distinct (map int (filter (\<lambda>i. f i = a) [0..<n]))" by (simp add: distinct_map inj_on_def)
  moreover have "set (map int (filter (\<lambda>i. f i = a) [0..<n])) \<inter>
                 set (concat (map (\<lambda>a. map int (filter (\<lambda>i. f i = a) [0..<n])) as)) = {}"
    using Cons.prems by auto
  ultimately show ?case using Cons by simp
qed

lemma vehicles_per_antenna_distinct: "antenna_info_distinct (Some \<lparr>vehiclesPerAntenna = vehicles_per_antenna snaps, neighborAntennas = N\<rparr>)"
proof -
  have "map fst (vehicles_per_antenna snaps) = sort (remdups (filter (\<lambda>a. 0 \<le> a) (map snap_micro snaps)))"
    by (simp add: vehicles_per_antenna_def comp_def)
  moreover have "map snd (vehicles_per_antenna snaps) =
    map (\<lambda>a. map int (filter (\<lambda>i. snap_micro (snaps ! i) = a) [0..<length snaps]))
        (sort (remdups (filter (\<lambda>a. 0 \<le> a) (map snap_micro snaps))))"
    by (simp add: vehicles_per_antenna_def comp_def)
  ultimately show ?thesis by (simp add: antenna_info_distinct_def distinct_cells)
qed

lemma startGraphCalculation_task:
  assumes "ids_ok s" "task_ok s"
  shows "task_ok (startGraphCalculation s)"
proof -
  have "snap_id \<circ> make_snapshot g sg = veh_id" for g sg
    by (simp add: fun_eq_iff make_snapshot_def split: prod.splits)
  then show ?thesis
    using assms vehicles_per_antenna_distinct
    by (auto simp: startGraphCalculation_def Let_def task_ok_def ids_ok_def)
qed

lemma ids_ok_cong:
  "map veh_id (m_vehicles s') = map veh_id (m_vehicles s) \<Longrightarrow> m_nextVehicleId s' = m_nextVehicleId s \<Longrightarrow>
   ids_ok s' = ids_ok s"
proof -
  assume m: "map veh_id (m_vehicles s') = map veh_id (m_vehicles s)" and n: "m_nextVehicleId s' = m_nextVehicleId s"
  have "list_all (\<lambda>v. veh_id v < k) vs \<longleftrightarrow> list_all (\<lambda>x. x < k) (map veh_id vs)" for k vs
    by (simp add: list_all_iff)
  then show ?thesis unfolding ids_ok_def using m n by metis
qed

lemma published_ok_cong:
  "adjacencyList (m_interferenceGraph s') = adjacencyList (m_interferenceGraph s) \<Longrightarrow> published_ok s' = published_ok s"
  by (simp add: published_ok_def)

lemma task_ok_cong:
  "m_future s' = m_future s \<Longrightarrow> m_calculationInProgress s' = m_calculationInProgress s \<Longrightarrow> task_ok s' = task_ok s"
  by (simp add: task_ok_def)

lemma tick_inv:
  assumes "onTick ms s = Some s'" "sim_inv s"
  shows "sim_inv s'"
proof -
  obtain vs rs where u: "update_all (sim_graph s) (real ms / 1000 * m_speedMultiplier s) (m_vehicles s) (m_rand s) = Some (vs, rs)"
    and s': "s' = (let s1 = s\<lparr>m_vehicles := vs, m_rand := rs\<rparr>
                   in if \<not> m_calculationInProgress s1 \<and> vs \<noteq> [] then startGraphCalculation s1 else s1)"
    using assms(1) by (auto simp: onTick_def Let_def split: option.splits)
  let ?s1 = "s\<lparr>m_vehicles := vs, m_rand := rs\<rparr>"
  have i1: "ids_ok ?s1" using assms(2) update_all_ids [OF u] ids_ok_cong [of ?s1 s] by (simp add: sim_inv_def)
  have t1: "task_ok ?s1" using assms(2) task_ok_cong [of ?s1 s] by (simp add: sim_inv_def)
  have p1: "published_ok ?s1" using assms(2) published_ok_cong [of ?s1 s] by (simp add: sim_inv_def)
  show ?thesis
  proof (cases "\<not> m_calculationInProgress ?s1 \<and> vs \<noteq> []")
    case True
    then show ?thesis
      using s' i1 p1 startGraphCalculation_task [OF i1 t1] ids_ok_cong [of "startGraphCalculation ?s1" ?s1]
        published_ok_cong [of "startGraphCalculation ?s1" ?s1]
      by (simp add: sim_inv_def)
  next
    case False
    then have "s' = ?s1" using s' by (auto simp: Let_def)
    then show ?thesis using i1 t1 p1 by (simp add: sim_inv_def)
  qed
qed

lemma task_result_published:
  assumes "distinct (map snap_id snapshots)" "antenna_info_distinct (Some info)"
  shows "sym_adj (adjacencyList (task_result (snapshots, computeT, info))) \<and>
         finite_adj (adjacencyList (task_result (snapshots, computeT, info))) \<and>
         (\<forall>i. i \<notin> adj_get (adjacencyList (task_result (snapshots, computeT, info))) i)"
proof -
  let ?g = "buildGraphFromSnapshots ((new_InterferenceGraph new_SpatialGrid)\<lparr>computeTransitive := computeT\<rparr>) snapshots (Some info)"
  have "sym_adj (adjacencyList ?g)" by (rule build_adjacency_symmetric)
  moreover have "finite_adj (adjacencyList ?g)" by (rule build_finite)
  moreover have "\<forall>i. i \<notin> adj_get (adjacencyList ?g) i"
    using build_no_self_link [OF assms] unfolding getDirectNeighbors_def by blast
  ultimately show ?thesis by (simp add: task_result_def calculateGraphAsync_def)
qed

lemma finish_inv:
  assumes "m_calculationInProgress s" "sim_inv s"
  shows "sim_inv (onGraphCalculationFinished s)"
proof -
  obtain snapshots computeT info where f: "m_future s = Some (snapshots, computeT, info)"
    using assms by (cases "m_future s") (auto simp: sim_inv_def task_ok_def)
  have "distinct (map snap_id snapshots)" "antenna_info_distinct (Some info)"
    using assms(2) f by (simp_all add: sim_inv_def task_ok_def)
  from task_result_published [OF this, of computeT]
  have "published_ok (onGraphCalculationFinished s)"
    by (simp add: published_ok_def onGraphCalculationFinished_def f copyFrom_def list_all_iff)
  moreover have "ids_ok (onGraphCalculationFinished s)" "task_ok (onGraphCalculationFinished s)"
    using assms(2) f by (simp_all add: sim_inv_def ids_ok_def task_ok_def onGraphCalculationFinished_def)
  ultimately show ?thesis by (simp add: sim_inv_def)
qed

lemma sim_inv_frame:
  assumes "map veh_id (m_vehicles s') = map veh_id (m_vehicles s)" "m_nextVehicleId s' = m_nextVehicleId s"
    "m_future s' = m_future s" "m_calculationInProgress s' = m_calculationInProgress s"
    "adjacencyList (m_interferenceGraph s') = adjacencyList (m_interferenceGraph s)" "sim_inv s"
  shows "sim_inv s'"
  using assms ids_ok_cong [OF assms(1,2)] task_ok_cong [OF assms(3,4)] published_ok_cong [OF assms(5)]
  by (simp add: sim_inv_def)

lemma fold_max_ge:
  "m \<le> fold (\<lambda>v m. max m (veh_id v)) vs m \<and> (\<forall>v\<in>set vs. veh_id v \<le> fold (\<lambda>v m. max m (veh_id v)) vs m)"
proof (induction vs arbitrary: m)
  case Nil
  then show ?case by simp
next
  case (Cons v vs)
  then show ?case by (metis (no_types, lifting) fold_simps(2) max.bounded_iff order_refl set_ConsD)
qed

lemma start_inv: "sim_inv s \<Longrightarrow> sim_inv (start_sim ms layout s)"
proof -
  assume inv: "sim_inv s"
  let ?m = "fold (\<lambda>v m. max m (veh_id v)) (m_vehicles s) 0"
  have "list_all (\<lambda>v. veh_id v < ?m + 1) (m_vehicles s)"
    using fold_max_ge [of 0 "m_vehicles s"] by (auto simp: list_all_iff)
  then show ?thesis using inv
    by (simp add: start_sim_def Let_def sim_inv_def ids_ok_def task_ok_def published_ok_def)
qed

lemma veh_id_new [simp]: "veh_id (new_Vehicule i st gl sp rng cd p0 n0 e0) = i"
  by (simp add: new_Vehicule_def)

lemma addVehicle_inv:
  assumes "sim_inv s" "veh_id v = m_nextVehicleId s"
  shows "sim_inv (addVehicle v (s\<lparr>m_rand := rs, m_nextVehicleId := m_nextVehicleId s + 1\<rparr>))"
proof -
  have "v \<notin> set (m_vehicles s)" and "distinct (map veh_id (m_vehicles s))"
    and "list_all (\<lambda>w. veh_id w < m_nextVehicleId s) (m_vehicles s)"
    using assms by (auto simp: sim_inv_def ids_ok_def list_all_iff)
  then have "ids_ok (addVehicle v (s\<lparr>m_rand := rs, m_nextVehicleId := m_nextVehicleId s + 1\<rparr>))"
    using assms(2) by (auto simp: ids_ok_def addVehicle_def list_all_iff)
  then show ?thesis using assms(1)
    by (simp add: sim_inv_def addVehicle_def task_ok_def published_ok_def)
qed

lemma add_one_inv: "add_one_vehicle jk s = Some s' \<Longrightarrow> sim_inv s \<Longrightarrow> sim_inv s'"
  by (auto simp: add_one_vehicle_def Let_def addVehicle_inv split: option.splits prod.splits)

lemma add_vehicles_inv: "add_vehicles k jk s = Some s' \<Longrightarrow> sim_inv s \<Longrightarrow> sim_inv s'"
  by (induction k arbitrary: s) (auto split: if_splits option.splits dest: add_one_inv)

lemma remove_vehicles_inv: "sim_inv s \<Longrightarrow> sim_inv (remove_vehicles k s)"
proof (induction k arbitrary: s)
  case 0
  then show ?case by simp
next
  case (Suc k)
  let ?s1 = "s\<lparr>m_interferenceGraph := removeVehicleFromAntenna_ig (veh_id (last (m_vehicles s))) (m_interferenceGraph s),
                m_vehicles := butlast (m_vehicles s)\<rparr>"
  have "distinct (map veh_id (butlast (m_vehicles s)))"
    using Suc.prems by (simp add: sim_inv_def ids_ok_def map_butlast distinct_butlast)
  moreover have "list_all (\<lambda>v. veh_id v < m_nextVehicleId s) (butlast (m_vehicles s))"
    using Suc.prems in_set_butlastD by (fastforce simp: sim_inv_def ids_ok_def list_all_iff)
  ultimately have "sim_inv ?s1" using Suc.prems
    by (simp add: sim_inv_def ids_ok_def task_ok_def published_ok_def)
  then show ?case using Suc.IH Suc.prems by simp
qed

lemma remove_vehicles_take: "m_vehicles (remove_vehicles k s) = take (length (m_vehicles s) - k) (m_vehicles s)"
  by (induction k arbitrary: s) (auto simp: butlast_conv_take min_def)

lemma setVehicleCount_inv: "setVehicleCount n jk s = Some s' \<Longrightarrow> sim_inv s \<Longrightarrow> sim_inv s'"
  by (auto simp: setVehicleCount_def Let_def remove_vehicles_inv add_vehicles_inv split: if_splits)

lemma create_inv: "sim_inv s \<Longrightarrow> sim_inv (fst (createVehicleNear lon lat jk s))"
  by (auto simp: createVehicleNear_def Let_def addVehicle_inv split: prod.splits)

lemma distinct_take_drop: "distinct xs \<Longrightarrow> distinct (take i xs @ drop (Suc i) xs)"
proof (cases "i < length xs")
  case True
  assume d: "distinct xs"
  have "xs = take i xs @ xs ! i # drop (Suc i) xs" using True by (simp add: id_take_nth_drop)
  then have "distinct (take i xs @ xs ! i # drop (Suc i) xs)" using d by simp
  then show ?thesis by simp
next
  case False
  then show "distinct xs \<Longrightarrow> ?thesis" by simp
qed

lemma remove_inv: "sim_inv s \<Longrightarrow> sim_inv (fst (removeVehicle vid s))"
proof -
  assume inv: "sim_inv s"
  have "list_all (\<lambda>v. veh_id v < m_nextVehicleId s) (take i (m_vehicles s) @ drop (Suc i) (m_vehicles s))" for i
    using inv by (auto simp: sim_inv_def ids_ok_def list_all_iff dest: in_set_takeD in_set_dropD)
  moreover have "distinct (map veh_id (take i (m_vehicles s) @ drop (Suc i) (m_vehicles s)))" for i
    using inv distinct_take_drop [of "map veh_id (m_vehicles s)" i] by (simp add: sim_inv_def ids_ok_def take_map drop_map)
  ultimately show ?thesis using inv
    by (auto simp: removeVehicle_def sim_inv_def ids_ok_def task_ok_def published_ok_def split: option.splits)
qed

lemma reset_inv: "sim_inv s \<Longrightarrow> sim_inv (reset s)"
  by (simp add: reset_def clearVehicles_def pause_def clear_def sim_inv_def ids_ok_def task_ok_def
      published_ok_def sym_adj_def adj_get_def)

lemma new_Simulator_inv: "sim_inv (new_Simulator g rs)"
  by (simp add: new_Simulator_def new_graph_state_def new_InterferenceGraph_def sim_inv_def ids_ok_def
      task_ok_def published_ok_def sym_adj_def adj_get_def)

lemma sim_step_inv: "sim_step s s' \<Longrightarrow> sim_inv s \<Longrightarrow> sim_inv s'"
proof (induction rule: sim_step.induct)
  case (tick s ms s')
  then show ?case using tick_inv by blast
next
  case (finish s)
  then show ?case using finish_inv by blast
qed (auto intro: sim_inv_frame start_inv reset_inv setVehicleCount_inv create_inv remove_inv
          simp: pause_def resume_def togglePause_def stop_def cmd_showTransitive_def
                cmd_transmissionRange_def cmd_vehicleSpeed_def placeAntennas_def comp_def)

lemma reachable_inv: "reachable g rs s \<Longrightarrow> sim_inv s"
  unfolding reachable_def
proof (induction rule: rtranclp_induct)
  case base
  then show ?case by (rule new_Simulator_inv)
next
  case (step y z)
  then show ?case using sim_step_inv by blast
qed

lemma published_no_self: "published_ok s \<Longrightarrow> i \<notin> getDirectNeighbors (m_interferenceGraph s) i"
proof -
  assume p: "published_ok s"
  let ?a = "adjacencyList (m_interferenceGraph s)"
  show ?thesis
  proof (cases "i \<in> dom ?a")
    case True
    then have "i \<in> set (sorted_list_of_set (dom ?a))" using p by (simp add: published_ok_def finite_adj_def)
    then show ?thesis using p by (auto simp: published_ok_def getDirectNeighbors_def list_all_iff)
  next
    case False
    then show ?thesis by (auto simp: getDirectNeighbors_def adj_get_def)
  qed
qed

text \<open>
  C14: in every state the driver reaches from its construction, by any sequence of ticks,
  completions of the background build and commands, the graph the views read is symmetric
  and no vehicle is its own neighbour.
\<close>

theorem reachable_published:
  "reachable g rs s \<Longrightarrow>
   sym_adj (adjacencyList (m_interferenceGraph s)) \<and> (\<forall>i. i \<notin> getDirectNeighbors (m_interferenceGraph s) i)"
  using reachable_inv [of g rs s] published_no_self [of s] by (simp add: sim_inv_def published_ok_def)

text \<open>
  C15: in every reachable state the vehicles have pairwise distinct identifiers, each below
  the identifier the driver hands out next.
\<close>

theorem reachable_ids:
  "reachable g rs s \<Longrightarrow>
   distinct (map veh_id (m_vehicles s)) \<and> (\<forall>v\<in>set (m_vehicles s). veh_id v < m_nextVehicleId s)"
  using reachable_inv [of g rs s] by (simp add: sim_inv_def ids_ok_def list_all_iff)

subsection \<open>The rejection loops of \<open>setVehicleCount\<close>\<close>

text \<open>
  The loop \<open>while (!isValidVertex(x) && !hasValidOutgoingEdge(x))\<close> accepts a vertex that
  is valid or has a valid outgoing edge. Its result is accepted (by fixpoint induction over
  the \<open>partial_function\<close>); it returns when some draw is accepted and never returns when no
  vertex can be.
\<close>

lemma no_valid_start: "no_valid_edges g \<Longrightarrow> \<not> valid_start g x \<and> \<not> isValidVertex x g \<and> \<not> hasValidOutgoingEdge x g"
  by (auto simp: no_valid_edges_def valid_start_def isValidVertex_def hasValidOutgoingEdge_def out_edges_def
        list_ex_iff list_all_iff)

lemma retry_vertex_ok [simp]:
  "isValidVertex x g \<or> hasValidOutgoingEdge x g \<Longrightarrow> retry_vertex g verts x rs = Some (x, rs)"
  by (subst retry_vertex.simps) auto

lemma retry_vertex_draw:
  "\<not> isValidVertex x g \<Longrightarrow> \<not> hasValidOutgoingEdge x g \<Longrightarrow>
     retry_vertex g verts x rs = retry_vertex g verts (verts ! (shd rs mod length verts)) (stl rs)"
  by (subst retry_vertex.simps) simp

text \<open>A rejection loop returns, with an accepted vertex, as soon as one of its draws is accepted.\<close>

lemma retry_vertex_returns:
  assumes "isValidVertex (verts ! (snth rs k mod length verts)) g \<or> hasValidOutgoingEdge (verts ! (snth rs k mod length verts)) g"
  shows "\<exists>r. retry_vertex g verts x rs = Some r \<and> (isValidVertex (fst r) g \<or> hasValidOutgoingEdge (fst r) g)"
  using assms
proof (induction k arbitrary: x rs)
  case 0
  then show ?case
    by (cases "isValidVertex x g \<or> hasValidOutgoingEdge x g") (auto simp: retry_vertex_draw)
next
  case (Suc k)
  then show ?case
    by (cases "isValidVertex x g \<or> hasValidOutgoingEdge x g") (auto simp: retry_vertex_draw)
qed

lemma retry_vertex_result:
  "retry_vertex g verts x rs = Some r \<Longrightarrow> isValidVertex (fst r) g \<or> hasValidOutgoingEdge (fst r) g"
proof -
  have "\<forall>g verts x rs r. retry_vertex g verts x rs = Some r \<longrightarrow> isValidVertex (fst r) g \<or> hasValidOutgoingEdge (fst r) g"
  proof (rule retry_vertex.fixp_induct)
    show "option.admissible (\<lambda>f. \<forall>g verts x rs r. curry (curry (curry f)) g verts x rs = Some r \<longrightarrow>
                                  isValidVertex (fst r) g \<or> hasValidOutgoingEdge (fst r) g)"
      using option_admissible [where P = "\<lambda>a r. isValidVertex (fst r) (fst (fst (fst a))) \<or> hasValidOutgoingEdge (fst r) (fst (fst (fst a)))"]
      by (simp add: split_paired_All)
  qed (auto split: if_splits)
  then show "retry_vertex g verts x rs = Some r \<Longrightarrow> isValidVertex (fst r) g \<or> hasValidOutgoingEdge (fst r) g" by blast
qed

text \<open>
  C17: on a road graph none of whose edges is a valid road, \<open>setVehicleCount\<close> asked for more
  vehicles than the simulator has never returns: the rejection loop of the first new
  vehicle draws vertices forever (the GUI thread hangs).
\<close>

theorem setVehicleCount_hangs:
  assumes "no_valid_edges (sim_graph s)" "m_vertices s \<noteq> []" "int (length (m_vehicles s)) < count"
  shows "setVehicleCount count jk s = None"
proof -
  have r: "retry_vertex (sim_graph s) verts x rs = None" for verts x rs
    using retry_vertex_result [of "sim_graph s" verts x rs] no_valid_start [OF assms(1)] by (cases "retry_vertex (sim_graph s) verts x rs") auto
  have "add_one_vehicle jk s = None" by (simp add: add_one_vehicle_def Let_def r)
  moreover obtain k where "nat (count - int (length (m_vehicles s))) = Suc k" using assms(3)
    by (metis gr0_implies_Suc zero_less_nat_eq diff_gt_0_iff_gt)
  ultimately show ?thesis using assms(2,3) by (simp add: setVehicleCount_def Let_def)
qed

lemma retry_vertex_sdrop:
  assumes "isValidVertex (verts ! (snth rs k mod length verts)) g \<or> hasValidOutgoingEdge (verts ! (snth rs k mod length verts)) g"
  shows "\<exists>y n. retry_vertex g verts x rs = Some (y, sdrop n rs) \<and> (isValidVertex y g \<or> hasValidOutgoingEdge y g)"
  using assms
proof (induction k arbitrary: x rs)
  case 0
  show ?case
  proof (cases "isValidVertex x g \<or> hasValidOutgoingEdge x g")
    case True
    then show ?thesis by (intro exI [of _ x] exI [of _ 0]) simp
  next
    case False
    then show ?thesis using 0 by (intro exI [of _ "verts ! (shd rs mod length verts)"] exI [of _ 1]) (simp add: retry_vertex_draw)
  qed
next
  case (Suc k)
  show ?case
  proof (cases "isValidVertex x g \<or> hasValidOutgoingEdge x g")
    case True
    then show ?thesis by (intro exI [of _ x] exI [of _ 0]) simp
  next
    case False
    obtain y n where "retry_vertex g verts (verts ! (shd rs mod length verts)) (stl rs) = Some (y, sdrop n (stl rs))"
      "isValidVertex y g \<or> hasValidOutgoingEdge y g"
      using Suc.IH [where x = "verts ! (shd rs mod length verts)" and rs = "stl rs"] Suc.prems by auto
    then show ?thesis using False by (intro exI [of _ y] exI [of _ "Suc n"]) (simp add: retry_vertex_draw)
  qed
qed

lemma fair_draws_sdrop: "fair_draws g verts rs \<Longrightarrow> fair_draws g verts (sdrop n rs)"
  unfolding fair_draws_def
proof
  fix k
  assume f: "\<forall>k. \<exists>j\<ge>k. isValidVertex (verts ! (snth rs j mod length verts)) g \<or>
                      hasValidOutgoingEdge (verts ! (snth rs j mod length verts)) g"
  obtain j where "n + k \<le> j" "isValidVertex (verts ! (snth rs j mod length verts)) g \<or>
                      hasValidOutgoingEdge (verts ! (snth rs j mod length verts)) g"
    using f by blast
  then show "\<exists>j\<ge>k. isValidVertex (verts ! (snth (sdrop n rs) j mod length verts)) g \<or>
                   hasValidOutgoingEdge (verts ! (snth (sdrop n rs) j mod length verts)) g"
    by (intro exI [of _ "j - n"]) (simp add: sdrop_snth)
qed

lemma retry_vertex_fair:
  assumes "fair_draws g verts rs"
  shows "\<exists>y n. retry_vertex g verts x rs = Some (y, sdrop n rs) \<and> (isValidVertex y g \<or> hasValidOutgoingEdge y g)"
proof -
  obtain j where "isValidVertex (verts ! (snth rs j mod length verts)) g \<or> hasValidOutgoingEdge (verts ! (snth rs j mod length verts)) g"
    using assms by (auto simp: fair_draws_def)
  then show ?thesis by (rule retry_vertex_sdrop)
qed

lemma add_one_vehicle_fair:
  assumes "fair_draws (sim_graph s) (m_vertices s) (m_rand s)"
  shows "\<exists>s' c. add_one_vehicle jk s = Some s' \<and> m_vertices s' = m_vertices s \<and> sim_graph s' = sim_graph s \<and>
           fair_draws (sim_graph s) (m_vertices s) (m_rand s') \<and> m_vehicles s' = m_vehicles s @ [c] \<and>
           (isValidVertex (start c) (sim_graph s) \<or> hasValidOutgoingEdge (start c) (sim_graph s)) \<and>
           (isValidVertex (goal c) (sim_graph s) \<or> hasValidOutgoingEdge (goal c) (sim_graph s))"
proof -
  let ?vs = "m_vertices s" and ?g = "sim_graph s" and ?rs = "m_rand s"
  have f2: "fair_draws ?g ?vs (stl (stl ?rs))" using fair_draws_sdrop [OF assms, of 2] by (simp add: eval_nat_numeral)
  obtain x n1 where x: "retry_vertex ?g ?vs (?vs ! (shd ?rs mod length ?vs)) (stl (stl ?rs)) = Some (x, sdrop n1 (stl (stl ?rs)))"
      "isValidVertex x ?g \<or> hasValidOutgoingEdge x ?g"
    using retry_vertex_fair [OF f2] by blast
  have f3: "fair_draws ?g ?vs (sdrop n1 (stl (stl ?rs)))" using fair_draws_sdrop [OF f2] .
  obtain y n2 where y: "retry_vertex ?g ?vs (?vs ! (shd (stl ?rs) mod length ?vs)) (sdrop n1 (stl (stl ?rs))) =
        Some (y, sdrop n2 (sdrop n1 (stl (stl ?rs))))" "isValidVertex y ?g \<or> hasValidOutgoingEdge y ?g"
    using retry_vertex_fair [OF f3] by blast
  have f4: "fair_draws ?g ?vs (sdrop n2 (sdrop n1 (stl (stl ?rs))))" using fair_draws_sdrop [OF f3] .
  show ?thesis using x y f4
    by (simp add: add_one_vehicle_def Let_def addVehicle_def new_Vehicule_def split: prod.splits)
qed

text \<open>
  C16: on a non-empty vertex list and a fair stream of draws, \<open>setVehicleCount\<close> returns for
  every count, and each vehicle it adds starts and ends at a vertex its rejection loops
  accept (valid, or with a valid outgoing edge): the loops redraw until a draw is accepted.
\<close>

theorem setVehicleCount_returns:
  assumes "m_vertices s \<noteq> []" "fair_draws (sim_graph s) (m_vertices s) (m_rand s)"
  shows "\<exists>s'. setVehicleCount count jk s = Some s' \<and>
           list_all (\<lambda>c. (isValidVertex (start c) (sim_graph s) \<or> hasValidOutgoingEdge (start c) (sim_graph s)) \<and>
                        (isValidVertex (goal c) (sim_graph s) \<or> hasValidOutgoingEdge (goal c) (sim_graph s)))
                    (drop (length (m_vehicles s)) (m_vehicles s'))"
proof -
  let ?A = "\<lambda>c. (isValidVertex (start c) (sim_graph s) \<or> hasValidOutgoingEdge (start c) (sim_graph s)) \<and>
                (isValidVertex (goal c) (sim_graph s) \<or> hasValidOutgoingEdge (goal c) (sim_graph s))"
  have "\<exists>s' cs. add_vehicles k jk t = Some s' \<and> m_vehicles s' = m_vehicles t @ cs \<and> list_all ?A cs"
    if "m_vertices t = m_vertices s" "sim_graph t = sim_graph s" "fair_draws (sim_graph s) (m_vertices s) (m_rand t)" for k t
    using that
  proof (induction k arbitrary: t)
    case (Suc k)
    obtain t' c where t': "add_one_vehicle jk t = Some t'" "m_vertices t' = m_vertices t" "sim_graph t' = sim_graph t"
        "fair_draws (sim_graph t) (m_vertices t) (m_rand t')" "m_vehicles t' = m_vehicles t @ [c]" "?A c"
      using add_one_vehicle_fair [of t jk] Suc.prems by auto
    obtain u cs where "add_vehicles k jk t' = Some u" "m_vehicles u = m_vehicles t' @ cs" "list_all ?A cs"
      using Suc.IH [of t'] t' Suc.prems by auto
    then show ?case using t' Suc.prems assms(1) by (intro exI [of _ u] exI [of _ "c # cs"]) simp
  qed simp
  moreover have "length (m_vehicles (remove_vehicles k t)) \<le> length (m_vehicles t)" for k t
    by (simp add: remove_vehicles_take)
  ultimately show ?thesis using assms(2) by (fastforce simp: setVehicleCount_def Let_def)
qed

end
