(* ===== verification/QtCore.thy ===== *)
theory QtCore
  imports V2V_Prelude
begin

text \<open>
  The C++ and Qt primitives the user interface of the program is written with, modelled
  from their documented behaviour (they are libraries the sources call): the conversion
  of a \<open>double\<close> to \<open>int\<close> (truncation towards zero), \<open>QString::number\<close> on an \<open>int\<close>
  (its decimal text) and on a \<open>double\<close> in the fixed format with a number of decimals,
  \<open>QString::replace\<close> of every occurrence of a non-empty pattern, the \<open>OutCubic\<close>
  easing curve of \<open>QEasingCurve\<close> and the interpolation of an \<open>int\<close> coordinate by a
  \<open>QPropertyAnimation\<close>. Texts are \<open>string\<close>s of UTF-8 bytes, so that the icons of the
  source's labels are written byte by byte. The lemmas: the decimal text of an \<open>int\<close>
  determines it (its digits read back give the number), and the truncation of a value
  between two integers stays between them.
\<close>

definition to_int :: "real \<Rightarrow> int" where
  "to_int x = (if 0 \<le> x then \<lfloor>x\<rfloor> else \<lceil>x\<rceil>)"

fun nat_digits :: "nat \<Rightarrow> string" where
  "nat_digits n = (if n < 10 then [char_of (48 + n)] else nat_digits (n div 10) @ [char_of (48 + n mod 10)])"

declare nat_digits.simps [simp del]

definition number :: "int \<Rightarrow> string" where
  "number i = (if i < 0 then ''-'' @ nat_digits (nat (- i)) else nat_digits (nat i))"

function replace_all :: "string \<Rightarrow> string \<Rightarrow> string \<Rightarrow> string" where
  "replace_all pat rep s =
     (if pat = [] \<or> s = [] then s
      else if take (length pat) s = pat then rep @ replace_all pat rep (drop (length pat) s)
      else hd s # replace_all pat rep (tl s))"
  by pat_completeness auto
termination by (relation "measure (\<lambda>(pat, rep, s). length s)") auto

declare replace_all.simps [simp del]

text \<open>
  \<open>QString::number(x, 'f', p)\<close>: the value rounded to \<open>p\<close> decimals (halves away from
  zero), at least one digit before the point, a minus sign for a negative value.
\<close>

definition fixed :: "nat \<Rightarrow> real \<Rightarrow> string" where
  "fixed p x =
     (let m = nat \<lfloor>\<bar>x\<bar> * 10 ^ p + 1 / 2\<rfloor>; ds = nat_digits m;
          ds' = replicate (Suc p - length ds) (CHR ''0'') @ ds;
          body = (if p = 0 then ds' else take (length ds' - p) ds' @ ''.'' @ drop (length ds' - p) ds')
      in if x < 0 then ''-'' @ body else body)"

text \<open>\<open>QEasingCurve::OutCubic\<close> and the interpolation \<open>int(f + (t - f) * progress)\<close> of an \<open>int\<close>.\<close>

definition easeOutCubic :: "real \<Rightarrow> real" where
  "easeOutCubic t = (t - 1) ^ 3 + 1"

definition interpolate_int :: "int \<Rightarrow> int \<Rightarrow> real \<Rightarrow> int" where
  "interpolate_int f t progress = to_int (real_of_int f + real_of_int (t - f) * progress)"

text \<open>The digits of a decimal text read back.\<close>

definition digits_value :: "string \<Rightarrow> nat" where
  "digits_value s = foldl (\<lambda>n c. 10 * n + (of_char c - 48)) 0 s"

lemma digits_value_snoc [simp]: "digits_value (s @ [c]) = 10 * digits_value s + (of_char c - 48)"
  by (simp add: digits_value_def)

lemma of_char_digit [simp]: "d < 10 \<Longrightarrow> (of_char (char_of (48 + d :: nat)) :: nat) = 48 + d"
  by (simp add: of_char_of)

lemma nat_digits_value: "digits_value (nat_digits n) = n"
  by (induction n rule: nat_digits.induct) (subst nat_digits.simps, simp add: digits_value_def)

lemma nat_digits_digit: "c \<in> set (nat_digits n) \<Longrightarrow> 48 \<le> (of_char c :: nat) \<and> (of_char c :: nat) < 58"
  by (induction n rule: nat_digits.induct) (subst (asm) nat_digits.simps, auto split: if_splits)

lemma nat_digits_nonempty: "nat_digits n \<noteq> []"
  by (subst nat_digits.simps) simp

lemma nat_digits_not_minus: "hd (nat_digits n) \<noteq> CHR ''-''"
proof -
  have "nat_digits n \<noteq> []" by (rule nat_digits_nonempty)
  then have "hd (nat_digits n) \<in> set (nat_digits n)" by simp
  from nat_digits_digit [OF this] show ?thesis by auto
qed

lemma nat_digits_inj: "nat_digits m = nat_digits n \<Longrightarrow> m = n"
  by (metis nat_digits_value)

lemma number_inj: "number a = number b \<longleftrightarrow> a = b"
proof
  assume e: "number a = number b"
  have m: "hd (''-'' @ nat_digits k) \<noteq> hd (nat_digits k')" for k k' using nat_digits_not_minus [of k'] by simp
  show "a = b"
  proof (cases "a < 0")
    case True
    show ?thesis
    proof (cases "b < 0")
      case True
      then show ?thesis using \<open>a < 0\<close> e nat_digits_inj [of "nat (- a)" "nat (- b)"] by (simp add: number_def)
    next
      case False
      then show ?thesis using \<open>a < 0\<close> e m [of "nat (- a)" "nat b"] by (simp add: number_def)
    qed
  next
    case False
    show ?thesis
    proof (cases "b < 0")
      case True
      then show ?thesis using \<open>\<not> a < 0\<close> e m [of "nat (- b)" "nat a"] by (simp add: number_def)
    next
      case False
      then show ?thesis using \<open>\<not> a < 0\<close> e nat_digits_inj [of "nat a" "nat b"] by (simp add: number_def)
    qed
  qed
qed simp

lemma to_int_between:
  assumes "real_of_int a \<le> x" "x \<le> real_of_int b"
  shows "a \<le> to_int x \<and> to_int x \<le> b"
proof (cases "0 \<le> x")
  case True
  then have "a \<le> \<lfloor>x\<rfloor>" "\<lfloor>x\<rfloor> \<le> b" using assms by (auto simp: le_floor_iff floor_le_iff)
  then show ?thesis using True by (simp add: to_int_def)
next
  case False
  then have "a \<le> \<lceil>x\<rceil>" "\<lceil>x\<rceil> \<le> b" using assms by (auto simp: le_ceiling_iff ceiling_le_iff)
  then show ?thesis using False by (simp add: to_int_def)
qed

lemma easeOutCubic_range: "0 \<le> t \<Longrightarrow> t \<le> 1 \<Longrightarrow> 0 \<le> easeOutCubic t \<and> easeOutCubic t \<le> 1"
proof -
  assume t: "0 \<le> t" "t \<le> 1"
  have "0 \<le> 1 - t" "1 - t \<le> 1" using t by simp_all
  then have "(1 - t) ^ 3 \<le> 1" "0 \<le> (1 - t) ^ 3" by (simp_all add: power_le_one)
  moreover have "(t - 1) ^ 3 = - ((1 - t) ^ 3)" by (simp add: power_minus_odd [symmetric])
  ultimately show ?thesis by (simp add: easeOutCubic_def)
qed

lemma interpolate_between:
  assumes "0 \<le> p" "p \<le> 1"
  shows "min f t \<le> interpolate_int f t p \<and> interpolate_int f t p \<le> max f t"
proof -
  let ?x = "real_of_int f + real_of_int (t - f) * p"
  have "real_of_int (min f t) \<le> ?x \<and> ?x \<le> real_of_int (max f t)" (is "?l \<and> ?r")
  proof (cases "f \<le> t")
    case True
    have "0 \<le> (real_of_int t - real_of_int f) * p" "0 \<le> (real_of_int t - real_of_int f) * (1 - p)"
      using assms True by simp_all
    then show ?thesis using True by (simp add: algebra_simps)
  next
    case False
    have "0 \<le> (real_of_int f - real_of_int t) * p" "0 \<le> (real_of_int f - real_of_int t) * (1 - p)"
      using assms False by simp_all
    then show ?thesis using False by (simp add: algebra_simps)
  qed
  then have ?l ?r by simp_all
  then show ?thesis unfolding interpolate_int_def by (rule to_int_between)
qed

end
