(* ===== verification/MapProjection.thy ===== *)
theory MapProjection
  imports QtCore "HOL-Library.Signed_Division"
begin

text \<open>
  The Web-Mercator projection of the map view (\<open>src/src/map_view.cpp\<close>): the file's
  \<open>deg2rad\<close> and \<open>rad2deg\<close>, the static members \<open>MapView::lonlatToPixel\<close> and
  \<open>MapView::pixelToLonlat\<close> (world pixels of a 256-pixel tile pyramid at zoom z, with
  \<open>std::pow(2.0, z)\<close> as \<open>2 powr z\<close>), \<open>metersPerPixelAtLat\<close>, and the tile and
  scale-bar arithmetic of \<open>drawTiles\<close> and \<open>drawHUD\<close>. Doubles are reals; the C++
  conversions of a double to \<open>int\<close> truncate towards zero and the \<open>int\<close> divisions and
  remainders of the source are \<open>sdiv\<close> and \<open>smod\<close> (HOL-Library.Signed_Division). The two
  round trips show that the projection is a bijection between the plane of world pixels
  and the longitudes times the open latitude interval (-90, 90), as the comment of
  \<open>lonLatToScreen\<close> (\<open>the inverse of pixelToLonlat\<close>) says.
\<close>

definition deg2rad :: "real \<Rightarrow> real" where "deg2rad d = d * pi / 180"
definition rad2deg :: "real \<Rightarrow> real" where "rad2deg r = r * 180 / pi"

definition lonlatToPixel :: "real \<Rightarrow> real \<Rightarrow> int \<Rightarrow> real \<times> real" where
  "lonlatToPixel lonDeg latDeg z =
     (let n = 2 powr real_of_int z; latRad = deg2rad latDeg
      in ((lonDeg + 180) / 360 * 256 * n, (1 - ln (tan latRad + 1 / cos latRad) / pi) / 2 * 256 * n))"

definition pixelToLonlat :: "real \<Rightarrow> real \<Rightarrow> int \<Rightarrow> real \<times> real" where
  "pixelToLonlat px py z =
     (let n = 2 powr real_of_int z; lonDeg = px / (256 * n) * 360 - 180;
          y = pi * (1 - 2 * py / (256 * n))
      in (lonDeg, rad2deg (arctan (0.5 * (exp y - exp (- y))))))"

text \<open>\<open>metersPerPixelAtLat\<close>, with the zoom of the view as an argument; \<open>1<<zoom\<close> is \<open>2^zoom\<close> on the clamped zooms 0..20.\<close>

definition metersPerPixelAtLat :: "int \<Rightarrow> real \<Rightarrow> real" where
  "metersPerPixelAtLat zoom latDeg = cos (deg2rad latDeg) * 2 * pi * 6378137 / (256 * 2 ^ nat zoom)"

text \<open>The tile zoom of \<open>drawTiles\<close>: in low-quality mode the zooms 4, 8, 10 and 13 only.\<close>

definition tile_zoom :: "bool \<Rightarrow> int \<Rightarrow> int" where
  "tile_zoom lowQuality zoom =
     (if lowQuality then
        (if 13 \<le> zoom then 13 else if 10 \<le> zoom then 10 else if 8 \<le> zoom then 8 else if 4 \<le> zoom then 4 else zoom)
      else zoom)"

text \<open>The column of a tile wrapped around the world, \<open>((tx % n) + n) % n\<close>.\<close>

definition tile_wrap :: "int \<Rightarrow> int \<Rightarrow> int" where
  "tile_wrap tx n = ((tx smod n) + n) smod n"

text \<open>
  The first tile and the number of further tiles along one axis: the offset scaled to the
  tile zoom and truncated, then \<open>int(std::floor(scaled / T))\<close> and
  \<open>int(std::ceil((scaled + extent / scale) / T)) - first\<close>, where every division is one of
  \<open>int\<close>s (so the \<open>floor\<close> and \<open>ceil\<close> act on an integer).
\<close>

definition scaled_offset :: "int \<Rightarrow> int \<Rightarrow> real \<Rightarrow> int" where
  "scaled_offset zoomDiff scale off =
     (if 0 \<le> zoomDiff then to_int (off / real_of_int scale) else to_int (off * real_of_int scale))"

definition tile_span :: "int \<Rightarrow> int \<Rightarrow> int \<Rightarrow> int \<times> int" where
  "tile_span scaled extent scale =
     (let t0 = scaled sdiv 256 in (t0, (scaled + extent sdiv scale) sdiv 256 - t0))"

text \<open>The scale bar of \<open>drawHUD\<close>: the last of the round lengths whose bar fits in 150 pixels.\<close>

definition niceVals :: "int list" where
  "niceVals = [5, 10, 20, 50, 100, 200, 500, 1000, 2000, 5000, 10000, 20000]"

definition scale_bar :: "real \<Rightarrow> int \<times> int" where
  "scale_bar mpp =
     (let bestM = fold (\<lambda>v b. if to_int (real_of_int v / mpp) \<le> 150 then v else b) niceVals 100
      in (bestM, to_int (real_of_int bestM / mpp)))"

lemma tan_sec_pos:
  assumes "- (pi / 2) < x" "x < pi / 2"
  shows "0 < tan x + 1 / cos x" "tan x + 1 / cos x = (1 + sin x) / cos x"
proof -
  have c: "0 < cos x" using assms by (simp add: cos_gt_zero_pi)
  have "sin x \<noteq> -1"
  proof
    assume "sin x = -1"
    then have "cos x ^ 2 = 0" using sin_cos_squared_add [of x] by simp
    then show False using c by simp
  qed
  then have "0 < 1 + sin x" using sin_ge_minus_one [of x] by linarith
  moreover show e: "tan x + 1 / cos x = (1 + sin x) / cos x" by (simp add: tan_def add_divide_distrib add.commute)
  ultimately show "0 < tan x + 1 / cos x" using c e by simp
qed

lemma gd_inverse:
  assumes "- (pi / 2) < x" "x < pi / 2"
  shows "arctan (0.5 * (exp (ln (tan x + 1 / cos x)) - exp (- ln (tan x + 1 / cos x)))) = x"
proof -
  let ?t = "tan x + 1 / cos x"
  have c: "0 < cos x" using assms by (simp add: cos_gt_zero_pi)
  have p: "0 < ?t" and t: "?t = (1 + sin x) / cos x" using tan_sec_pos [OF assms] by simp_all
  have p1: "0 < 1 + sin x" using p t c by (simp add: zero_less_divide_iff)
  have "exp (- ln ?t) = 1 / ?t" using p by (simp add: exp_minus inverse_eq_divide)
  then have e: "0.5 * (exp (ln ?t) - exp (- ln ?t)) = 0.5 * (?t - 1 / ?t)" using p by simp
  have "?t - 1 / ?t = ((1 + sin x)^2 - (cos x)^2) / (cos x * (1 + sin x))"
    using t c p1 by (simp add: field_simps power2_eq_square)
  also have "\<dots> = 2 * sin x * (1 + sin x) / (cos x * (1 + sin x))"
    using sin_cos_squared_add [of x] by (simp add: power2_eq_square algebra_simps)
  also have "\<dots> = 2 * tan x" using p1 by (simp add: tan_def)
  finally have "0.5 * (?t - 1 / ?t) = tan x" by simp
  then have h: "0.5 * (exp (ln ?t) - exp (- ln ?t)) = tan x" using e by simp
  show ?thesis by (simp only: h arctan_tan [OF assms])
qed

lemma rad2deg_deg2rad [simp]: "rad2deg (deg2rad d) = d"
  by (simp add: rad2deg_def deg2rad_def)

lemma lonlat_pixel_inverse:
  assumes "- 90 < latDeg" "latDeg < 90"
  shows "pixelToLonlat (fst (lonlatToPixel lonDeg latDeg z)) (snd (lonlatToPixel lonDeg latDeg z)) z = (lonDeg, latDeg)"
proof -
  let ?n = "2 powr real_of_int z" and ?x = "deg2rad latDeg"
  let ?L = "ln (tan ?x + 1 / cos ?x)"
  have n: "0 < ?n" by simp
  have "pi * (- 90) < pi * latDeg" "pi * latDeg < pi * 90"
    using assms pi_gt_zero by (simp_all only: mult_strict_left_mono)
  then have x: "- (pi / 2) < ?x" "?x < pi / 2" by (simp_all add: deg2rad_def field_simps)
  have A: "fst (lonlatToPixel lonDeg latDeg z) = (lonDeg + 180) / 360 * 256 * ?n"
    and B: "snd (lonlatToPixel lonDeg latDeg z) = (1 - ?L / pi) / 2 * 256 * ?n"
    by (simp_all add: lonlatToPixel_def Let_def)
  have lon: "(lonDeg + 180) / 360 * 256 * ?n / (256 * ?n) * 360 - 180 = lonDeg" using n by (simp add: field_simps)
  have y: "pi * (1 - 2 * ((1 - ?L / pi) / 2 * 256 * ?n) / (256 * ?n)) = ?L"
    using n pi_gt_zero by (simp add: field_simps)
  show ?thesis
    unfolding A B pixelToLonlat_def Let_def lon y by (simp only: gd_inverse [OF x] rad2deg_deg2rad)
qed
lemma deg2rad_rad2deg [simp]: "deg2rad (rad2deg r) = r"
  by (simp add: rad2deg_def deg2rad_def)

lemma sec_arctan_sinh: "tan (arctan (sinh y)) + 1 / cos (arctan (sinh y)) = exp (y :: real)"
proof -
  have "sqrt (1 + (sinh y)\<^sup>2) = cosh y"
  proof -
    have "1 + (sinh y)\<^sup>2 = (cosh y)\<^sup>2" using cosh_square_eq [of y] by (simp add: add.commute)
    then show ?thesis using cosh_real_pos [of y] by simp
  qed
  then have "1 / cos (arctan (sinh y)) = cosh y" by (simp add: cos_arctan)
  then show ?thesis by (simp add: tan_arctan sinh_plus_cosh)
qed

lemma pixel_lonlat_inverse:
  "lonlatToPixel (fst (pixelToLonlat px py z)) (snd (pixelToLonlat px py z)) z = (px, py)"
proof -
  let ?n = "2 powr real_of_int z"
  let ?y = "pi * (1 - 2 * py / (256 * ?n))"
  have n: "0 < ?n" by simp
  have s: "0.5 * (exp ?y - exp (- ?y)) = sinh ?y" by (simp add: sinh_def)
  have A: "fst (pixelToLonlat px py z) = px / (256 * ?n) * 360 - 180"
    and B: "snd (pixelToLonlat px py z) = rad2deg (arctan (sinh ?y))"
    by (simp_all only: pixelToLonlat_def Let_def fst_conv snd_conv s)
  have lon: "(px / (256 * ?n) * 360 - 180 + 180) / 360 * 256 * ?n = px" using n by (simp add: field_simps)
  have lat: "(1 - ?y / pi) / 2 * 256 * ?n = py" using n pi_gt_zero by (simp add: field_simps)
  show ?thesis
    unfolding A B lonlatToPixel_def Let_def deg2rad_rad2deg sec_arctan_sinh ln_exp lon lat ..
qed
text \<open>
  C19: the projection is a bijection: for every latitude strictly between -90 and 90
  degrees \<open>pixelToLonlat\<close> reads the world pixel of a position back as the same longitude
  and latitude, and \<open>lonlatToPixel\<close> maps the position read at any world pixel (inside
  or outside the map square) back to that pixel, at every zoom.
\<close>

theorem mercator_roundtrip:
  "(- 90 < latDeg \<and> latDeg < 90 \<longrightarrow>
      pixelToLonlat (fst (lonlatToPixel lonDeg latDeg z)) (snd (lonlatToPixel lonDeg latDeg z)) z = (lonDeg, latDeg)) \<and>
   lonlatToPixel (fst (pixelToLonlat px py z)) (snd (pixelToLonlat px py z)) z = (px, py)"
  using lonlat_pixel_inverse pixel_lonlat_inverse by blast

lemma pixelToLonlat_scale:
  "pixelToLonlat (x * 2 powr real_of_int (z' - z)) (y * 2 powr real_of_int (z' - z)) z' = pixelToLonlat x y z"
proof -
  have e: "2 powr real_of_int z' = 2 powr real_of_int z * 2 powr real_of_int (z' - z)"
    by (simp add: powr_add [symmetric])
  have p: "0 < (2::real) powr real_of_int (z' - z)" "0 < (2::real) powr real_of_int z" by simp_all
  have a: "x * 2 powr real_of_int (z' - z) / (256 * 2 powr real_of_int z') = x / (256 * 2 powr real_of_int z)"
    and b: "2 * (y * 2 powr real_of_int (z' - z)) / (256 * 2 powr real_of_int z') = 2 * y / (256 * 2 powr real_of_int z)"
    using p by (simp_all add: e field_simps)
  show ?thesis unfolding pixelToLonlat_def Let_def a b ..
qed

lemma pixelToLonlat_lon_mono: "px \<le> px' \<Longrightarrow> fst (pixelToLonlat px py z) \<le> fst (pixelToLonlat px' py' z)"
  by (simp add: pixelToLonlat_def Let_def divide_right_mono)

lemma pixelToLonlat_lat_anti: "py \<le> py' \<Longrightarrow> snd (pixelToLonlat px' py' z) \<le> snd (pixelToLonlat px py z)"
proof -
  assume le: "py \<le> py'"
  let ?n = "2 powr real_of_int z"
  let ?y = "pi * (1 - 2 * py / (256 * ?n))" and ?y' = "pi * (1 - 2 * py' / (256 * ?n))"
  have "2 * py / (256 * ?n) \<le> 2 * py' / (256 * ?n)" using le by (simp add: divide_right_mono)
  then have y: "?y' \<le> ?y" by (simp add: mult_left_mono)
  have e: "exp (- ?y) \<le> exp (- ?y')" "exp ?y' \<le> exp ?y" using y by simp_all
  have "exp ?y' - exp (- ?y') \<le> exp ?y - exp (- ?y)" using e by linarith
  then have "0.5 * (exp ?y' - exp (- ?y')) \<le> 0.5 * (exp ?y - exp (- ?y))" by (rule mult_left_mono) simp
  then have "arctan (0.5 * (exp ?y' - exp (- ?y'))) \<le> arctan (0.5 * (exp ?y - exp (- ?y)))" by (simp add: arctan_le_iff)
  then show ?thesis by (simp add: pixelToLonlat_def Let_def rad2deg_def divide_right_mono)
qed

lemma tile_wrap_eq_mod: "0 < n \<Longrightarrow> tile_wrap tx n = tx mod n"
proof -
  assume n: "0 < n"
  let ?r = "tx smod n"
  have r: "- n < ?r" "?r < n" using smod_int_range [of n tx] n by auto
  have "tx mod n = (?r + tx sdiv n * n) mod n" by (simp only: smod_sdiv_mult_eq)
  then have "?r mod n = tx mod n" by (simp only: mod_mult_self1)
  then have "(?r + n) mod n = tx mod n" by simp
  moreover have "(?r + n) smod n = (?r + n) mod n" using r n by (simp add: smod_mod_positive)
  ultimately show ?thesis by (simp add: tile_wrap_def)
qed

lemma floor_div_256: "\<lfloor>x / 256\<rfloor> = \<lfloor>x :: real\<rfloor> div 256"
proof (rule floor_unique)
  let ?m = "\<lfloor>x\<rfloor> div 256"
  have d: "?m * 256 + \<lfloor>x\<rfloor> mod 256 = \<lfloor>x\<rfloor>" "\<lfloor>x\<rfloor> mod 256 < 256" "0 \<le> \<lfloor>x\<rfloor> mod 256"
    by simp_all
  have a: "?m * 256 \<le> \<lfloor>x\<rfloor>" using d by linarith
  have b: "\<lfloor>x\<rfloor> < (?m + 1) * 256" using d by (simp add: distrib_right)
  have "real_of_int (?m * 256) \<le> real_of_int \<lfloor>x\<rfloor>" using a by (simp only: of_int_le_iff)
  then have "real_of_int ?m * 256 \<le> x" using of_int_floor_le [of x] by simp linarith
  then show "real_of_int ?m \<le> x / 256" by simp
  have "real_of_int (\<lfloor>x\<rfloor> + 1) \<le> real_of_int ((?m + 1) * 256)" using b by (simp only: of_int_le_iff)
  then have "x < (real_of_int ?m + 1) * 256" using real_of_int_floor_add_one_gt [of x] by simp linarith
  then show "x / 256 < real_of_int ?m + 1" by simp
qed

lemma sdiv_nonneg: "0 \<le> a \<Longrightarrow> 0 < b \<Longrightarrow> a sdiv b = a div (b :: int)"
  by (simp add: signed_divide_int_def sgn_if)

lemma tile_span_covers:
  assumes "0 \<le> off" "0 \<le> sx" "sx < real_of_int extent" "tile_span (to_int off) extent 1 = (t0, nt)"
  shows "\<exists>k. t0 \<le> k \<and> k \<le> t0 + nt \<and> real_of_int (k * 256) - off \<le> sx \<and> sx < real_of_int ((k + 1) * 256) - off"
proof -
  have e: "0 \<le> extent" using assms(2,3) by linarith
  have so: "to_int off = \<lfloor>off\<rfloor>" using assms(1) by (simp add: to_int_def)
  have f0: "0 \<le> \<lfloor>off\<rfloor>" using assms(1) by simp
  have t0: "t0 = \<lfloor>off\<rfloor> div 256" and tn: "t0 + nt = (\<lfloor>off\<rfloor> + extent) div 256"
    using assms(4) f0 e by (auto simp: tile_span_def so sdiv_nonneg Let_def)
  let ?k = "\<lfloor>(off + sx) / 256\<rfloor>"
  have k: "?k = \<lfloor>off + sx\<rfloor> div 256" by (rule floor_div_256)
  have "\<lfloor>off\<rfloor> \<le> \<lfloor>off + sx\<rfloor>" using assms(2) by (simp add: floor_mono)
  then have l: "t0 \<le> ?k" using t0 k by (simp add: zdiv_mono1)
  have "off + sx < real_of_int (\<lfloor>off\<rfloor> + extent + 1)"
    using assms(3) real_of_int_floor_add_one_gt [of off] by linarith
  then have "\<lfloor>off + sx\<rfloor> < \<lfloor>off\<rfloor> + extent + 1" by (simp only: floor_less_iff)
  then have "\<lfloor>off + sx\<rfloor> \<le> \<lfloor>off\<rfloor> + extent" by simp
  then have u: "?k \<le> t0 + nt" using tn k by (simp add: zdiv_mono1)
  have "real_of_int ?k * 256 \<le> off + sx" "off + sx < (real_of_int ?k + 1) * 256"
    using of_int_floor_le [of "(off + sx) / 256"] real_of_int_floor_add_one_gt [of "(off + sx) / 256"]
    by (simp_all add: field_simps)
  then show ?thesis using l u by (intro exI [of _ ?k]) simp
qed

lemma fold_last_fit:
  "fold (\<lambda>v b. if P v then v else b) xs b0 = (if filter P xs = [] then b0 else last (filter P xs))"
  by (induction xs arbitrary: b0) auto

lemma sorted_le_last: "sorted ys \<Longrightarrow> y \<in> set ys \<Longrightarrow> y \<le> last ys"
  by (induction ys) (auto simp: last_in_set order_trans)

text \<open>
  When the smallest round length fits, the scale bar of \<open>drawHUD\<close> shows one of the
  round lengths, its bar is at most 150 pixels long, and no longer round length fits.
\<close>

theorem scale_bar_best:
  assumes "to_int (5 / mpp) \<le> 150"
  shows "fst (scale_bar mpp) \<in> set niceVals \<and> snd (scale_bar mpp) \<le> 150 \<and>
         (\<forall>v\<in>set niceVals. to_int (real_of_int v / mpp) \<le> 150 \<longrightarrow> v \<le> fst (scale_bar mpp))"
proof -
  let ?P = "\<lambda>v. to_int (real_of_int v / mpp) \<le> 150"
  let ?ys = "filter ?P niceVals"
  have "5 \<in> set niceVals" by (simp add: niceVals_def)
  then have "5 \<in> set ?ys" using assms by (simp only: set_filter mem_Collect_eq) simp
  then have ne: "?ys \<noteq> []" by (metis empty_iff list.set(1))
  have b: "fst (scale_bar mpp) = last ?ys" using ne by (simp add: scale_bar_def Let_def fold_last_fit)
  have "last ?ys \<in> set ?ys" using ne by (rule last_in_set)
  moreover have "sorted niceVals" by (simp add: niceVals_def)
  then have "sorted ?ys" by (simp only: sorted_wrt_filter)
  ultimately show ?thesis
    using b sorted_le_last [of ?ys] by (auto simp: scale_bar_def Let_def)
qed
end
