(* ===== verification/MapView.thy ===== *)
theory MapView
  imports MapProjection Simulator
begin

text \<open>
  The interactive state of \<open>MapView\<close> (\<open>src/include/map_view.h\<close>,
  \<open>src/src/map_view.cpp\<close>): the camera (zoom and world offset of the top-left corner),
  the drag state of the mouse, the tracked vehicle, the display toggles, the tile
  templates, caches and downloads in flight. The widget size is part of the state.
  \<open>QPoint\<close>s are pairs of \<open>int\<close>s. The tracked \<open>Vehicule*\<close> is the identifier of the vehicle
  (identifiers are unique in every reachable state of the driver, \<open>Simulator.reachable_ids\<close>). The view
  holds its simulator, so the handlers that act on it take and return the pair of the
  view and the \<open>Simulator\<close>. Signals, the cursor text and the repaint requests are not
  modelled; the delete button of the overlay is the one overlay state the view sets.
\<close>

record RoadSegment =
  seg_lon1 :: real
  seg_lat1 :: real
  seg_lon2 :: real
  seg_lat2 :: real

record TileKey =
  tk_z :: int
  tk_x :: int
  tk_y :: int

record MapView =
  m_showTransitiveConnections :: bool
  m_drawDirectConnections :: bool
  m_showRanges :: bool
  m_showRoads :: bool
  m_validRoads :: "RoadSegment list"
  m_roadsPrecomputed :: bool
  m_lowQualityMode :: bool
  m_darkTheme :: bool
  m_darkTilesTemplate :: string
  m_lightTilesTemplate :: string
  m_tilesTemplate :: string
  m_darkCache :: "string list"
  m_lightCache :: "string list"
  m_inflight :: "TileKey set"
  m_zoom :: int
  m_offsetX :: real
  m_offsetY :: real
  m_dragging :: bool
  m_didDrag :: bool
  m_lastPos :: "int \<times> int"
  m_pressPos :: "int \<times> int"
  m_trackedVehicle :: "vid option"
  m_followingVehicle :: bool
  m_minRequestIntervalMs :: int
  m_lastRequestMs :: int
  m_timers :: "(TileKey \<times> int) list"
  mv_width :: int
  mv_height :: int
  mv_deleteButton :: bool

definition new_MapView :: "int \<Rightarrow> int \<Rightarrow> MapView" where
  "new_MapView w h =
     \<lparr>m_showTransitiveConnections = False, m_drawDirectConnections = True, m_showRanges = True,
      m_showRoads = False, m_validRoads = [], m_roadsPrecomputed = False, m_lowQualityMode = True,
      m_darkTheme = True, m_darkTilesTemplate = ''https://basemaps.cartocdn.com/dark_all/{z}/{x}/{y}.png'',
      m_lightTilesTemplate = ''https://tile.openstreetmap.org/{z}/{x}/{y}.png'',
      m_tilesTemplate = ''https://basemaps.cartocdn.com/dark_all/{z}/{x}/{y}.png'',
      m_darkCache = [], m_lightCache = [], m_inflight = {}, m_zoom = 13, m_offsetX = 0, m_offsetY = 0,
      m_dragging = False, m_didDrag = False, m_lastPos = (0, 0), m_pressPos = (0, 0),
      m_trackedVehicle = None, m_followingVehicle = False, m_minRequestIntervalMs = 100,
      m_lastRequestMs = 0, m_timers = [], mv_width = w, mv_height = h, mv_deleteButton = False\<rparr>"

definition clamp_int :: "int \<Rightarrow> int \<Rightarrow> int \<Rightarrow> int" where
  "clamp_int v lo hi = (if v < lo then lo else if hi < v then hi else v)"

subsection \<open>The camera\<close>

definition screenToLonLat :: "MapView \<Rightarrow> int \<times> int \<Rightarrow> real \<times> real" where
  "screenToLonLat v p =
     (case p of (x, y) \<Rightarrow> pixelToLonlat (m_offsetX v + real_of_int x) (m_offsetY v + real_of_int y) (m_zoom v))"

definition lonLatToScreen :: "MapView \<Rightarrow> real \<Rightarrow> real \<Rightarrow> real \<times> real" where
  "lonLatToScreen v lon lat =
     (case lonlatToPixel lon lat (m_zoom v) of (px, py) \<Rightarrow> (px - m_offsetX v, py - m_offsetY v))"

definition screen_center :: "MapView \<Rightarrow> int \<times> int" where
  "screen_center v = (mv_width v div 2, mv_height v div 2)"

definition centerLon :: "MapView \<Rightarrow> real" where
  "centerLon v = fst (pixelToLonlat (real_of_int (mv_width v) / 2 - m_offsetX v)
                                    (real_of_int (mv_height v) / 2 - m_offsetY v) (m_zoom v))"

definition centerLat :: "MapView \<Rightarrow> real" where
  "centerLat v = snd (pixelToLonlat (real_of_int (mv_width v) / 2 - m_offsetX v)
                                    (real_of_int (mv_height v) / 2 - m_offsetY v) (m_zoom v))"

definition setCenterWorld :: "real \<Rightarrow> real \<Rightarrow> int \<Rightarrow> MapView \<Rightarrow> MapView" where
  "setCenterWorld px py zoom v =
     v\<lparr>m_zoom := clamp_int zoom 0 20, m_offsetX := px - real_of_int (mv_width v) / 2,
       m_offsetY := py - real_of_int (mv_height v) / 2\<rparr>"

definition setCenterLonLat :: "real \<Rightarrow> real \<Rightarrow> int \<Rightarrow> MapView \<Rightarrow> MapView" where
  "setCenterLonLat lonDeg latDeg zoom v =
     (case lonlatToPixel lonDeg latDeg (clamp_int zoom 0 20) of (px, py) \<Rightarrow> setCenterWorld px py zoom v)"

definition zoomAt :: "int \<times> int \<Rightarrow> real \<Rightarrow> MapView \<Rightarrow> MapView" where
  "zoomAt screenPos factor v =
     (let newZ = clamp_int (m_zoom v + (if 1 < factor then 1 else -1)) 0 20
      in if newZ = m_zoom v then v
         else
           (case screenPos of (sx, sy) \<Rightarrow>
              (let wx_before = m_offsetX v + real_of_int sx;
                   wy_before = m_offsetY v + real_of_int sy;
                   scale = 2 powr real_of_int (newZ - m_zoom v)
               in v\<lparr>m_offsetX := wx_before * scale - real_of_int sx, m_offsetY := wy_before * scale - real_of_int sy,
                    m_zoom := newZ\<rparr>)))"

definition zoomIn :: "MapView \<Rightarrow> MapView" where
  "zoomIn v = zoomAt (screen_center v) 2 v"

definition zoomOut :: "MapView \<Rightarrow> MapView" where
  "zoomOut v = zoomAt (screen_center v) 0.5 v"

text \<open>\<open>wheelEvent\<close>: the vertical angle delta, in eighths of a degree.\<close>

definition wheelEvent :: "int \<Rightarrow> int \<times> int \<Rightarrow> MapView \<Rightarrow> MapView" where
  "wheelEvent angleDeltaY pos v =
     (let steps = real_of_int angleDeltaY / 120
      in if 0 < steps then zoomAt pos 2 v else if steps < 0 then zoomAt pos 0.5 v else v)"

subsection \<open>Mouse and keyboard\<close>

datatype mouse_button = LeftButton | OtherButton

datatype key = Key_Plus | Key_Equal | Key_Minus | Key_Underscore | Key_Left | Key_Right | Key_Up | Key_Down
  | Key_T | Key_L | Key_B | Key_Other

definition mousePressEvent :: "mouse_button \<Rightarrow> int \<times> int \<Rightarrow> MapView \<Rightarrow> MapView" where
  "mousePressEvent b pos v =
     (if b = LeftButton then v\<lparr>m_dragging := True, m_didDrag := False, m_lastPos := pos, m_pressPos := pos\<rparr> else v)"

definition manhattanLength :: "int \<times> int \<Rightarrow> int" where
  "manhattanLength p = (case p of (x, y) \<Rightarrow> \<bar>x\<bar> + \<bar>y\<bar>)"

definition point_sub :: "int \<times> int \<Rightarrow> int \<times> int \<Rightarrow> int \<times> int" where
  "point_sub p q = (fst p - fst q, snd p - snd q)"

text \<open>A drag starts once the pointer has moved more than 5 pixels (Manhattan) from the press; it stops following a vehicle.\<close>

definition mouseMoveEvent :: "int \<times> int \<Rightarrow> MapView \<Rightarrow> MapView" where
  "mouseMoveEvent pos v =
     (if \<not> m_dragging v then v
      else
        (let d = point_sub pos (m_lastPos v);
             v1 = (if \<not> m_didDrag v \<and> 5 < manhattanLength (point_sub pos (m_pressPos v))
                   then (if m_followingVehicle v
                         then v\<lparr>m_didDrag := True, m_followingVehicle := False, m_trackedVehicle := None,
                                mv_deleteButton := False\<rparr>
                         else v\<lparr>m_didDrag := True\<rparr>)
                   else v);
             v2 = (if m_didDrag v1
                   then v1\<lparr>m_offsetX := m_offsetX v1 - real_of_int (fst d), m_offsetY := m_offsetY v1 - real_of_int (snd d)\<rparr>
                   else v1)
         in v2\<lparr>m_lastPos := pos\<rparr>))"

text \<open>The nearest vehicle to a click, by the Euclidean distance in degrees, strictly below the threshold; the first of equals.\<close>

definition closest_step :: "RoadGraph \<Rightarrow> real \<Rightarrow> real \<Rightarrow> Vehicule \<Rightarrow> Vehicule option \<times> real \<Rightarrow> Vehicule option \<times> real" where
  "closest_step g clickLon clickLat v st =
     (case getPosition g v of (vLat, vLon) \<Rightarrow>
        (let dist = sqrt ((vLon - clickLon)\<^sup>2 + (vLat - clickLat)\<^sup>2)
         in if dist < snd st then (Some v, dist) else st))"

definition closestVehicle :: "RoadGraph \<Rightarrow> real \<Rightarrow> real \<Rightarrow> real \<Rightarrow> Vehicule list \<Rightarrow> Vehicule option" where
  "closestVehicle g clickLon clickLat threshold vehicles =
     fst (fold (closest_step g clickLon clickLat) vehicles (None, threshold))"

text \<open>
  A release that ends a click (no drag) follows the vehicle under the pointer, within 20
  pixels converted to degrees at 111 km per degree, or else creates a vehicle at the
  nearest valid vertex (\<open>Simulator::createVehicleNear\<close>).
\<close>

definition mouseReleaseEvent :: "mouse_button \<Rightarrow> (int \<Rightarrow> junk) \<Rightarrow> MapView \<times> Simulator \<Rightarrow> MapView \<times> Simulator" where
  "mouseReleaseEvent b jk vs =
     (case vs of (v, s) \<Rightarrow>
        if b \<noteq> LeftButton then (v, s)
        else if m_didDrag v then (v\<lparr>m_dragging := False\<rparr>, s)
        else
          (case screenToLonLat v (m_pressPos v) of (clickLon, clickLat) \<Rightarrow>
             (let metersPerPx = metersPerPixelAtLat (m_zoom v) clickLat;
                  CLICK_THRESHOLD = 20 * metersPerPx / 111000
              in case closestVehicle (sim_graph s) clickLon clickLat CLICK_THRESHOLD (m_vehicles s) of
                   Some c \<Rightarrow> (v\<lparr>m_trackedVehicle := Some (veh_id c), m_followingVehicle := True,
                                 mv_deleteButton := True, m_dragging := False\<rparr>, s)
                 | None \<Rightarrow> (v\<lparr>m_dragging := False\<rparr>, fst (createVehicleNear clickLon clickLat jk s)))))"

definition themeToggled :: "bool \<Rightarrow> MapView \<Rightarrow> MapView" where
  "themeToggled dark v =
     v\<lparr>m_darkTheme := dark, m_tilesTemplate := (if dark then m_darkTilesTemplate v else m_lightTilesTemplate v)\<rparr>"

definition keyPressEvent :: "key \<Rightarrow> MapView \<times> Simulator \<Rightarrow> MapView \<times> Simulator" where
  "keyPressEvent k vs =
     (case vs of (v, s) \<Rightarrow>
        (case k of
           Key_Plus \<Rightarrow> (zoomAt (screen_center v) 2 v, s)
         | Key_Equal \<Rightarrow> (zoomAt (screen_center v) 2 v, s)
         | Key_Minus \<Rightarrow> (zoomAt (screen_center v) 0.5 v, s)
         | Key_Underscore \<Rightarrow> (zoomAt (screen_center v) 0.5 v, s)
         | Key_Left \<Rightarrow> (v\<lparr>m_offsetX := m_offsetX v - 128\<rparr>, s)
         | Key_Right \<Rightarrow> (v\<lparr>m_offsetX := m_offsetX v + 128\<rparr>, s)
         | Key_Up \<Rightarrow> (v\<lparr>m_offsetY := m_offsetY v - 128\<rparr>, s)
         | Key_Down \<Rightarrow> (v\<lparr>m_offsetY := m_offsetY v + 128\<rparr>, s)
         | Key_T \<Rightarrow> (v\<lparr>m_showTransitiveConnections := \<not> m_showTransitiveConnections v\<rparr>,
                     cmd_showTransitive (\<not> m_showTransitiveConnections v) s)
         | Key_L \<Rightarrow> (v\<lparr>m_lowQualityMode := \<not> m_lowQualityMode v\<rparr>, s)
         | Key_B \<Rightarrow> (themeToggled (\<not> m_darkTheme v) v, s)
         | Key_Other \<Rightarrow> (v, s)))"

subsection \<open>The handlers of the overlay\<close>

definition qualityToggled :: "bool \<Rightarrow> MapView \<Rightarrow> MapView" where
  "qualityToggled hq v = v\<lparr>m_lowQualityMode := \<not> hq\<rparr>"

definition showConnectionsChanged :: "bool \<Rightarrow> MapView \<Rightarrow> MapView" where
  "showConnectionsChanged enable v = v\<lparr>m_drawDirectConnections := enable\<rparr>"

definition showRangesChanged :: "bool \<Rightarrow> MapView \<Rightarrow> MapView" where
  "showRangesChanged enable v = v\<lparr>m_showRanges := enable\<rparr>"

definition showRoadsChanged :: "bool \<Rightarrow> MapView \<Rightarrow> MapView" where
  "showRoadsChanged enable v = v\<lparr>m_showRoads := enable\<rparr>"

definition showTransitiveChanged :: "bool \<Rightarrow> MapView \<times> Simulator \<Rightarrow> MapView \<times> Simulator" where
  "showTransitiveChanged enable vs =
     (case vs of (v, s) \<Rightarrow> (v\<lparr>m_showTransitiveConnections := enable\<rparr>, cmd_showTransitive enable s))"

definition deleteTrackedVehicle :: "MapView \<times> Simulator \<Rightarrow> MapView \<times> Simulator" where
  "deleteTrackedVehicle vs =
     (case vs of (v, s) \<Rightarrow>
        (case m_trackedVehicle v of
           None \<Rightarrow> (v, s)
         | Some t \<Rightarrow> (v\<lparr>m_trackedVehicle := None, m_followingVehicle := False, mv_deleteButton := False\<rparr>,
                      fst (removeVehicle t s))))"

definition setTilesTemplate :: "string \<Rightarrow> MapView \<Rightarrow> MapView" where
  "setTilesTemplate pattern v = v\<lparr>m_tilesTemplate := pattern\<rparr>"

definition setRequestRateLimitMs :: "int \<Rightarrow> MapView \<Rightarrow> MapView" where
  "setRequestRateLimitMs ms v = v\<lparr>m_minRequestIntervalMs := ms\<rparr>"

subsection \<open>Properties of the camera\<close>

lemma clamp_int_range: "lo \<le> hi \<Longrightarrow> lo \<le> clamp_int v lo hi \<and> clamp_int v lo hi \<le> hi"
  by (simp add: clamp_int_def)

lemma even_half: "even w \<Longrightarrow> real_of_int (w div 2) = real_of_int w / 2"
  by (auto elim: evenE)

text \<open>
  C21: zooming with the wheel, the keys or the buttons keeps the longitude and latitude
  under the zoom point: \<open>zoomAt\<close> rescales the offset so that the world pixel under the
  pointer at the new zoom is the same geographic position.
\<close>

theorem zoomAt_keeps_cursor: "screenToLonLat (zoomAt p factor v) p = screenToLonLat v p"
proof (cases p)
  case (Pair sx sy)
  let ?newZ = "clamp_int (m_zoom v + (if 1 < factor then 1 else -1)) 0 20"
  show ?thesis
  proof (cases "?newZ = m_zoom v")
    case True
    then show ?thesis by (simp add: zoomAt_def Let_def)
  next
    case False
    then show ?thesis
      using pixelToLonlat_scale [of "m_offsetX v + real_of_int sx" ?newZ "m_zoom v" "m_offsetY v + real_of_int sy"]
      by (simp add: zoomAt_def Let_def Pair screenToLonLat_def)
  qed
qed

text \<open>
  C20: after \<open>setCenterLonLat lon lat z\<close> on a view of even width and height, the position
  the view reads at its centre pixel (\<open>screenToLonLat\<close> of \<open>(width()/2, height()/2)\<close>, as
  \<open>drawHUD\<close> and the overlay do) is \<open>(lon, lat)\<close>, for every latitude strictly between -90
  and 90 degrees and every requested zoom (the zoom is clamped to 0..20 in both places).
\<close>

theorem setCenterLonLat_center:
  assumes "- 90 < lat" "lat < 90" "even (mv_width v)" "even (mv_height v)"
  shows "screenToLonLat (setCenterLonLat lon lat z v) (screen_center (setCenterLonLat lon lat z v)) = (lon, lat)"
proof -
  obtain px py where p: "lonlatToPixel lon lat (clamp_int z 0 20) = (px, py)" by (cases "lonlatToPixel lon lat (clamp_int z 0 20)")
  have "pixelToLonlat px py (clamp_int z 0 20) = (lon, lat)"
    using lonlat_pixel_inverse [OF assms(1,2), of lon "clamp_int z 0 20"] p by simp
  then show ?thesis
    using assms(3,4) by (simp add: setCenterLonLat_def setCenterWorld_def p screenToLonLat_def screen_center_def even_half)
qed

text \<open>
  C22: \<open>centerLon\<close> reads the longitude at the world pixel \<open>width/2 - offset\<close>, while the
  view's centre is at \<open>offset + width/2\<close>: the two agree exactly when the horizontal offset
  is 0, so the getter reports a wrong centre for every panned view.
\<close>

theorem centerLon_wrong:
  "centerLon v = fst (pixelToLonlat (m_offsetX v + real_of_int (mv_width v) / 2)
                                    (m_offsetY v + real_of_int (mv_height v) / 2) (m_zoom v))
   \<longleftrightarrow> m_offsetX v = 0"
proof -
  have n: "0 < 256 * (2::real) powr real_of_int (m_zoom v)" by simp
  have "(real_of_int (mv_width v) / 2 - m_offsetX v) / (256 * 2 powr real_of_int (m_zoom v)) * 360 - 180 =
        (m_offsetX v + real_of_int (mv_width v) / 2) / (256 * 2 powr real_of_int (m_zoom v)) * 360 - 180
        \<longleftrightarrow> m_offsetX v = 0"
    using n by (simp add: field_simps)
  then show ?thesis by (simp add: centerLon_def pixelToLonlat_def Let_def)
qed

end
