(* ===== verification/MapTiles.thy ===== *)
theory MapTiles
  imports MapView
begin

text \<open>
  The tile pipeline of \<open>MapView\<close> (\<open>src/src/map_view.cpp\<close>): \<open>buildUrl\<close> fills the XYZ
  template, \<open>requestTile\<close> looks the URL up in the cache of the current theme, skips a tile
  already downloading, loads \<open>file://\<close> tiles at once, rate-limits the network requests
  (a request too early is retried by a \<open>QTimer::singleShot\<close>, kept as a pending timer) and
  records the download in flight; the completion of a download inserts the tile into the
  cache of the theme current at completion. \<open>drawTiles\<close> enumerates the tiles that cover
  the widget and requests those not in the cache. \<open>QCache\<close> (1024 entries of cost 1) is a
  list of URLs, most recently used first: \<open>object\<close> moves a hit to the front and
  \<open>insert\<close> drops the least recently used entries beyond 1024. The clock and the file
  system are an environment: the current time in milliseconds and whether a local file
  loads as an image. \<open>QString::number\<close> and \<open>QString::replace\<close> are those of \<open>QtCore\<close>.
\<close>

subsection \<open>Tile URLs\<close>

definition buildUrl :: "MapView \<Rightarrow> int \<Rightarrow> int \<Rightarrow> int \<Rightarrow> string" where
  "buildUrl v z x y =
     replace_all ''{y}'' (number y) (replace_all ''{x}'' (number x) (replace_all ''{z}'' (number z) (m_tilesTemplate v)))"

subsection \<open>Caches\<close>

definition cache_object :: "string \<Rightarrow> string list \<Rightarrow> bool \<times> string list" where
  "cache_object url c = (if url \<in> set c then (True, url # removeAll url c) else (False, c))"

definition cache_insert :: "string \<Rightarrow> string list \<Rightarrow> string list" where
  "cache_insert url c = url # take 1023 (removeAll url c)"

definition getActiveCache :: "MapView \<Rightarrow> string list" where
  "getActiveCache v = (if m_darkTheme v then m_darkCache v else m_lightCache v)"

definition setActiveCache :: "string list \<Rightarrow> MapView \<Rightarrow> MapView" where
  "setActiveCache c v = (if m_darkTheme v then v\<lparr>m_darkCache := c\<rparr> else v\<lparr>m_lightCache := c\<rparr>)"

subsection \<open>Requests\<close>

record tile_env =
  env_now :: int
  env_loads :: "string \<Rightarrow> bool"

definition requestTile :: "tile_env \<Rightarrow> int \<Rightarrow> int \<Rightarrow> int \<Rightarrow> MapView \<Rightarrow> MapView" where
  "requestTile env z x y v =
     (if m_tilesTemplate v = [] then v
      else
        (let url = buildUrl v z x y;
             (cached, c) = cache_object url (getActiveCache v);
             v1 = setActiveCache c v;
             key = \<lparr>tk_z = z, tk_x = x, tk_y = y\<rparr>
         in if cached then v1
            else if key \<in> m_inflight v1 then v1
            else if take 7 url = ''file://'' then
              (if env_loads env url then setActiveCache (cache_insert url (getActiveCache v1)) v1 else v1)
            else
              (let wait = m_minRequestIntervalMs v1 - (env_now env - m_lastRequestMs v1)
               in if 0 < wait then v1\<lparr>m_timers := m_timers v1 @ [(key, wait)]\<rparr>
                  else v1\<lparr>m_lastRequestMs := env_now env, m_inflight := insert key (m_inflight v1)\<rparr>)))"

text \<open>The completion slot of a download, with whether it succeeded and decoded as an image.\<close>

definition tileReplyFinished :: "TileKey \<Rightarrow> string \<Rightarrow> bool \<Rightarrow> MapView \<Rightarrow> MapView" where
  "tileReplyFinished key url ok v =
     (let v1 = v\<lparr>m_inflight := m_inflight v - {key}\<rparr>
      in if ok then setActiveCache (cache_insert url (getActiveCache v1)) v1 else v1)"

text \<open>A pending retry timer fires: the request is made again.\<close>

definition tileTimerFired :: "nat \<Rightarrow> tile_env \<Rightarrow> MapView \<Rightarrow> MapView" where
  "tileTimerFired i env v =
     (if i < length (m_timers v)
      then (case m_timers v ! i of (key, wait) \<Rightarrow>
              requestTile env (tk_z key) (tk_x key) (tk_y key) (v\<lparr>m_timers := take i (m_timers v) @ drop (Suc i) (m_timers v)\<rparr>))
      else v)"

subsection \<open>Drawing the tiles\<close>

text \<open>A tile drawn by \<open>drawTiles\<close>: its zoom, wrapped column and row, its target square on the widget, and whether it came from the cache.\<close>

record DrawnTile =
  dt_z :: int
  dt_x :: int
  dt_y :: int
  dt_left :: real
  dt_top :: real
  dt_size :: real
  dt_cached :: bool

definition draw_tile :: "tile_env \<Rightarrow> int \<Rightarrow> int \<Rightarrow> int \<Rightarrow> int \<times> int \<Rightarrow> int \<times> int \<Rightarrow> MapView \<times> DrawnTile list \<Rightarrow> MapView \<times> DrawnTile list" where
  "draw_tile env tileZoom n scale x0y0 d st =
     (case st of (v, acc) \<Rightarrow>
        (let tx = fst x0y0 + fst d; ty = snd x0y0 + snd d; txWrap = tile_wrap tx n
         in if ty < 0 \<or> n \<le> ty then st
            else
              (let url = buildUrl v tileZoom txWrap ty;
                   (cached, c) = cache_object url (getActiveCache v);
                   v1 = setActiveCache c v;
                   target = \<lparr>dt_z = tileZoom, dt_x = txWrap, dt_y = ty,
                             dt_left = real_of_int (tx * 256 * scale) - m_offsetX v,
                             dt_top = real_of_int (ty * 256 * scale) - m_offsetY v,
                             dt_size = real_of_int (256 * scale), dt_cached = cached\<rparr>
               in (if cached then v1 else requestTile env tileZoom txWrap ty v1, acc @ [target]))))"

definition drawTiles :: "tile_env \<Rightarrow> MapView \<Rightarrow> MapView \<times> DrawnTile list" where
  "drawTiles env v =
     (let tileZoom = tile_zoom (m_lowQualityMode v) (m_zoom v);
          n = 2 ^ nat tileZoom;
          zoomDiff = m_zoom v - tileZoom;
          scale = 2 ^ nat \<bar>zoomDiff\<bar>;
          (x0, nx) = tile_span (scaled_offset zoomDiff scale (m_offsetX v)) (mv_width v) scale;
          (y0, ny) = tile_span (scaled_offset zoomDiff scale (m_offsetY v)) (mv_height v) scale;
          cells = concat (map (\<lambda>dy. map (\<lambda>dx. (dx, dy)) [0..nx]) [0..ny])
      in fold (draw_tile env tileZoom n scale (x0, y0)) cells (v, []))"

subsection \<open>Well-formed requests\<close>

text \<open>A tile key names a tile of the pyramid; \<open>tile_at\<close> relates a drawn tile to the cell of the enumeration that drew it.\<close>

definition tile_key_ok :: "TileKey \<Rightarrow> bool" where
  "tile_key_ok k \<longleftrightarrow> 0 \<le> tk_z k \<and> tk_z k \<le> 20 \<and> 0 \<le> tk_x k \<and> tk_x k < 2 ^ nat (tk_z k) \<and>
                      0 \<le> tk_y k \<and> tk_y k < 2 ^ nat (tk_z k)"

definition requests_ok :: "MapView \<Rightarrow> bool" where
  "requests_ok v \<longleftrightarrow> (\<forall>k\<in>m_inflight v. tile_key_ok k) \<and> (\<forall>p\<in>set (m_timers v). tile_key_ok (fst p))"

definition tile_at :: "int \<times> int \<Rightarrow> int \<Rightarrow> MapView \<Rightarrow> int \<times> int \<Rightarrow> DrawnTile \<Rightarrow> bool" where
  "tile_at x0y0 scale v d t \<longleftrightarrow>
     dt_left t = real_of_int ((fst x0y0 + fst d) * 256 * scale) - m_offsetX v \<and>
     dt_top t = real_of_int ((snd x0y0 + snd d) * 256 * scale) - m_offsetY v \<and> dt_size t = real_of_int (256 * scale)"

subsection \<open>Properties of the tile pipeline\<close>

lemma setActiveCache_keeps [simp]:
  "m_offsetX (setActiveCache c v) = m_offsetX v" "m_offsetY (setActiveCache c v) = m_offsetY v"
  "m_zoom (setActiveCache c v) = m_zoom v" "m_tilesTemplate (setActiveCache c v) = m_tilesTemplate v"
  "m_darkTheme (setActiveCache c v) = m_darkTheme v" "m_inflight (setActiveCache c v) = m_inflight v"
  "m_timers (setActiveCache c v) = m_timers v" "m_lastRequestMs (setActiveCache c v) = m_lastRequestMs v"
  "m_minRequestIntervalMs (setActiveCache c v) = m_minRequestIntervalMs v"
  "m_lowQualityMode (setActiveCache c v) = m_lowQualityMode v"
  "m_followingVehicle (setActiveCache c v) = m_followingVehicle v"
  "m_trackedVehicle (setActiveCache c v) = m_trackedVehicle v"
  "mv_deleteButton (setActiveCache c v) = mv_deleteButton v"
  "m_drawDirectConnections (setActiveCache c v) = m_drawDirectConnections v"
  "m_showTransitiveConnections (setActiveCache c v) = m_showTransitiveConnections v"
  "m_showRanges (setActiveCache c v) = m_showRanges v"
  "m_showRoads (setActiveCache c v) = m_showRoads v"
  "mv_width (setActiveCache c v) = mv_width v"
  "mv_height (setActiveCache c v) = mv_height v"
  "m_validRoads (setActiveCache c v) = m_validRoads v"
  "m_roadsPrecomputed (setActiveCache c v) = m_roadsPrecomputed v"
  "m_dragging (setActiveCache c v) = m_dragging v"
  "m_didDrag (setActiveCache c v) = m_didDrag v"
  "m_lastPos (setActiveCache c v) = m_lastPos v"
  "m_pressPos (setActiveCache c v) = m_pressPos v"
  by (simp_all add: setActiveCache_def)

lemma requestTile_keeps [simp]:
  "m_offsetX (requestTile env z x y v) = m_offsetX v" "m_offsetY (requestTile env z x y v) = m_offsetY v"
  "m_zoom (requestTile env z x y v) = m_zoom v" "m_tilesTemplate (requestTile env z x y v) = m_tilesTemplate v"
  "m_darkTheme (requestTile env z x y v) = m_darkTheme v"
  "m_lowQualityMode (requestTile env z x y v) = m_lowQualityMode v"
  "m_followingVehicle (requestTile env z x y v) = m_followingVehicle v"
  "m_trackedVehicle (requestTile env z x y v) = m_trackedVehicle v"
  "mv_deleteButton (requestTile env z x y v) = mv_deleteButton v"
  "m_drawDirectConnections (requestTile env z x y v) = m_drawDirectConnections v"
  "m_showTransitiveConnections (requestTile env z x y v) = m_showTransitiveConnections v"
  "m_showRanges (requestTile env z x y v) = m_showRanges v"
  "m_showRoads (requestTile env z x y v) = m_showRoads v"
  "mv_width (requestTile env z x y v) = mv_width v"
  "mv_height (requestTile env z x y v) = mv_height v"
  "m_validRoads (requestTile env z x y v) = m_validRoads v"
  "m_roadsPrecomputed (requestTile env z x y v) = m_roadsPrecomputed v"
  "m_dragging (requestTile env z x y v) = m_dragging v"
  "m_didDrag (requestTile env z x y v) = m_didDrag v"
  "m_lastPos (requestTile env z x y v) = m_lastPos v"
  "m_pressPos (requestTile env z x y v) = m_pressPos v"
  by (simp_all add: requestTile_def Let_def split: prod.splits)

lemma requestTile_ok:
  "requests_ok v \<Longrightarrow> tile_key_ok \<lparr>tk_z = z, tk_x = x, tk_y = y\<rparr> \<Longrightarrow> requests_ok (requestTile env z x y v)"
  by (auto simp: requestTile_def Let_def requests_ok_def split: prod.splits)

lemma tile_zoom_range: "0 \<le> zoom \<Longrightarrow> zoom \<le> 20 \<Longrightarrow> 0 \<le> tile_zoom lq zoom \<and> tile_zoom lq zoom \<le> zoom"
  by (simp add: tile_zoom_def)

lemma wrapped_key_ok:
  "0 \<le> tz \<Longrightarrow> tz \<le> 20 \<Longrightarrow> \<not> (ty < 0 \<or> 2 ^ nat tz \<le> ty) \<Longrightarrow>
   tile_key_ok \<lparr>tk_z = tz, tk_x = tile_wrap tx (2 ^ nat tz), tk_y = ty\<rparr>"
  by (simp add: tile_key_ok_def tile_wrap_eq_mod)

lemma draw_tile_ok:
  assumes "0 \<le> tz" "tz \<le> 20" "requests_ok (fst st)"
  shows "requests_ok (fst (draw_tile env tz (2 ^ nat tz) scale x0y0 d st))"
proof -
  obtain v acc where st: "st = (v, acc)" by (cases st)
  have "requests_ok (setActiveCache c v)" for c using assms(3) st by (simp add: requests_ok_def)
  then show ?thesis
    using st assms wrapped_key_ok [OF assms(1,2)] by (auto simp: draw_tile_def Let_def requestTile_ok split: prod.splits)
qed

lemma draw_tile_key:
  assumes "0 \<le> tz" "tz \<le> 20" "\<forall>t\<in>set (snd st). tile_key_ok \<lparr>tk_z = dt_z t, tk_x = dt_x t, tk_y = dt_y t\<rparr>"
  shows "\<forall>t\<in>set (snd (draw_tile env tz (2 ^ nat tz) scale x0y0 d st)). tile_key_ok \<lparr>tk_z = dt_z t, tk_x = dt_x t, tk_y = dt_y t\<rparr>"
  using assms wrapped_key_ok [OF assms(1,2)] by (auto simp: draw_tile_def Let_def split: prod.splits)

lemma drawTiles_unfold:
  "drawTiles env v =
     (let tz = tile_zoom (m_lowQualityMode v) (m_zoom v); scale = 2 ^ nat \<bar>m_zoom v - tz\<bar>;
          sx = tile_span (scaled_offset (m_zoom v - tz) scale (m_offsetX v)) (mv_width v) scale;
          sy = tile_span (scaled_offset (m_zoom v - tz) scale (m_offsetY v)) (mv_height v) scale
      in fold (draw_tile env tz (2 ^ nat tz) scale (fst sx, fst sy))
              (concat (map (\<lambda>dy. map (\<lambda>dx. (dx, dy)) [0..snd sx]) [0..snd sy])) (v, []))"
  by (simp add: drawTiles_def Let_def split: prod.splits)

text \<open>
  \<open>drawTiles\<close> requests only tiles that exist: every tile it puts in flight or on a
  retry timer has a zoom in 0..20 and a column and row in \<open>0..2^z-1\<close>, the column wrapped
  around the world, when the view's zoom is in 0..20 (part of the view invariant).
\<close>

lemma drawTiles_requests_ok:
  assumes "0 \<le> m_zoom v" "m_zoom v \<le> 20" "requests_ok v"
  shows "requests_ok (fst (drawTiles env v))"
proof -
  let ?tz = "tile_zoom (m_lowQualityMode v) (m_zoom v)"
  have tz: "0 \<le> ?tz" "?tz \<le> 20" using tile_zoom_range [OF assms(1,2), of "m_lowQualityMode v"] assms(2) by linarith+
  have "requests_ok (fst (fold (draw_tile env ?tz (2 ^ nat ?tz) scale x0y0) cells (v, [])))" for scale x0y0 cells
    by (rule fold_invariant [where P = "\<lambda>st. requests_ok (fst st)"]) (use draw_tile_ok [OF tz] assms(3) in auto)
  then show ?thesis by (simp add: drawTiles_unfold Let_def)
qed

lemma draw_tile_keeps: "m_offsetX (fst (draw_tile env tz n scale x0y0 d (st :: MapView \<times> DrawnTile list))) = m_offsetX (fst st) \<and>
                        m_offsetY (fst (draw_tile env tz n scale x0y0 d st)) = m_offsetY (fst st)"
  by (auto simp: draw_tile_def Let_def split: prod.splits)

lemma draw_tile_acc:
  "snd (draw_tile env tz n scale x0y0 d (st :: MapView \<times> DrawnTile list)) = snd st \<or>
   (\<exists>t. snd (draw_tile env tz n scale x0y0 d st) = snd st @ [t] \<and> tile_at x0y0 scale (fst st) d t \<and>
        \<not> (snd x0y0 + snd d < 0 \<or> n \<le> snd x0y0 + snd d))"
  by (auto simp: draw_tile_def Let_def tile_at_def split: prod.splits)

lemma drawn_tiles_shape:
  assumes "t \<in> set (snd (fold (draw_tile env tz n scale x0y0) cells (v, [])))"
  shows "\<exists>d\<in>set cells. tile_at x0y0 scale v d t"
proof -
  let ?P = "\<lambda>st. m_offsetX (fst st) = m_offsetX v \<and> m_offsetY (fst st) = m_offsetY v \<and>
                 (\<forall>t\<in>set (snd st). \<exists>d\<in>set cells. tile_at x0y0 scale v d t)"
  have "?P (fold (draw_tile env tz n scale x0y0) cells (v, []))"
  proof (rule fold_invariant)
    fix d and st :: "MapView \<times> DrawnTile list" assume d: "d \<in> set cells" and p: "?P st"
    have "tile_at x0y0 scale (fst st) d t' \<Longrightarrow> tile_at x0y0 scale v d t'" for t'
      using p by (simp add: tile_at_def)
    note k = this
    have o: "m_offsetX (fst (draw_tile env tz n scale x0y0 d st)) = m_offsetX v \<and>
             m_offsetY (fst (draw_tile env tz n scale x0y0 d st)) = m_offsetY v"
      using p draw_tile_keeps [of env tz n scale x0y0 d st] by simp
    consider "snd (draw_tile env tz n scale x0y0 d st) = snd st"
      | t' where "snd (draw_tile env tz n scale x0y0 d st) = snd st @ [t']" "tile_at x0y0 scale (fst st) d t'"
      using draw_tile_acc [of env tz n scale x0y0 d st] by blast
    then show "?P (draw_tile env tz n scale x0y0 d st)"
    proof cases
      case 1
      then show ?thesis using o p by simp
    next
      case (2 t')
      then have "\<exists>d\<in>set cells. tile_at x0y0 scale v d t'" using k d by blast
      then show ?thesis using o p 2 by simp
    qed
  qed simp
  then show ?thesis using assms by blast
qed

lemma drawn_tile_present:
  assumes "d \<in> set cells" "\<not> (snd x0y0 + snd d < 0 \<or> n \<le> snd x0y0 + snd d)"
  shows "\<exists>t\<in>set (snd (fold (draw_tile env tz n scale x0y0) cells (v, []))). tile_at x0y0 scale v d t"
proof (rule fold_establish [OF assms(1), where I = "\<lambda>st. m_offsetX (fst st) = m_offsetX v \<and> m_offsetY (fst st) = m_offsetY v"])
  fix st :: "MapView \<times> DrawnTile list" assume i: "m_offsetX (fst st) = m_offsetX v \<and> m_offsetY (fst st) = m_offsetY v"
  show "\<exists>t\<in>set (snd (draw_tile env tz n scale x0y0 d st)). tile_at x0y0 scale v d t"
    using i assms(2) by (auto simp: draw_tile_def Let_def tile_at_def split: prod.splits)
next
  fix y and st :: "MapView \<times> DrawnTile list" assume "m_offsetX (fst st) = m_offsetX v \<and> m_offsetY (fst st) = m_offsetY v"
  then show "m_offsetX (fst (draw_tile env tz n scale x0y0 y st)) = m_offsetX v \<and>
             m_offsetY (fst (draw_tile env tz n scale x0y0 y st)) = m_offsetY v"
    using draw_tile_keeps by metis
next
  fix y and st :: "MapView \<times> DrawnTile list" assume "\<exists>t\<in>set (snd st). tile_at x0y0 scale v d t"
  then show "\<exists>t\<in>set (snd (draw_tile env tz n scale x0y0 y st)). tile_at x0y0 scale v d t"
    using draw_tile_acc [of env tz n scale x0y0 y st] by auto
qed simp

lemma cells_mem: "(dx, dy) \<in> set (concat (map (\<lambda>dy. map (\<lambda>dx. (dx, dy)) [0..nx]) [0..ny])) \<longleftrightarrow>
                   0 \<le> dx \<and> dx \<le> nx \<and> 0 \<le> dy \<and> dy \<le> ny"
  by force

lemma drawTiles_full_quality:
  assumes "\<not> m_lowQualityMode v"
  shows "drawTiles env v =
           fold (draw_tile env (m_zoom v) (2 ^ nat (m_zoom v)) 1
                   (fst (tile_span (to_int (m_offsetX v)) (mv_width v) 1), fst (tile_span (to_int (m_offsetY v)) (mv_height v) 1)))
                (concat (map (\<lambda>dy. map (\<lambda>dx. (dx, dy)) [0..snd (tile_span (to_int (m_offsetX v)) (mv_width v) 1)])
                   [0..snd (tile_span (to_int (m_offsetY v)) (mv_height v) 1)])) (v, [])"
  using assms by (simp add: drawTiles_unfold tile_zoom_def scaled_offset_def Let_def)

text \<open>
  C23: every tile \<open>drawTiles\<close> draws names a tile of the pyramid: when the view's zoom is in
  0..20 its zoom is in 0..20 and its column and row are in \<open>0..2^z-1\<close>, the column wrapped
  around the world and the rows outside the map skipped, in both quality modes.
\<close>

theorem drawTiles_tiles_ok:
  assumes "0 \<le> m_zoom v" "m_zoom v \<le> 20"
  shows "list_all (\<lambda>t. tile_key_ok \<lparr>tk_z = dt_z t, tk_x = dt_x t, tk_y = dt_y t\<rparr>) (snd (drawTiles env v))"
proof -
  let ?tz = "tile_zoom (m_lowQualityMode v) (m_zoom v)"
  have tz: "0 \<le> ?tz" "?tz \<le> 20" using tile_zoom_range [OF assms, of "m_lowQualityMode v"] assms(2) by linarith+
  have "\<forall>t\<in>set (snd (fold (draw_tile env ?tz (2 ^ nat ?tz) scale x0y0) cells (v, []))).
          tile_key_ok \<lparr>tk_z = dt_z t, tk_x = dt_x t, tk_y = dt_y t\<rparr>" for scale x0y0 cells
    by (rule fold_invariant [where P = "\<lambda>st. \<forall>t\<in>set (snd st). tile_key_ok \<lparr>tk_z = dt_z t, tk_x = dt_x t, tk_y = dt_y t\<rparr>"])
       (use draw_tile_key [OF tz] in auto)
  then show ?thesis by (simp add: drawTiles_unfold Let_def list_all_iff)
qed

text \<open>
  C24: in full-quality mode with a non-negative offset, the tiles \<open>drawTiles\<close> draws cover
  every pixel of the widget that lies on the map (above its bottom edge).
\<close>

theorem drawTiles_covers:
  assumes "\<not> m_lowQualityMode v" "0 \<le> m_offsetX v" "0 \<le> m_offsetY v"
    and "0 \<le> sx" "sx < real_of_int (mv_width v)" "0 \<le> sy" "sy < real_of_int (mv_height v)"
    and "m_offsetY v + sy < 256 * 2 ^ nat (m_zoom v)"
  shows "\<exists>t\<in>set (snd (drawTiles env v)).
           dt_left t \<le> sx \<and> sx < dt_left t + dt_size t \<and> dt_top t \<le> sy \<and> sy < dt_top t + dt_size t"
proof -
  obtain x0 nx where tx: "tile_span (to_int (m_offsetX v)) (mv_width v) 1 = (x0, nx)" by fastforce
  obtain y0 ny where ty: "tile_span (to_int (m_offsetY v)) (mv_height v) 1 = (y0, ny)" by fastforce
  obtain kx where kx: "x0 \<le> kx" "kx \<le> x0 + nx" "real_of_int (kx * 256) - m_offsetX v \<le> sx"
      "sx < real_of_int ((kx + 1) * 256) - m_offsetX v"
    using tile_span_covers [OF assms(2,4,5) tx] by blast
  obtain ky where ky: "y0 \<le> ky" "ky \<le> y0 + ny" "real_of_int (ky * 256) - m_offsetY v \<le> sy"
      "sy < real_of_int ((ky + 1) * 256) - m_offsetY v"
    using tile_span_covers [OF assms(3,6,7) ty] by blast
  have "real_of_int (ky * 256) < 256 * 2 ^ nat (m_zoom v)" using ky(3) assms(8) by linarith
  then have k1: "ky < 2 ^ nat (m_zoom v)" by (metis of_int_less_iff of_int_mult of_int_numeral of_int_power mult.commute
      mult_less_cancel_left_pos zero_less_numeral)
  have "0 < real_of_int ((ky + 1) * 256)" using ky(4) assms(3,6) by linarith
  then have k0: "0 \<le> ky" by simp
  have c: "(kx - x0, ky - y0) \<in> set (concat (map (\<lambda>dy. map (\<lambda>dx. (dx, dy)) [0..nx]) [0..ny]))"
    using kx ky by (simp only: cells_mem) simp
  have g: "\<not> (snd (x0, y0) + snd (kx - x0, ky - y0) < 0 \<or> 2 ^ nat (m_zoom v) \<le> snd (x0, y0) + snd (kx - x0, ky - y0))"
    using k0 k1 by simp
  have "\<exists>t\<in>set (snd (drawTiles env v)). tile_at (x0, y0) 1 v (kx - x0, ky - y0) t"
    unfolding drawTiles_full_quality [OF assms(1)] tx ty fst_conv snd_conv
    by (rule drawn_tile_present [OF c g])
  then obtain t where "t \<in> set (snd (drawTiles env v))" "tile_at (x0, y0) 1 v (kx - x0, ky - y0) t" by blast
  moreover have "dt_left t \<le> sx \<and> sx < dt_left t + dt_size t \<and> dt_top t \<le> sy \<and> sy < dt_top t + dt_size t"
    using calculation(2) kx ky by (simp add: tile_at_def)
  ultimately show ?thesis by blast
qed

text \<open>
  C25: with a horizontal offset between -256 and 0 (the view panned less than one tile to
  the left of the world's left edge), \<open>drawTiles\<close> starts at column 0 although the left
  edge of the widget shows column -1: no drawn tile covers the left strip of the widget,
  of the width of the offset, which stays the background colour. The divisions of
  \<open>drawTiles\<close> are \<open>int\<close> divisions, which truncate towards zero, so the \<open>std::floor\<close>
  around them has no effect.
\<close>

theorem drawTiles_left_gap:
  assumes "\<not> m_lowQualityMode v" "- 256 < m_offsetX v" "m_offsetX v < 0"
    and "t \<in> set (snd (drawTiles env v))" "sx < - m_offsetX v"
  shows "sx < dt_left t"
proof -
  obtain x0 nx where tx: "tile_span (to_int (m_offsetX v)) (mv_width v) 1 = (x0, nx)" by fastforce
  have c: "to_int (m_offsetX v) = \<lceil>m_offsetX v\<rceil>" using assms(3) by (simp add: to_int_def)
  have "- 256 < \<lceil>m_offsetX v\<rceil>" "\<lceil>m_offsetX v\<rceil> \<le> 0" using assms(2,3) by (simp_all add: ceiling_le_iff less_ceiling_iff)
  then have "- \<lceil>m_offsetX v\<rceil> div 256 = 0" by (intro div_pos_pos_trivial) linarith+
  then have "\<lceil>m_offsetX v\<rceil> sdiv 256 = 0" by (simp add: signed_divide_int_def)
  then have x0: "x0 = 0" using tx c by (simp add: tile_span_def Let_def)
  obtain d where d: "d \<in> set (concat (map (\<lambda>dy. map (\<lambda>dx. (dx, dy)) [0..nx])
                          [0..snd (tile_span (to_int (m_offsetY v)) (mv_height v) 1)]))"
      and at: "tile_at (x0, fst (tile_span (to_int (m_offsetY v)) (mv_height v) 1)) 1 v d t"
    using drawn_tiles_shape assms(4) unfolding drawTiles_full_quality [OF assms(1)] tx fst_conv snd_conv by blast
  have "0 \<le> fst d" using d by auto
  then show ?thesis using at x0 assms(5) by (simp add: tile_at_def)
qed

text \<open>
  C26: \<open>requestTile\<close> sends a network request only when at least
  \<open>m_minRequestIntervalMs\<close> have passed since the previous one, and records the time of the
  request.
\<close>

theorem requestTile_rate_limited:
  assumes "m_inflight (requestTile env z x y v) \<noteq> m_inflight v"
  shows "m_minRequestIntervalMs v \<le> env_now env - m_lastRequestMs v \<and>
         m_lastRequestMs (requestTile env z x y v) = env_now env"
  using assms by (auto simp: requestTile_def Let_def split: prod.splits if_splits)

text \<open>
  C27: a tile requested over the network in the dark theme, whose download completes after
  the user has switched to the light theme, is stored in the light theme's cache and not
  in the dark theme's: the completion slot inserts into \<open>getActiveCache()\<close> at completion,
  although each theme is meant to keep its own cache.
\<close>

theorem tile_reply_wrong_cache:
  assumes "m_darkTheme v" "m_tilesTemplate v \<noteq> []" "take 7 (buildUrl v z x y) \<noteq> ''file://''"
    and "buildUrl v z x y \<notin> set (m_darkCache v)" "\<lparr>tk_z = z, tk_x = x, tk_y = y\<rparr> \<notin> m_inflight v"
    and "m_minRequestIntervalMs v \<le> env_now env - m_lastRequestMs v"
  shows "\<lparr>tk_z = z, tk_x = x, tk_y = y\<rparr> \<in> m_inflight (requestTile env z x y v) \<and>
         (let v' = tileReplyFinished \<lparr>tk_z = z, tk_x = x, tk_y = y\<rparr> (buildUrl v z x y) True
                     (themeToggled False (requestTile env z x y v))
          in buildUrl v z x y \<in> set (m_lightCache v') \<and> buildUrl v z x y \<notin> set (m_darkCache v'))"
  using assms
  by (simp add: requestTile_def Let_def cache_object_def getActiveCache_def setActiveCache_def
      tileReplyFinished_def themeToggled_def cache_insert_def)

end
