(* ===== verification/MapPaint.thy ===== *)
theory MapPaint
  imports MapTiles
begin

text \<open>
  \<open>MapView::paintEvent\<close> (\<open>src/src/map_view.cpp\<close>) as a function of the view, the
  simulator and the environment of the tile requests, returning the updated view and
  what the frame shows: the tiles, the road segments, the range circles, the transitive
  and direct connection lines (as pairs of vehicle identifiers), the antennas, the
  vehicles with their screen positions, the centre read back for the overlay and the
  scale bar of \<open>drawHUD\<close>. Pens, colours, the per-vehicle colour generator and the vehicle
  icons are not modelled, nor the fallback image and the debug grid drawn when the tile
  template is empty. The iteration order of the \<open>unordered_set\<close>s and
  \<open>unordered_map\<close>s read here does not change the frame's contents; they are read in
  increasing key order.
\<close>

record Frame =
  fr_tiles :: "DrawnTile list"
  fr_roads :: "((real \<times> real) \<times> (real \<times> real)) list"
  fr_ranges :: "(vid \<times> (real \<times> real) \<times> real) list"
  fr_transitive :: "(vid \<times> vid) list"
  fr_direct :: "(vid \<times> vid) list"
  fr_micro :: "(real \<times> real) list"
  fr_macro :: "(cell_id \<times> (real \<times> real)) list"
  fr_vehicles :: "(vid \<times> (real \<times> real)) list"
  fr_pointMode :: bool
  fr_center :: "real \<times> real"
  fr_scale :: "int \<times> int"

text \<open>Step 1 of the frame: forget a tracked vehicle that the simulator no longer has.\<close>

definition check_tracked :: "Simulator \<Rightarrow> MapView \<Rightarrow> MapView" where
  "check_tracked s v =
     (case m_trackedVehicle v of
        Some t \<Rightarrow> if m_followingVehicle v \<and> t \<notin> set (map veh_id (m_vehicles s))
                  then v\<lparr>m_trackedVehicle := None, m_followingVehicle := False, mv_deleteButton := False\<rparr> else v
      | None \<Rightarrow> v)"

definition find_vehicle :: "Simulator \<Rightarrow> vid \<Rightarrow> Vehicule option" where
  "find_vehicle s i = find (\<lambda>c. veh_id c = i) (m_vehicles s)"

text \<open>Step 2: the camera follows the tracked vehicle, centred on the widget.\<close>

definition follow_camera :: "Simulator \<Rightarrow> MapView \<Rightarrow> MapView" where
  "follow_camera s v =
     (case m_trackedVehicle v of
        Some t \<Rightarrow>
          (if m_followingVehicle v then
             (case find_vehicle s t of
                Some c \<Rightarrow>
                  (case getPosition (sim_graph s) c of (vLat, vLon) \<Rightarrow>
                     (case lonlatToPixel vLon vLat (m_zoom v) of (px, py) \<Rightarrow>
                        v\<lparr>m_offsetX := px - real_of_int (mv_width v) / 2, m_offsetY := py - real_of_int (mv_height v) / 2\<rparr>))
              | None \<Rightarrow> v)
           else v)
      | None \<Rightarrow> v)"

text \<open>The road segments computed once: the valid edges of the graph with their end points.\<close>

definition road_segments :: "RoadGraph \<Rightarrow> RoadSegment list" where
  "road_segments g =
     map (\<lambda>e. \<lparr>seg_lon1 = vd_lon (vertex_data g (e_source e)), seg_lat1 = vd_lat (vertex_data g (e_source e)),
               seg_lon2 = vd_lon (vertex_data g (e_target e)), seg_lat2 = vd_lat (vertex_data g (e_target e))\<rparr>)
         (filter (\<lambda>e. isValidRoad (e_type e)) (rg_edges g))"

definition segment_culled :: "real \<Rightarrow> real \<Rightarrow> real \<Rightarrow> real \<Rightarrow> RoadSegment \<Rightarrow> bool" where
  "segment_culled minLon minLat maxLon maxLat seg \<longleftrightarrow>
     (seg_lon1 seg < minLon \<and> seg_lon2 seg < minLon) \<or> (maxLon < seg_lon1 seg \<and> maxLon < seg_lon2 seg) \<or>
     (seg_lat1 seg < minLat \<and> seg_lat2 seg < minLat) \<or> (maxLat < seg_lat1 seg \<and> maxLat < seg_lat2 seg)"

definition draw_roads :: "Simulator \<Rightarrow> MapView \<Rightarrow> MapView \<times> ((real \<times> real) \<times> (real \<times> real)) list" where
  "draw_roads s v =
     (if \<not> m_showRoads v then (v, [])
      else
        (let v1 = (if m_roadsPrecomputed v then v
                   else v\<lparr>m_validRoads := road_segments (sim_graph s), m_roadsPrecomputed := True\<rparr>);
             (minLon, minLat) = screenToLonLat v1 (0, mv_height v1);
             (maxLon, maxLat) = screenToLonLat v1 (mv_width v1, 0)
         in (v1, map (\<lambda>seg. (lonLatToScreen v1 (seg_lon1 seg) (seg_lat1 seg), lonLatToScreen v1 (seg_lon2 seg) (seg_lat2 seg)))
                     (filter (\<lambda>seg. \<not> segment_culled minLon minLat maxLon maxLat seg) (m_validRoads v1)))))"

text \<open>The vehicles whose position lies in the rectangle spanned by the widget's corners.\<close>

definition visible_vehicles :: "Simulator \<Rightarrow> MapView \<Rightarrow> Vehicule list" where
  "visible_vehicles s v =
     (case screenToLonLat v (0, 0) of (minLon, maxLat) \<Rightarrow>
        (case screenToLonLat v (mv_width v, mv_height v) of (maxLon, minLat) \<Rightarrow>
           filter (\<lambda>c. case getPosition (sim_graph s) c of (lat, lon) \<Rightarrow>
                          minLat \<le> lat \<and> lat \<le> maxLat \<and> minLon \<le> lon \<and> lon \<le> maxLon)
                  (m_vehicles s)))"

text \<open>
  The lines from a visible vehicle: to each identifier of a set (its neighbours, or its
  reachable vehicles outside its neighbours) that names a vehicle of the simulator and is
  larger than its own, so that a pair of visible vehicles is drawn once.
\<close>

definition lines_from :: "Simulator \<Rightarrow> Vehicule \<Rightarrow> vid set \<Rightarrow> (vid \<times> vid) list" where
  "lines_from s c ids =
     map (\<lambda>j. (veh_id c, j))
         (filter (\<lambda>j. find_vehicle s j \<noteq> None \<and> veh_id c < j) (sorted_list_of_set ids))"

definition direct_lines :: "Simulator \<Rightarrow> Vehicule list \<Rightarrow> (vid \<times> vid) list" where
  "direct_lines s visible =
     concat (map (\<lambda>c. lines_from s c (getDirectNeighbors (m_interferenceGraph s) (veh_id c))) visible)"

definition transitive_lines :: "Simulator \<Rightarrow> Vehicule list \<Rightarrow> (vid \<times> vid) list" where
  "transitive_lines s visible =
     concat (map (\<lambda>c. lines_from s c (getReachableVehicles (m_interferenceGraph s) (veh_id c) -
                                        getDirectNeighbors (m_interferenceGraph s) (veh_id c))) visible)"

definition vehicle_point :: "Simulator \<Rightarrow> MapView \<Rightarrow> Vehicule \<Rightarrow> real \<times> real" where
  "vehicle_point s v c = (case getPosition (sim_graph s) c of (lat, lon) \<Rightarrow> lonLatToScreen v lon lat)"

definition range_circle :: "Simulator \<Rightarrow> MapView \<Rightarrow> Vehicule \<Rightarrow> vid \<times> (real \<times> real) \<times> real" where
  "range_circle s v c =
     (case getPosition (sim_graph s) c of (lat, lon) \<Rightarrow>
        (veh_id c, lonLatToScreen v lon lat, transmissionRange c / metersPerPixelAtLat (m_zoom v) lat))"

definition antenna_points :: "Simulator \<Rightarrow> MapView \<Rightarrow> (real \<times> real) list \<times> (cell_id \<times> (real \<times> real)) list" where
  "antenna_points s v =
     (let ig = m_interferenceGraph s; sg = getSpatialGrid ig
      in if \<not> isSpatialOptimizationEnabled ig then ([], [])
         else (map (\<lambda>k. case getMicroAntennas sg k of Some m \<Rightarrow> lonLatToScreen v (mi_centerLon m) (mi_centerLat m) | None \<Rightarrow> (0, 0))
                   (sorted_list_of_set (dom (getMicroAntennas sg))),
               map (\<lambda>k. (k, case getMacroAntennas sg k of Some m \<Rightarrow> lonLatToScreen v (ma_centerLon m) (ma_centerLat m) | None \<Rightarrow> (0, 0)))
                   (sorted_list_of_set (dom (getMacroAntennas sg)))))"

definition paintEvent :: "tile_env \<Rightarrow> MapView \<times> Simulator \<Rightarrow> MapView \<times> Frame" where
  "paintEvent env vs =
     (case vs of (v, s) \<Rightarrow>
        (let v1 = follow_camera s (check_tracked s v);
             (v2, tiles) = (if m_tilesTemplate v1 \<noteq> [] then drawTiles env v1 else (v1, []));
             (v3, roads) = draw_roads s v2;
             visible = visible_vehicles s v3;
             drawDetails = length visible < 500;
             (micro, macro) = antenna_points s v3;
             center = screenToLonLat v3 (screen_center v3)
         in (v3, \<lparr>fr_tiles = tiles, fr_roads = roads,
                  fr_ranges = (if m_showRanges v3 \<and> drawDetails then map (range_circle s v3) visible else []),
                  fr_transitive = (if drawDetails \<and> m_showTransitiveConnections v3 then transitive_lines s visible else []),
                  fr_direct = (if drawDetails \<and> m_drawDirectConnections v3 then direct_lines s visible else []),
                  fr_micro = micro, fr_macro = macro,
                  fr_vehicles = map (\<lambda>c. (veh_id c, vehicle_point s v3 c)) visible,
                  fr_pointMode = (m_zoom v3 \<le> 12), fr_center = center,
                  fr_scale = scale_bar (metersPerPixelAtLat (m_zoom v3) (snd center))\<rparr>)))"

text \<open>Two views with the same camera, size, toggles and tracking.\<close>

definition same_camera :: "MapView \<Rightarrow> MapView \<Rightarrow> bool" where
  "same_camera v' v \<longleftrightarrow> m_zoom v' = m_zoom v \<and> m_offsetX v' = m_offsetX v \<and> m_offsetY v' = m_offsetY v \<and>
     mv_width v' = mv_width v \<and> mv_height v' = mv_height v \<and> m_drawDirectConnections v' = m_drawDirectConnections v \<and>
     m_showTransitiveConnections v' = m_showTransitiveConnections v \<and> m_showRanges v' = m_showRanges v \<and>
     m_followingVehicle v' = m_followingVehicle v \<and> m_trackedVehicle v' = m_trackedVehicle v \<and>
     mv_deleteButton v' = mv_deleteButton v"

subsection \<open>Properties of the frame\<close>

lemma lines_from_set:
  "finite ids \<Longrightarrow> set (lines_from s c ids) = {(veh_id c, j) | j. j \<in> ids \<and> veh_id c < j \<and> j \<in> veh_id ` set (m_vehicles s)}"
  by (auto simp: lines_from_def find_vehicle_def find_None_iff)

lemma direct_lines_set:
  assumes "finite_adj (adjacencyList (m_interferenceGraph s))"
  shows "set (direct_lines s visible) =
           {(i, j). i \<in> veh_id ` set visible \<and> i < j \<and> j \<in> getDirectNeighbors (m_interferenceGraph s) i \<and>
                    j \<in> veh_id ` set (m_vehicles s)}"
proof -
  have "finite (getDirectNeighbors (m_interferenceGraph s) i)" for i
    using assms by (simp add: getDirectNeighbors_def finite_adj_get)
  then show ?thesis by (auto simp: direct_lines_def lines_from_set)
qed

lemma draw_tile_camera: "same_camera (fst (draw_tile env tz n scale x0y0 d st)) (fst st)"
  by (auto simp: draw_tile_def Let_def same_camera_def split: prod.splits)

lemma drawTiles_camera: "same_camera (fst (drawTiles env v)) v"
proof -
  have "same_camera (fst (fold (draw_tile env tz n scale x0y0) cells (v, []))) v" for tz n scale x0y0 cells
    by (rule fold_invariant [where P = "\<lambda>st. same_camera (fst st) v"])
       (use draw_tile_camera in \<open>auto simp: same_camera_def\<close>)
  then show ?thesis by (simp add: drawTiles_unfold Let_def)
qed

lemma draw_roads_camera: "same_camera (fst (draw_roads s v)) v"
  by (simp add: draw_roads_def Let_def same_camera_def split: prod.splits)

lemma same_camera_screen: "same_camera v' v \<Longrightarrow> screenToLonLat v' p = screenToLonLat v p \<and> lonLatToScreen v' lon lat = lonLatToScreen v lon lat"
  by (simp add: same_camera_def screenToLonLat_def lonLatToScreen_def)

lemma same_camera_visible: "same_camera v' v \<Longrightarrow> visible_vehicles s v' = visible_vehicles s v"
  using same_camera_screen [of v' v] by (simp add: visible_vehicles_def same_camera_def)

lemma paintEvent_result:
  assumes "(if m_tilesTemplate (follow_camera s (check_tracked s v)) \<noteq> [] then drawTiles env (follow_camera s (check_tracked s v))
            else (follow_camera s (check_tracked s v), [])) = (v2, tiles)"
    and "draw_roads s v2 = (v3, roads)" and "antenna_points s v3 = (micro, macro)"
  shows "paintEvent env (v, s) =
    (v3, \<lparr>fr_tiles = tiles, fr_roads = roads,
          fr_ranges = (if m_showRanges v3 \<and> length (visible_vehicles s v3) < 500 then map (range_circle s v3) (visible_vehicles s v3) else []),
          fr_transitive = (if length (visible_vehicles s v3) < 500 \<and> m_showTransitiveConnections v3 then transitive_lines s (visible_vehicles s v3) else []),
          fr_direct = (if length (visible_vehicles s v3) < 500 \<and> m_drawDirectConnections v3 then direct_lines s (visible_vehicles s v3) else []),
          fr_micro = micro, fr_macro = macro,
          fr_vehicles = map (\<lambda>c. (veh_id c, vehicle_point s v3 c)) (visible_vehicles s v3),
          fr_pointMode = (m_zoom v3 \<le> 12), fr_center = screenToLonLat v3 (screen_center v3),
          fr_scale = scale_bar (metersPerPixelAtLat (m_zoom v3) (snd (screenToLonLat v3 (screen_center v3))))\<rparr>)"
  unfolding paintEvent_def Let_def by (simp only: assms prod.case)

lemma check_tracked_keeps [simp]:
  "m_zoom (check_tracked s v) = m_zoom v" "m_offsetX (check_tracked s v) = m_offsetX v"
  "m_offsetY (check_tracked s v) = m_offsetY v" "mv_width (check_tracked s v) = mv_width v"
  "mv_height (check_tracked s v) = mv_height v" "m_drawDirectConnections (check_tracked s v) = m_drawDirectConnections v"
  "m_darkTheme (check_tracked s v) = m_darkTheme v" "m_lowQualityMode (check_tracked s v) = m_lowQualityMode v"
  by (simp_all add: check_tracked_def split: option.splits)

lemma follow_camera_keeps [simp]:
  "m_zoom (follow_camera s v) = m_zoom v" "mv_width (follow_camera s v) = mv_width v"
  "mv_height (follow_camera s v) = mv_height v" "m_drawDirectConnections (follow_camera s v) = m_drawDirectConnections v"
  "m_followingVehicle (follow_camera s v) = m_followingVehicle v" "m_trackedVehicle (follow_camera s v) = m_trackedVehicle v"
  "mv_deleteButton (follow_camera s v) = mv_deleteButton v" "m_darkTheme (follow_camera s v) = m_darkTheme v"
  "m_lowQualityMode (follow_camera s v) = m_lowQualityMode v"
  by (simp_all add: follow_camera_def split: option.splits prod.splits)

lemma check_tracked_cases:
  "check_tracked s v = v \<or>
   (m_followingVehicle v \<and> check_tracked s v = v\<lparr>m_trackedVehicle := None, m_followingVehicle := False, mv_deleteButton := False\<rparr>)"
  by (simp add: check_tracked_def split: option.splits)

lemma find_vehicle_some: "find_vehicle s t = Some c \<Longrightarrow> c \<in> set (m_vehicles s) \<and> veh_id c = t"
proof -
  have "find P xs = Some c \<Longrightarrow> c \<in> set xs \<and> P c" for P xs by (induction xs) (auto split: if_splits)
  from this [of "\<lambda>c. veh_id c = t" "m_vehicles s"]
  show "find_vehicle s t = Some c \<Longrightarrow> c \<in> set (m_vehicles s) \<and> veh_id c = t" by (simp add: find_vehicle_def)
qed

lemma check_tracked_present:
  assumes "m_followingVehicle (check_tracked s v)" "m_trackedVehicle (check_tracked s v) = Some t"
  shows "\<exists>c. find_vehicle s t = Some c \<and> c \<in> set (m_vehicles s) \<and> veh_id c = t"
proof -
  have "t \<in> set (map veh_id (m_vehicles s))"
    using assms by (cases "m_trackedVehicle v") (auto simp: check_tracked_def split: if_splits)
  then obtain c where "find_vehicle s t = Some c" by (cases "find_vehicle s t") (auto simp: find_vehicle_def find_None_iff)
  then show ?thesis using find_vehicle_some by blast
qed

lemma paint_camera:
  obtains v2 tiles v3 roads micro macro where
    "(if m_tilesTemplate (follow_camera s (check_tracked s v)) \<noteq> [] then drawTiles env (follow_camera s (check_tracked s v))
      else (follow_camera s (check_tracked s v), [])) = (v2, tiles)"
    "draw_roads s v2 = (v3, roads)" "antenna_points s v3 = (micro, macro)"
    "same_camera v3 (follow_camera s (check_tracked s v))"
proof -
  let ?v1 = "follow_camera s (check_tracked s v)"
  obtain v2 tiles where t: "(if m_tilesTemplate ?v1 \<noteq> [] then drawTiles env ?v1 else (?v1, [])) = (v2, tiles)" by fastforce
  have c2: "same_camera v2 ?v1" using t drawTiles_camera [of env ?v1] by (auto simp: same_camera_def split: if_splits)
  obtain v3 roads where r: "draw_roads s v2 = (v3, roads)" by fastforce
  have "same_camera v3 v2" using r draw_roads_camera [of s v2] by simp
  then have "same_camera v3 ?v1" using c2 by (simp add: same_camera_def)
  moreover obtain micro macro where "antenna_points s v3 = (micro, macro)" by fastforce
  ultimately show ?thesis using that t r by blast
qed

lemma lines_from_distinct: "distinct (lines_from s c ids)"
  by (simp add: lines_from_def distinct_map inj_on_def)

lemma lines_from_fst: "p \<in> set (lines_from s c ids) \<Longrightarrow> fst p = veh_id c"
  by (auto simp: lines_from_def)

lemma direct_lines_distinct: "distinct (map veh_id cs) \<Longrightarrow> distinct (direct_lines s cs)"
proof (induction cs)
  case (Cons c cs)
  have "fst p \<in> veh_id ` set cs" if "p \<in> set (direct_lines s cs)" for p
    using that by (auto simp: direct_lines_def dest: lines_from_fst)
  moreover have "fst p = veh_id c" if "p \<in> set (lines_from s c (getDirectNeighbors (m_interferenceGraph s) (veh_id c)))" for p
    using that by (rule lines_from_fst)
  ultimately have "set (lines_from s c (getDirectNeighbors (m_interferenceGraph s) (veh_id c))) \<inter> set (direct_lines s cs) = {}"
    using Cons.prems by fastforce
  then show ?case using Cons by (simp add: direct_lines_def lines_from_distinct)
qed (simp add: direct_lines_def)

lemma visible_ids_distinct: "distinct (map veh_id (m_vehicles s)) \<Longrightarrow> distinct (map veh_id (visible_vehicles s v))"
  by (simp add: visible_vehicles_def distinct_map_filter split: prod.splits)

text \<open>
  C28: when the direct connections are shown, fewer than 500 vehicles are visible and the
  simulator's vehicle identifiers are distinct, the frame draws exactly one line per pair \<open>(i, j)\<close> with \<open>i\<close> a visible vehicle, \<open>j\<close> one of
  its neighbours in the published graph that is a vehicle of the simulator, and
  \<open>i < j\<close>. A link from a visible vehicle to a vehicle off the screen is therefore drawn
  only when the visible one has the smaller identifier.
\<close>

theorem paint_direct_lines:
  assumes "finite_adj (adjacencyList (m_interferenceGraph s))" "m_drawDirectConnections v"
    and "length (visible_vehicles s (fst (paintEvent env (v, s)))) < 500"
    and "distinct (map veh_id (m_vehicles s))"
  shows "distinct (fr_direct (snd (paintEvent env (v, s)))) \<and>
         set (fr_direct (snd (paintEvent env (v, s)))) =
           {(i, j). i \<in> veh_id ` set (visible_vehicles s (fst (paintEvent env (v, s)))) \<and> i < j \<and>
                    j \<in> getDirectNeighbors (m_interferenceGraph s) i \<and> j \<in> veh_id ` set (m_vehicles s)}"
proof -
  obtain v2 tiles v3 roads micro macro where t: "(if m_tilesTemplate (follow_camera s (check_tracked s v)) \<noteq> []
        then drawTiles env (follow_camera s (check_tracked s v)) else (follow_camera s (check_tracked s v), [])) = (v2, tiles)"
    and r: "draw_roads s v2 = (v3, roads)" and a: "antenna_points s v3 = (micro, macro)"
    and c: "same_camera v3 (follow_camera s (check_tracked s v))"
    by (rule paint_camera)
  note pe = paintEvent_result [OF t r a]
  have d: "m_drawDirectConnections v3" using c assms(2) by (simp add: same_camera_def)
  have l: "length (visible_vehicles s v3) < 500" using assms(3) pe by simp
  have u: "distinct (direct_lines s (visible_vehicles s v3))"
    using assms(4) by (intro direct_lines_distinct visible_ids_distinct)
  show ?thesis using pe d l u direct_lines_set [OF assms(1)] by simp
qed

text \<open>
  C29: a followed vehicle is drawn at the centre of the widget: after a frame in which the
  view still follows vehicle \<open>t\<close> (it was not removed from the simulator), \<open>t\<close> is among the
  drawn vehicles, at the screen point \<open>(width/2, height/2)\<close>, when every vehicle lies
  strictly between the poles.
\<close>

theorem paint_follows_vehicle:
  assumes "m_followingVehicle (fst (paintEvent env (v, s)))" "m_trackedVehicle (fst (paintEvent env (v, s))) = Some t"
    and "0 \<le> mv_width v" "0 \<le> mv_height v"
    and "\<forall>c\<in>set (m_vehicles s). - 90 < fst (getPosition (sim_graph s) c) \<and> fst (getPosition (sim_graph s) c) < 90"
  shows "(t, (real_of_int (mv_width v) / 2, real_of_int (mv_height v) / 2)) \<in> set (fr_vehicles (snd (paintEvent env (v, s))))"
proof -
  let ?v0 = "check_tracked s v" let ?v1 = "follow_camera s ?v0"
  obtain v2 tiles v3 roads micro macro where t: "(if m_tilesTemplate ?v1 \<noteq> [] then drawTiles env ?v1 else (?v1, [])) = (v2, tiles)"
    and r: "draw_roads s v2 = (v3, roads)" and a: "antenna_points s v3 = (micro, macro)" and c: "same_camera v3 ?v1"
    by (rule paint_camera)
  note pe = paintEvent_result [OF t r a]
  have f: "m_followingVehicle ?v0" "m_trackedVehicle ?v0 = Some t" using assms(1,2) pe c by (simp_all add: same_camera_def)
  obtain car where car: "find_vehicle s t = Some car" "car \<in> set (m_vehicles s)" "veh_id car = t"
    using check_tracked_present [OF f] by blast
  obtain lat lon where pos: "getPosition (sim_graph s) car = (lat, lon)" by fastforce
  obtain px py where pix: "lonlatToPixel lon lat (m_zoom v) = (px, py)" by fastforce
  let ?w = "real_of_int (mv_width v)" and ?h = "real_of_int (mv_height v)"
  have o: "m_offsetX v3 = px - ?w / 2" "m_offsetY v3 = py - ?h / 2" "m_zoom v3 = m_zoom v"
    using f car pos pix c by (simp_all add: follow_camera_def same_camera_def)
  have wh: "mv_width v3 = mv_width v" "mv_height v3 = mv_height v" using c by (simp_all add: same_camera_def)
  have lat: "- 90 < lat" "lat < 90" using assms(5) car(2) pos by force+
  have inv: "pixelToLonlat px py (m_zoom v) = (lon, lat)"
    using lonlat_pixel_inverse [OF lat, of lon "m_zoom v"] pix by simp
  have pt: "vehicle_point s v3 car = (?w / 2, ?h / 2)" using pos pix o by (simp add: vehicle_point_def lonLatToScreen_def)
  have "px - ?w / 2 \<le> px" "px \<le> px - ?w / 2 + ?w" "py - ?h / 2 \<le> py" "py \<le> py - ?h / 2 + ?h" using assms(3,4) by simp_all
  then have "fst (pixelToLonlat (px - ?w / 2) (py - ?h / 2) (m_zoom v)) \<le> lon"
      "lon \<le> fst (pixelToLonlat (px - ?w / 2 + ?w) (py - ?h / 2 + ?h) (m_zoom v))"
      "snd (pixelToLonlat (px - ?w / 2 + ?w) (py - ?h / 2 + ?h) (m_zoom v)) \<le> lat"
      "lat \<le> snd (pixelToLonlat (px - ?w / 2) (py - ?h / 2) (m_zoom v))"
    using pixelToLonlat_lon_mono pixelToLonlat_lat_anti inv by (metis fst_conv snd_conv)+
  moreover obtain a b where ab: "pixelToLonlat (px - ?w / 2) (py - ?h / 2) (m_zoom v) = (a, b)" by fastforce
  moreover obtain c' d where cd: "pixelToLonlat (px - ?w / 2 + ?w) (py - ?h / 2 + ?h) (m_zoom v) = (c', d)" by fastforce
  moreover have "screenToLonLat v3 (0, 0) = (a, b)" "screenToLonLat v3 (mv_width v3, mv_height v3) = (c', d)"
    using ab cd o wh by (simp_all add: screenToLonLat_def)
  ultimately have "car \<in> set (visible_vehicles s v3)"
    using car(2) pos by (simp add: visible_vehicles_def)
  then show ?thesis using pe pt car(3) by force
qed

lemma paintEvent_tracking:
  "m_followingVehicle (fst (paintEvent env (v, s))) = m_followingVehicle (check_tracked s v) \<and>
   m_trackedVehicle (fst (paintEvent env (v, s))) = m_trackedVehicle (check_tracked s v)"
proof -
  obtain v2 tiles v3 roads micro macro where t: "(if m_tilesTemplate (follow_camera s (check_tracked s v)) \<noteq> []
        then drawTiles env (follow_camera s (check_tracked s v)) else (follow_camera s (check_tracked s v), [])) = (v2, tiles)"
    and r: "draw_roads s v2 = (v3, roads)" and a: "antenna_points s v3 = (micro, macro)"
    and c: "same_camera v3 (follow_camera s (check_tracked s v))"
    by (rule paint_camera)
  show ?thesis using paintEvent_result [OF t r a] c by (simp add: same_camera_def)
qed

lemma draw_tile_flags:
  "m_darkTheme (fst (draw_tile env tz n scale x0y0 d (st :: MapView \<times> DrawnTile list))) = m_darkTheme (fst st) \<and>
   m_lowQualityMode (fst (draw_tile env tz n scale x0y0 d st)) = m_lowQualityMode (fst st)"
  by (auto simp: draw_tile_def Let_def split: prod.splits)

lemma drawTiles_flags:
  "m_darkTheme (fst (drawTiles env v)) = m_darkTheme v \<and> m_lowQualityMode (fst (drawTiles env v)) = m_lowQualityMode v"
proof -
  have "m_darkTheme (fst (fold (draw_tile env tz n scale x0y0) cells (v, []))) = m_darkTheme v \<and>
        m_lowQualityMode (fst (fold (draw_tile env tz n scale x0y0) cells (v, []))) = m_lowQualityMode v" for tz n scale x0y0 cells
    by (rule fold_invariant [where P = "\<lambda>st. m_darkTheme (fst st) = m_darkTheme v \<and> m_lowQualityMode (fst st) = m_lowQualityMode v"])
       (use draw_tile_flags in auto)
  then show ?thesis by (simp add: drawTiles_unfold Let_def)
qed

lemma draw_roads_flags:
  "m_darkTheme (fst (draw_roads s v)) = m_darkTheme v \<and> m_lowQualityMode (fst (draw_roads s v)) = m_lowQualityMode v"
  by (simp add: draw_roads_def Let_def split: prod.splits)

lemma paintEvent_flags:
  "mv_deleteButton (fst (paintEvent env (v, s))) = mv_deleteButton (check_tracked s v) \<and>
   m_darkTheme (fst (paintEvent env (v, s))) = m_darkTheme v \<and> m_lowQualityMode (fst (paintEvent env (v, s))) = m_lowQualityMode v"
proof -
  let ?v1 = "follow_camera s (check_tracked s v)"
  obtain v2 tiles v3 roads micro macro where t: "(if m_tilesTemplate ?v1 \<noteq> [] then drawTiles env ?v1 else (?v1, [])) = (v2, tiles)"
    and r: "draw_roads s v2 = (v3, roads)" and a: "antenna_points s v3 = (micro, macro)" and c: "same_camera v3 ?v1"
    by (rule paint_camera)
  have f2: "m_darkTheme v2 = m_darkTheme v \<and> m_lowQualityMode v2 = m_lowQualityMode v"
    using t drawTiles_flags [of env ?v1] by (auto split: if_splits)
  have f3: "m_darkTheme v3 = m_darkTheme v2 \<and> m_lowQualityMode v3 = m_lowQualityMode v2"
    using r draw_roads_flags [of s v2] by simp
  show ?thesis using paintEvent_result [OF t r a] c f2 f3 by (simp add: same_camera_def)
qed

end
