(* ===== verification/MapApp.thy ===== *)
theory MapApp
  imports MapPaint
begin

text \<open>
  The application as one event loop: the view and its simulator change by an event of
  the driver (a step of \<open>sim_step\<close>: ticks, build completions and the simulator's
  commands), an input event of the widget (mouse, wheel, keys, resize), a handler of the
  overlay, a repaint, or an event of the tile downloads (a reply or a retry timer). The
  invariant of the view: the zoom stays in 0..20, the widget size is not negative, a
  vehicle is tracked exactly when the view follows one and exactly when the overlay shows
  the delete button, and every tile in flight or waiting for a retry exists in the
  pyramid.
\<close>

definition resizeEvent :: "int \<Rightarrow> int \<Rightarrow> MapView \<Rightarrow> MapView" where
  "resizeEvent w h v = v\<lparr>mv_width := w, mv_height := h\<rparr>"

inductive app_step :: "MapView \<times> Simulator \<Rightarrow> MapView \<times> Simulator \<Rightarrow> bool" where
  driver: "sim_step s s' \<Longrightarrow> app_step (v, s) (v, s')"
| press: "app_step (v, s) (mousePressEvent b p v, s)"
| move: "app_step (v, s) (mouseMoveEvent p v, s)"
| release: "app_step vs (mouseReleaseEvent b jk vs)"
| wheel: "app_step (v, s) (wheelEvent d p v, s)"
| key: "app_step vs (keyPressEvent k vs)"
| zoom_in: "app_step (v, s) (zoomIn v, s)"
| zoom_out: "app_step (v, s) (zoomOut v, s)"
| resize: "0 \<le> w \<Longrightarrow> 0 \<le> h \<Longrightarrow> app_step (v, s) (resizeEvent w h v, s)"
| theme: "app_step (v, s) (themeToggled b v, s)"
| quality: "app_step (v, s) (qualityToggled b v, s)"
| connections: "app_step (v, s) (showConnectionsChanged b v, s)"
| ranges: "app_step (v, s) (showRangesChanged b v, s)"
| roads: "app_step (v, s) (showRoadsChanged b v, s)"
| transitive: "app_step vs (showTransitiveChanged b vs)"
| delete: "app_step vs (deleteTrackedVehicle vs)"
| template: "app_step (v, s) (setTilesTemplate t v, s)"
| rate: "app_step (v, s) (setRequestRateLimitMs ms v, s)"
| center: "app_step (v, s) (setCenterLonLat lon lat z v, s)"
| paint: "app_step (v, s) (fst (paintEvent env (v, s)), s)"
| reply: "app_step (v, s) (tileReplyFinished k url ok v, s)"
| timer: "app_step (v, s) (tileTimerFired i env v, s)"

definition app_reachable :: "int \<Rightarrow> int \<Rightarrow> RoadGraph \<Rightarrow> nat stream \<Rightarrow> MapView \<times> Simulator \<Rightarrow> bool" where
  "app_reachable w h g rs vs \<longleftrightarrow> app_step\<^sup>*\<^sup>* (new_MapView w h, new_Simulator g rs) vs"

definition view_inv :: "MapView \<Rightarrow> bool" where
  "view_inv v \<longleftrightarrow>
     0 \<le> m_zoom v \<and> m_zoom v \<le> 20 \<and> 0 \<le> mv_width v \<and> 0 \<le> mv_height v \<and>
     (m_followingVehicle v \<longleftrightarrow> m_trackedVehicle v \<noteq> None) \<and> (mv_deleteButton v \<longleftrightarrow> m_followingVehicle v) \<and>
     requests_ok v"

subsection \<open>The invariant of the view\<close>

lemma view_inv_cong:
  assumes "view_inv v" "m_zoom v' = m_zoom v" "mv_width v' = mv_width v" "mv_height v' = mv_height v"
    "m_followingVehicle v' = m_followingVehicle v" "m_trackedVehicle v' = m_trackedVehicle v"
    "mv_deleteButton v' = mv_deleteButton v" "m_inflight v' = m_inflight v" "m_timers v' = m_timers v"
  shows "view_inv v'"
  using assms by (simp add: view_inv_def requests_ok_def)

lemma view_inv_zoomAt: "view_inv v \<Longrightarrow> view_inv (zoomAt p f v)"
  by (auto simp: view_inv_def zoomAt_def Let_def clamp_int_def requests_ok_def split: prod.splits)

lemma view_inv_press: "view_inv v \<Longrightarrow> view_inv (mousePressEvent b p v)"
  by (simp add: view_inv_def mousePressEvent_def requests_ok_def)

lemma view_inv_move: "view_inv v \<Longrightarrow> view_inv (mouseMoveEvent p v)"
  by (auto simp: view_inv_def mouseMoveEvent_def Let_def requests_ok_def)

lemma view_inv_release: "view_inv (fst vs) \<Longrightarrow> view_inv (fst (mouseReleaseEvent b jk vs))"
proof -
  assume i: "view_inv (fst vs)"
  obtain v s where vs: "vs = (v, s)" by fastforce
  have "fst (mouseReleaseEvent b jk (v, s)) = v \<or> fst (mouseReleaseEvent b jk (v, s)) = v\<lparr>m_dragging := False\<rparr> \<or>
        (\<exists>j. fst (mouseReleaseEvent b jk (v, s)) =
              v\<lparr>m_trackedVehicle := Some j, m_followingVehicle := True, mv_deleteButton := True, m_dragging := False\<rparr>)"
    by (simp add: mouseReleaseEvent_def Let_def split: prod.split option.split) blast
  then show ?thesis using i vs by (auto simp: view_inv_def requests_ok_def)
qed

lemma view_inv_key: "view_inv (fst vs) \<Longrightarrow> view_inv (fst (keyPressEvent k vs))"
proof -
  assume i: "view_inv (fst vs)"
  obtain v s where vs: "vs = (v, s)" by fastforce
  show ?thesis
  proof (cases k)
    case Key_Plus then show ?thesis using i vs by (simp add: keyPressEvent_def view_inv_zoomAt)
  next
    case Key_Equal then show ?thesis using i vs by (simp add: keyPressEvent_def view_inv_zoomAt)
  next
    case Key_Minus then show ?thesis using i vs by (simp add: keyPressEvent_def view_inv_zoomAt)
  next
    case Key_Underscore then show ?thesis using i vs by (simp add: keyPressEvent_def view_inv_zoomAt)
  qed (use i vs in \<open>auto simp: keyPressEvent_def themeToggled_def view_inv_def requests_ok_def\<close>)
qed

lemma view_inv_wheel: "view_inv v \<Longrightarrow> view_inv (wheelEvent d p v)"
  by (simp add: wheelEvent_def Let_def view_inv_zoomAt)

lemma check_tracked_inv: "view_inv v \<Longrightarrow> view_inv (check_tracked s v)"
  by (auto simp: check_tracked_def view_inv_def requests_ok_def split: option.splits)

lemma follow_camera_inv: "view_inv v \<Longrightarrow> view_inv (follow_camera s v)"
  by (auto simp: follow_camera_def view_inv_def requests_ok_def split: option.splits prod.splits)

lemma draw_roads_requests: "requests_ok (fst (draw_roads s v)) = requests_ok v"
  by (simp add: draw_roads_def Let_def requests_ok_def split: prod.splits)

lemma view_inv_paint: "view_inv v \<Longrightarrow> view_inv (fst (paintEvent env (v, s)))"
proof -
  assume i: "view_inv v"
  let ?v1 = "follow_camera s (check_tracked s v)"
  have i1: "view_inv ?v1" using i by (simp add: check_tracked_inv follow_camera_inv)
  obtain v2 tiles v3 roads micro macro where t: "(if m_tilesTemplate ?v1 \<noteq> [] then drawTiles env ?v1 else (?v1, [])) = (v2, tiles)"
    and r: "draw_roads s v2 = (v3, roads)" and a: "antenna_points s v3 = (micro, macro)" and c: "same_camera v3 ?v1"
    by (rule paint_camera)
  have "requests_ok v2"
    using t i1 drawTiles_requests_ok [of ?v1 env] by (auto simp: view_inv_def split: if_splits)
  then have "requests_ok v3" using r draw_roads_requests [of s v2] by simp
  then have "view_inv v3" using i1 c by (simp add: view_inv_def same_camera_def)
  then show ?thesis using paintEvent_result [OF t r a] by simp
qed

lemma view_inv_reply: "view_inv v \<Longrightarrow> view_inv (tileReplyFinished k url ok v)"
  by (auto simp: tileReplyFinished_def Let_def view_inv_def requests_ok_def)

lemma view_inv_timer: "view_inv v \<Longrightarrow> view_inv (tileTimerFired i env v)"
proof -
  assume iv: "view_inv v"
  show ?thesis
  proof (cases "i < length (m_timers v)")
    case True
    obtain key wait where kw: "m_timers v ! i = (key, wait)" by fastforce
    let ?v' = "v\<lparr>m_timers := take i (m_timers v) @ drop (Suc i) (m_timers v)\<rparr>"
    have k: "tile_key_ok key" using iv True kw nth_mem [OF True] by (force simp: view_inv_def requests_ok_def)
    have "requests_ok ?v'" using iv by (auto simp: view_inv_def requests_ok_def dest: in_set_takeD in_set_dropD)
    moreover have "tile_key_ok \<lparr>tk_z = tk_z key, tk_x = tk_x key, tk_y = tk_y key\<rparr>" using k by (simp add: tile_key_ok_def)
    ultimately have "requests_ok (requestTile env (tk_z key) (tk_x key) (tk_y key) ?v')" by (rule requestTile_ok)
    moreover have "view_inv ?v'" using iv \<open>requests_ok ?v'\<close> by (simp add: view_inv_def)
    ultimately show ?thesis using True kw by (simp add: tileTimerFired_def view_inv_def)
  next
    case False
    then show ?thesis using iv by (simp add: tileTimerFired_def)
  qed
qed

lemma view_inv_center: "view_inv v \<Longrightarrow> view_inv (setCenterLonLat lon lat z v)"
  by (auto simp: setCenterLonLat_def setCenterWorld_def clamp_int_def view_inv_def requests_ok_def split: prod.splits)

lemma view_inv_simple:
  "view_inv v \<Longrightarrow> view_inv (themeToggled b v)" "view_inv v \<Longrightarrow> view_inv (qualityToggled b v)"
  "view_inv v \<Longrightarrow> view_inv (showConnectionsChanged b v)" "view_inv v \<Longrightarrow> view_inv (showRangesChanged b v)"
  "view_inv v \<Longrightarrow> view_inv (showRoadsChanged b v)" "view_inv v \<Longrightarrow> view_inv (setTilesTemplate t v)"
  "view_inv v \<Longrightarrow> view_inv (setRequestRateLimitMs ms v)"
  "view_inv v \<Longrightarrow> 0 \<le> w \<Longrightarrow> 0 \<le> h \<Longrightarrow> view_inv (resizeEvent w h v)"
  "view_inv (fst vs) \<Longrightarrow> view_inv (fst (showTransitiveChanged b vs))"
  "view_inv (fst vs) \<Longrightarrow> view_inv (fst (deleteTrackedVehicle vs))"
  by (auto simp: view_inv_def requests_ok_def themeToggled_def qualityToggled_def showConnectionsChanged_def
      showRangesChanged_def showRoadsChanged_def setTilesTemplate_def setRequestRateLimitMs_def resizeEvent_def
      showTransitiveChanged_def deleteTrackedVehicle_def split: prod.splits option.splits)

lemma app_step_inv: "app_step a b \<Longrightarrow> view_inv (fst a) \<Longrightarrow> view_inv (fst b)"
  by (induction rule: app_step.induct)
     (auto intro: view_inv_zoomAt view_inv_press view_inv_move view_inv_release view_inv_key view_inv_wheel
        view_inv_paint view_inv_reply view_inv_timer view_inv_center view_inv_simple simp: zoomIn_def zoomOut_def)

lemma app_step_driver: "app_step a b \<Longrightarrow> snd a = snd b \<or> sim_step (snd a) (snd b)"
  by (induction rule: app_step.induct)
     (auto simp: mouseReleaseEvent_def keyPressEvent_def showTransitiveChanged_def deleteTrackedVehicle_def Let_def
           intro: sim_step.intros split: prod.splits option.splits key.splits)

lemma new_MapView_inv: "0 \<le> w \<Longrightarrow> 0 \<le> h \<Longrightarrow> view_inv (new_MapView w h)"
  by (simp add: new_MapView_def view_inv_def requests_ok_def)

lemma app_steps_view_inv: "app_step\<^sup>*\<^sup>* a b \<Longrightarrow> view_inv (fst a) \<Longrightarrow> view_inv (fst b)"
  by (induction rule: rtranclp_induct) (auto dest: app_step_inv)

text \<open>
  C30: in every state of the application reached from a view of non-negative size and a
  new simulator, the view invariant holds (zoom in 0..20, non-negative size, tracking,
  following and the delete button agree, every requested tile exists), and the simulator
  is in a state its own event loop reaches, so that every property of the driver's
  reachable states holds for it.
\<close>

theorem app_reachable_inv:
  assumes "app_reachable w h g rs vs" "0 \<le> w" "0 \<le> h"
  shows "view_inv (fst vs) \<and> reachable g rs (snd vs)"
proof -
  have "app_step\<^sup>*\<^sup>* (new_MapView w h, new_Simulator g rs) vs" using assms(1) by (simp add: app_reachable_def)
  then show ?thesis
  proof (induction rule: rtranclp_induct)
    case base
    then show ?case using new_MapView_inv [OF assms(2,3)] by (simp add: reachable_def)
  next
    case (step y z)
    have "reachable g rs (snd z)"
      using step app_step_driver [OF step(2)] by (auto simp: reachable_def intro: rtranclp.rtrancl_into_rtrancl)
    then show ?case using step app_step_inv by blast
  qed
qed

end
