(* ===== verification/Overlay.thy ===== *)
theory Overlay
  imports QtCore Simulator "HOL-Library.Signed_Division"
begin

text \<open>
  The overlay of the map (\<open>src/src/overlay_ui.cpp\<close>, \<open>src/include/overlay_ui.h\<close>): the top
  bar (running badge, theme and quality buttons, map information), the parameters panel
  (five \<open>QSlider\<close> rows with their value labels and four checkable toggles), the statistics
  panel, the retractable bottom menu with its slide animation, the zoom buttons, and the
  \<open>UIOverlay\<close> that places them and shows the delete button of a followed vehicle. Each
  widget is a record of the state its methods read and write: the texts of its labels and
  buttons, the checked states, the slider ranges and values, and the geometry the overlay
  computes. A slot that emits signals returns the signals in the order it emits them; the
  application theory connects them to the map view. A \<open>QSlider\<close> keeps its value in its
  range (\<open>setValue\<close> clamps) and emits \<open>valueChanged\<close> only when the value changes, unless
  its signals are blocked. The resources (\<open>findResource\<close>) are found through an
  environment saying which files exist and load as images. Stylesheets, fonts, colours and
  the painting of the panels are not modelled.
\<close>

subsection \<open>Texts of the source\<close>

text \<open>The labels with an icon, as the UTF-8 bytes of the source.\<close>

definition txt_running :: string where
  "txt_running = [CHR 0xE2, CHR 0x9A, CHR 0xA1] @ '' Running''"

definition txt_paused :: string where
  "txt_paused = [CHR 0xE2, CHR 0x8F, CHR 0xB8] @ '' Paused''"

definition txt_dark_icon :: string where
  "txt_dark_icon = [CHR 0xF0, CHR 0x9F, CHR 0x8C, CHR 0x99] @ '' Dark''"

definition txt_light_icon :: string where
  "txt_light_icon = [CHR 0xE2, CHR 0x98, CHR 0x80, CHR 0xEF, CHR 0xB8, CHR 0x8F] @ '' Light''"

definition txt_hq_icon :: string where
  "txt_hq_icon = [CHR 0xE2, CHR 0x9C, CHR 0xA8] @ '' HQ''"

definition txt_fast_icon :: string where
  "txt_fast_icon = [CHR 0xE2, CHR 0x9A, CHR 0xA1] @ '' Fast''"

subsection \<open>Resources\<close>

text \<open>
  \<open>findResource\<close>: the first of five candidate paths that exists, else the file name; the
  environment gives the application directory and the files that exist.
\<close>

record res_env =
  re_appDir :: string
  re_exists :: "string \<Rightarrow> bool"

definition findResource :: "res_env \<Rightarrow> string \<Rightarrow> string" where
  "findResource env filename =
     (case find (re_exists env)
             [filename, ''data/'' @ filename, ''../../data/'' @ filename,
              re_appDir env @ ''/data/'' @ filename, re_appDir env @ ''/../../data/'' @ filename] of
        Some p \<Rightarrow> p
      | None \<Rightarrow> filename)"

text \<open>A pixmap loaded from a resource: the path when the file exists (and loads), else a null pixmap.\<close>

definition load_icon :: "res_env \<Rightarrow> string \<Rightarrow> string option" where
  "load_icon env filename = (let p = findResource env filename in if re_exists env p then Some p else None)"

subsection \<open>The top bar\<close>

record TopBar =
  tb_running :: bool
  tb_darkTheme :: bool
  tb_highQuality :: bool
  tb_statusText :: string
  tb_startPauseText :: string
  tb_startPauseIcon :: "string option"
  tb_themeText :: string
  tb_qualityText :: string
  tb_infoText :: string

text \<open>\<open>updateButtonStates\<close>: the badge and the start/pause button follow \<open>m_running\<close>; the icon is set only when it loads.\<close>

definition updateButtonStates :: "res_env \<Rightarrow> TopBar \<Rightarrow> TopBar" where
  "updateButtonStates env tb =
     (if tb_running tb then
        tb\<lparr>tb_statusText := txt_running, tb_startPauseText := '' Pause'',
           tb_startPauseIcon := (case load_icon env ''pause.png'' of Some p \<Rightarrow> Some p | None \<Rightarrow> tb_startPauseIcon tb)\<rparr>
      else
        tb\<lparr>tb_statusText := txt_paused, tb_startPauseText := '' Continuer'',
           tb_startPauseIcon := (case load_icon env ''play.png'' of Some p \<Rightarrow> Some p | None \<Rightarrow> tb_startPauseIcon tb)\<rparr>)"

text \<open>The constructor and \<open>setupUI\<close>: the texts it sets, then \<open>updateButtonStates\<close>.\<close>

definition new_TopBar :: "res_env \<Rightarrow> TopBar" where
  "new_TopBar env =
     updateButtonStates env
       \<lparr>tb_running = False, tb_darkTheme = True, tb_highQuality = False, tb_statusText = txt_running,
        tb_startPauseText = [], tb_startPauseIcon = None, tb_themeText = ''Dark'', tb_qualityText = ''Fast'',
        tb_infoText = ''Zoom 16 | Lon 7.75210 | Lat 48.57340''\<rparr>"

definition setRunning :: "res_env \<Rightarrow> bool \<Rightarrow> TopBar \<Rightarrow> TopBar" where
  "setRunning env running tb = updateButtonStates env (tb\<lparr>tb_running := running\<rparr>)"

text \<open>The clicks of the theme and quality buttons: toggle, relabel, and emit the new state.\<close>

definition themeClicked :: "TopBar \<Rightarrow> TopBar \<times> bool" where
  "themeClicked tb =
     (let dark = \<not> tb_darkTheme tb
      in (tb\<lparr>tb_darkTheme := dark, tb_themeText := (if dark then ''Dark'' else ''Light'')\<rparr>, dark))"

definition qualityClicked :: "TopBar \<Rightarrow> TopBar \<times> bool" where
  "qualityClicked tb =
     (let hq = \<not> tb_highQuality tb
      in (tb\<lparr>tb_highQuality := hq, tb_qualityText := (if hq then ''HQ'' else ''Fast'')\<rparr>, hq))"

definition updateInfo :: "int \<Rightarrow> real \<Rightarrow> real \<Rightarrow> TopBar \<Rightarrow> TopBar" where
  "updateInfo zoom lon lat tb =
     tb\<lparr>tb_infoText := ''Zoom '' @ number zoom @ '' | Lon '' @ fixed 5 lon @ '' | Lat '' @ fixed 5 lat\<rparr>"

definition setDarkTheme :: "bool \<Rightarrow> TopBar \<Rightarrow> TopBar" where
  "setDarkTheme dark tb = tb\<lparr>tb_darkTheme := dark, tb_themeText := (if dark then txt_dark_icon else txt_light_icon)\<rparr>"

definition setHighQuality :: "bool \<Rightarrow> TopBar \<Rightarrow> TopBar" where
  "setHighQuality hq tb = tb\<lparr>tb_highQuality := hq, tb_qualityText := (if hq then txt_hq_icon else txt_fast_icon)\<rparr>"

subsection \<open>Sliders and toggles\<close>

record Slider =
  sl_min :: int
  sl_max :: int
  sl_value :: int

text \<open>\<open>QAbstractSlider::setValue\<close>: the value bounded by the range, and whether it changed.\<close>

definition slider_setValue :: "int \<Rightarrow> Slider \<Rightarrow> Slider \<times> bool" where
  "slider_setValue x sl =
     (let x' = max (sl_min sl) (min (sl_max sl) x) in (sl\<lparr>sl_value := x'\<rparr>, x' \<noteq> sl_value sl))"

text \<open>A row of \<open>createSliderRow\<close>: the slider, its value label and the label's suffix.\<close>

record SliderRow =
  sr_slider :: Slider
  sr_label :: string
  sr_suffix :: string

text \<open>
  \<open>createSliderRow\<close>: a new \<open>QSlider\<close> (range 0..99, value 0), \<open>setRange\<close>, \<open>setValue\<close> of the
  initial value, the label showing the initial value and the suffix.
\<close>

definition createSliderRow :: "int \<Rightarrow> int \<Rightarrow> int \<Rightarrow> string \<Rightarrow> SliderRow" where
  "createSliderRow mn mx initial suffix =
     (let sl0 = \<lparr>sl_min = mn, sl_max = mx, sl_value = max mn (min mx 0)\<rparr>
      in \<lparr>sr_slider = fst (slider_setValue initial sl0), sr_label = number initial @ suffix, sr_suffix = suffix\<rparr>)"

text \<open>
  The user moves a slider to a value: \<open>setValue\<close>, and when the value changed the lambda of
  \<open>createSliderRow\<close> relabels the row; the result says whether \<open>valueChanged\<close> was emitted.
\<close>

definition row_setValue :: "int \<Rightarrow> SliderRow \<Rightarrow> SliderRow \<times> bool" where
  "row_setValue x r =
     (case slider_setValue x (sr_slider r) of (sl, changed) \<Rightarrow>
        (if changed then r\<lparr>sr_slider := sl, sr_label := number (sl_value sl) @ sr_suffix r\<rparr> else r\<lparr>sr_slider := sl\<rparr>, changed))"

definition row_value :: "SliderRow \<Rightarrow> int" where
  "row_value r = sl_value (sr_slider r)"

subsection \<open>The parameters panel\<close>

record ParametersPanel =
  pp_vehicle :: SliderRow
  pp_speed :: SliderRow
  pp_large :: SliderRow
  pp_small :: SliderRow
  pp_range :: SliderRow
  pp_connections :: bool
  pp_ranges :: bool
  pp_transitive :: bool
  pp_roads :: bool

datatype panel_signal =
    VehicleCountChanged int | VehicleCountReleased int | TransmissionRangeChanged int
  | LargeAntennaCountChanged int | SmallAntennaCountChanged int | AntennaConfigReleased int int
  | VehicleSpeedChanged int | ShowConnectionsChanged bool | ShowRangesChanged bool
  | ShowTransitiveChanged bool | ShowRoadsChanged bool

datatype panel_slider = VehicleSlider | SpeedSlider | LargeAntennaSlider | SmallAntennaSlider | RangeSlider

datatype panel_switch = ConnectionsToggle | RangesToggle | TransitiveToggle | RoadsToggle

text \<open>\<open>setupUI\<close> of the panel: the five rows and four toggles with their ranges and initial values.\<close>

definition new_ParametersPanel :: ParametersPanel where
  "new_ParametersPanel =
     \<lparr>pp_vehicle = createSliderRow 1 10000 2000 [], pp_speed = createSliderRow 1 500 50 '' km/h'',
      pp_large = createSliderRow 0 50 5 [], pp_small = createSliderRow 0 200 20 [],
      pp_range = createSliderRow 10 1000 500 ''m'',
      pp_connections = True, pp_ranges = True, pp_transitive = False, pp_roads = False\<rparr>"

definition get_row :: "panel_slider \<Rightarrow> ParametersPanel \<Rightarrow> SliderRow" where
  "get_row k p = (case k of VehicleSlider \<Rightarrow> pp_vehicle p | SpeedSlider \<Rightarrow> pp_speed p
                   | LargeAntennaSlider \<Rightarrow> pp_large p | SmallAntennaSlider \<Rightarrow> pp_small p | RangeSlider \<Rightarrow> pp_range p)"

definition set_row :: "panel_slider \<Rightarrow> SliderRow \<Rightarrow> ParametersPanel \<Rightarrow> ParametersPanel" where
  "set_row k r p = (case k of VehicleSlider \<Rightarrow> p\<lparr>pp_vehicle := r\<rparr> | SpeedSlider \<Rightarrow> p\<lparr>pp_speed := r\<rparr>
                     | LargeAntennaSlider \<Rightarrow> p\<lparr>pp_large := r\<rparr> | SmallAntennaSlider \<Rightarrow> p\<lparr>pp_small := r\<rparr>
                     | RangeSlider \<Rightarrow> p\<lparr>pp_range := r\<rparr>)"

text \<open>The signal a slider's \<open>valueChanged\<close> is connected to.\<close>

definition value_signal :: "panel_slider \<Rightarrow> int \<Rightarrow> panel_signal" where
  "value_signal k x = (case k of VehicleSlider \<Rightarrow> VehicleCountChanged x | SpeedSlider \<Rightarrow> VehicleSpeedChanged x
                        | LargeAntennaSlider \<Rightarrow> LargeAntennaCountChanged x
                        | SmallAntennaSlider \<Rightarrow> SmallAntennaCountChanged x | RangeSlider \<Rightarrow> TransmissionRangeChanged x)"

text \<open>The user moves a slider: the row relabels itself, then the panel re-emits the value.\<close>

definition panel_slide :: "panel_slider \<Rightarrow> int \<Rightarrow> ParametersPanel \<Rightarrow> ParametersPanel \<times> panel_signal list" where
  "panel_slide k x p =
     (case row_setValue x (get_row k p) of (r, changed) \<Rightarrow>
        (set_row k r p, if changed then [value_signal k (row_value r)] else []))"

text \<open>The user releases a slider: the vehicle slider and the two antenna sliders emit on release.\<close>

definition panel_release :: "panel_slider \<Rightarrow> ParametersPanel \<Rightarrow> panel_signal list" where
  "panel_release k p =
     (case k of VehicleSlider \<Rightarrow> [VehicleCountReleased (row_value (pp_vehicle p))]
      | LargeAntennaSlider \<Rightarrow> [AntennaConfigReleased (row_value (pp_large p)) (row_value (pp_small p))]
      | SmallAntennaSlider \<Rightarrow> [AntennaConfigReleased (row_value (pp_large p)) (row_value (pp_small p))]
      | _ \<Rightarrow> [])"

text \<open>A click on a checkable toggle flips it and emits \<open>toggled\<close>, re-emitted by the panel.\<close>

definition panel_toggle :: "panel_switch \<Rightarrow> ParametersPanel \<Rightarrow> ParametersPanel \<times> panel_signal list" where
  "panel_toggle k p =
     (case k of
        ConnectionsToggle \<Rightarrow> (p\<lparr>pp_connections := \<not> pp_connections p\<rparr>, [ShowConnectionsChanged (\<not> pp_connections p)])
      | RangesToggle \<Rightarrow> (p\<lparr>pp_ranges := \<not> pp_ranges p\<rparr>, [ShowRangesChanged (\<not> pp_ranges p)])
      | TransitiveToggle \<Rightarrow> (p\<lparr>pp_transitive := \<not> pp_transitive p\<rparr>, [ShowTransitiveChanged (\<not> pp_transitive p)])
      | RoadsToggle \<Rightarrow> (p\<lparr>pp_roads := \<not> pp_roads p\<rparr>, [ShowRoadsChanged (\<not> pp_roads p)]))"

text \<open>
  \<open>ParametersPanel::setVehicleCount\<close>: with the slider's signals blocked, the slider takes
  the count (bounded by its range) and the label the count itself.
\<close>

definition panel_setVehicleCount :: "int \<Rightarrow> ParametersPanel \<Rightarrow> ParametersPanel" where
  "panel_setVehicleCount count p =
     p\<lparr>pp_vehicle := (pp_vehicle p)\<lparr>sr_slider := fst (slider_setValue count (sr_slider (pp_vehicle p))),
                                     sr_label := number count\<rparr>\<rparr>"

definition getVehicleCount_panel :: "ParametersPanel \<Rightarrow> int" where
  "getVehicleCount_panel p = row_value (pp_vehicle p)"
definition getTransmissionRange :: "ParametersPanel \<Rightarrow> int" where
  "getTransmissionRange p = row_value (pp_range p)"
definition getLargeAntennaCount :: "ParametersPanel \<Rightarrow> int" where
  "getLargeAntennaCount p = row_value (pp_large p)"
definition getSmallAntennaCount :: "ParametersPanel \<Rightarrow> int" where
  "getSmallAntennaCount p = row_value (pp_small p)"
definition getVehicleSpeed :: "ParametersPanel \<Rightarrow> int" where
  "getVehicleSpeed p = row_value (pp_speed p)"

subsection \<open>The statistics panel\<close>

record StatsPanel =
  st_activeVehicles :: string
  st_connectedVehicles :: string
  st_totalConnections :: string
  st_connectionRate :: string
  st_comparisons :: string
  st_avgNeighbors :: string
  st_buildTime :: string

text \<open>\<open>setupUI\<close>: every value label starts as \<open>"0"\<close>.\<close>

definition new_StatsPanel :: StatsPanel where
  "new_StatsPanel =
     \<lparr>st_activeVehicles = ''0'', st_connectedVehicles = ''0'', st_totalConnections = ''0'', st_connectionRate = ''0'',
      st_comparisons = ''0'', st_avgNeighbors = ''0'', st_buildTime = ''0''\<rparr>"

text \<open>\<open>StatsPanel::updateStats\<close>: the comparisons are written in millions or thousands from 10^6 and 10^3 on.\<close>

definition format_comparisons :: "int \<Rightarrow> string" where
  "format_comparisons comparisons =
     (if 1000000 \<le> comparisons then fixed 1 (real_of_int comparisons / 1000000) @ ''M''
      else if 1000 \<le> comparisons then fixed 1 (real_of_int comparisons / 1000) @ ''K''
      else number comparisons)"

definition updateStats_panel :: "int \<Rightarrow> int \<Rightarrow> int \<Rightarrow> real \<Rightarrow> int \<Rightarrow> real \<Rightarrow> real \<Rightarrow> StatsPanel \<Rightarrow> StatsPanel" where
  "updateStats_panel activeVehicles connectedVehicles totalConnections rate comparisons avgNeighbors buildTimeMs sp =
     sp\<lparr>st_activeVehicles := number activeVehicles, st_connectedVehicles := number connectedVehicles,
        st_totalConnections := number totalConnections, st_connectionRate := fixed 0 rate @ ''%'',
        st_comparisons := format_comparisons comparisons, st_avgNeighbors := fixed 1 avgNeighbors,
        st_buildTime := fixed 2 buildTimeMs @ '' ms''\<rparr>"

subsection \<open>The bottom menu and its animation\<close>

text \<open>A \<open>QRect\<close> as its left, top, width and height.\<close>

type_synonym rect = "int \<times> int \<times> int \<times> int"

text \<open>
  The interpolation of a \<open>QRect\<close> by a \<open>QPropertyAnimation\<close>: each of the coordinates left,
  top, right and bottom (right = left + width - 1) is interpolated as an \<open>int\<close>.
\<close>

definition rect_interpolate :: "rect \<Rightarrow> rect \<Rightarrow> real \<Rightarrow> rect" where
  "rect_interpolate r1 r2 progress =
     (case r1 of (l1, t1, w1, h1) \<Rightarrow> case r2 of (l2, t2, w2, h2) \<Rightarrow>
        (let l = interpolate_int l1 l2 progress; t = interpolate_int t1 t2 progress;
             r = interpolate_int (l1 + w1 - 1) (l2 + w2 - 1) progress;
             b = interpolate_int (t1 + h1 - 1) (t2 + h2 - 1) progress
         in (l, t, r - l + 1, b - t + 1)))"

record BottomMenu =
  bm_params :: ParametersPanel
  bm_stats :: StatsPanel
  bm_expanded :: bool
  bm_expandedHeight :: int
  bm_geometry :: rect
  bm_animRunning :: bool
  bm_animStart :: rect
  bm_animEnd :: rect

text \<open>
  The constructor: expanded, with the fixed height 380 (a new child widget is 100 x 30 at
  the origin), the two panels, and the stopped animation of 300 ms.
\<close>

definition new_BottomMenu :: BottomMenu where
  "new_BottomMenu =
     \<lparr>bm_params = new_ParametersPanel, bm_stats = new_StatsPanel, bm_expanded = True, bm_expandedHeight = 380,
      bm_geometry = (0, 0, 100, 380), bm_animRunning = False, bm_animStart = (0, 0, 0, 0), bm_animEnd = (0, 0, 0, 0)\<rparr>"

definition bm_top :: "BottomMenu \<Rightarrow> int" where
  "bm_top bm = fst (snd (bm_geometry bm))"

text \<open>
  \<open>BottomMenu::toggle\<close>, in a parent of the given size: flip, restart the animation from the
  current top to the top of the new state (the parent's height minus the menu's when
  expanded, the parent's height when retracted), and emit \<open>expansionChanged\<close>.
\<close>

definition toggle_menu :: "int \<Rightarrow> int \<Rightarrow> BottomMenu \<Rightarrow> BottomMenu \<times> bool" where
  "toggle_menu parentWidth parentHeight bm =
     (let expanded = \<not> bm_expanded bm; currentY = bm_top bm;
          targetY = (if expanded then parentHeight - bm_expandedHeight bm else parentHeight)
      in (bm\<lparr>bm_expanded := expanded, bm_animRunning := True,
             bm_animStart := (0, currentY, parentWidth, bm_expandedHeight bm),
             bm_animEnd := (0, targetY, parentWidth, bm_expandedHeight bm)\<rparr>, expanded))"

text \<open>A frame of the running animation at a time fraction in 0..1, eased by \<open>OutCubic\<close>; the last frame stops it at its end value.\<close>

definition anim_frame :: "real \<Rightarrow> BottomMenu \<Rightarrow> BottomMenu" where
  "anim_frame t bm =
     (if \<not> bm_animRunning bm then bm
      else bm\<lparr>bm_geometry := rect_interpolate (bm_animStart bm) (bm_animEnd bm) (easeOutCubic t)\<rparr>)"

definition anim_finish :: "BottomMenu \<Rightarrow> BottomMenu" where
  "anim_finish bm = (if \<not> bm_animRunning bm then bm else bm\<lparr>bm_geometry := bm_animEnd bm, bm_animRunning := False\<rparr>)"

subsection \<open>The overlay\<close>

record UIOverlay =
  ov_topBar :: TopBar
  ov_menu :: BottomMenu
  ov_width :: int
  ov_height :: int
  ov_topBarGeometry :: rect
  ov_zoomControlsPos :: "int \<times> int"
  ov_menuButtonPos :: "int \<times> int"
  ov_menuButtonIcon :: "(string \<times> bool) option"
  ov_deleteVisible :: bool
  ov_deletePos :: "int \<times> int"
  ov_hasSimulator :: bool

text \<open>\<open>updateToggleButtonIcon\<close>: the arrow icon, turned by 180 degrees while the menu is retracted, when it loads.\<close>

definition updateToggleButtonIcon :: "res_env \<Rightarrow> bool \<Rightarrow> UIOverlay \<Rightarrow> UIOverlay" where
  "updateToggleButtonIcon env menuExpanded ov =
     (case load_icon env ''down.png'' of
        None \<Rightarrow> ov
      | Some p \<Rightarrow> ov\<lparr>ov_menuButtonIcon := Some (p, \<not> menuExpanded)\<rparr>)"

text \<open>
  The constructor and \<open>setupUI\<close>: the top bar, the bottom menu, the zoom controls, the menu
  button with the icon of an expanded menu, the hidden delete button; the overlay is a new
  child widget (100 x 30) with no simulator yet.
\<close>

definition new_UIOverlay :: "res_env \<Rightarrow> UIOverlay" where
  "new_UIOverlay env =
     updateToggleButtonIcon env True
       \<lparr>ov_topBar = new_TopBar env, ov_menu = new_BottomMenu, ov_width = 100, ov_height = 30,
        ov_topBarGeometry = (0, 0, 100, 56), ov_zoomControlsPos = (0, 0), ov_menuButtonPos = (0, 0),
        ov_menuButtonIcon = None, ov_deleteVisible = False, ov_deletePos = (0, 0), ov_hasSimulator = False\<rparr>"

definition showDeleteVehicleButton :: "bool \<Rightarrow> UIOverlay \<Rightarrow> UIOverlay" where
  "showDeleteVehicleButton show ov =
     (if show then ov\<lparr>ov_deleteVisible := True, ov_deletePos := ((ov_width ov - 120) sdiv 2, 70)\<rparr>
      else ov\<lparr>ov_deleteVisible := False\<rparr>)"

text \<open>
  \<open>repositionElements\<close>: the top bar across the top; the menu at the bottom (unless its
  animation runs); the menu button 60 pixels above the menu's top but at most at
  \<open>height - 68\<close>; the zoom controls at the right, centred vertically.
\<close>

definition repositionElements :: "UIOverlay \<Rightarrow> UIOverlay" where
  "repositionElements ov =
     (let w = ov_width ov; h = ov_height ov; bm = ov_menu ov;
          bm1 = (if bm_animRunning bm then bm
                 else bm\<lparr>bm_geometry := (0, if bm_expanded bm then h - bm_expandedHeight bm else h, w, bm_expandedHeight bm)\<rparr>);
          btnY = bm_top bm1 - 60;
          btnY' = (if h - 68 < btnY then h - 68 else btnY)
      in ov\<lparr>ov_topBarGeometry := (0, 0, w, 56), ov_menu := bm1, ov_menuButtonPos := (w - 68, btnY'),
            ov_zoomControlsPos := (w - 56, h sdiv 2 - 45)\<rparr>)"

text \<open>\<open>setGeometry(0, 0, w, h)\<close> by the map view: a new size delivers \<open>resizeEvent\<close>, which repositions.\<close>

definition overlay_setGeometry :: "int \<Rightarrow> int \<Rightarrow> UIOverlay \<Rightarrow> UIOverlay" where
  "overlay_setGeometry w h ov =
     (if (w, h) = (ov_width ov, ov_height ov) then ov else repositionElements (ov\<lparr>ov_width := w, ov_height := h\<rparr>))"

text \<open>A click on the menu button: \<open>toggle\<close>, then the \<open>expansionChanged\<close> slot updates the icon.\<close>

definition menuButtonClicked :: "res_env \<Rightarrow> UIOverlay \<Rightarrow> UIOverlay" where
  "menuButtonClicked env ov =
     (case toggle_menu (ov_width ov) (ov_height ov) (ov_menu ov) of (bm, expanded) \<Rightarrow>
        updateToggleButtonIcon env expanded (ov\<lparr>ov_menu := bm\<rparr>))"

text \<open>The animation's \<open>valueChanged\<close>, connected to \<open>repositionElements\<close>.\<close>

definition menuAnimationFrame :: "real \<Rightarrow> UIOverlay \<Rightarrow> UIOverlay" where
  "menuAnimationFrame t ov = repositionElements (ov\<lparr>ov_menu := anim_frame t (ov_menu ov)\<rparr>)"

definition menuAnimationFinished :: "UIOverlay \<Rightarrow> UIOverlay" where
  "menuAnimationFinished ov = repositionElements (ov\<lparr>ov_menu := anim_finish (ov_menu ov)\<rparr>)"

text \<open>
  \<open>UIOverlay::updateStats\<close>: the number of vehicles, of vehicles with a direct neighbour, of
  links (the neighbour counts summed and halved), the connection rate and the statistics of
  the last build; the build time is the clock's measurement.
\<close>

definition neighbor_sets :: "Simulator \<Rightarrow> vid set list" where
  "neighbor_sets s = map (\<lambda>v. getDirectNeighbors (m_interferenceGraph s) (veh_id v)) (m_vehicles s)"

definition stats_counts :: "Simulator \<Rightarrow> int \<times> int \<times> int" where
  "stats_counts s =
     (let ns = neighbor_sets s
      in (int (length (m_vehicles s)), int (length (filter (\<lambda>N. N \<noteq> {}) ns)), int (sum_list (map card ns)) div 2))"

definition updateStats :: "real \<Rightarrow> Simulator \<Rightarrow> UIOverlay \<Rightarrow> UIOverlay" where
  "updateStats buildTimeMs s ov =
     (if \<not> ov_hasSimulator ov then ov
      else
        (case stats_counts s of (activeVehicles, connectedVehicles, totalConnections) \<Rightarrow>
           (let rate = (if 0 < activeVehicles then real_of_int connectedVehicles * 100 / real_of_int activeVehicles else 0);
                ig = m_interferenceGraph s
            in ov\<lparr>ov_menu := (ov_menu ov)\<lparr>bm_stats := updateStats_panel activeVehicles connectedVehicles totalConnections rate
                                   (lastComparisons ig) (lastAvgNeighbors ig) buildTimeMs (bm_stats (ov_menu ov))\<rparr>\<rparr>)))"

definition updateMapInfo :: "int \<Rightarrow> real \<Rightarrow> real \<Rightarrow> UIOverlay \<Rightarrow> UIOverlay" where
  "updateMapInfo zoom lon lat ov = ov\<lparr>ov_topBar := updateInfo zoom lon lat (ov_topBar ov)\<rparr>"

subsection \<open>Well-formed panels\<close>

text \<open>A slider row is well formed when its value lies in its range and its label shows the value and the suffix.\<close>

definition slider_ok :: "Slider \<Rightarrow> bool" where
  "slider_ok sl \<longleftrightarrow> sl_min sl \<le> sl_value sl \<and> sl_value sl \<le> sl_max sl"

definition row_ok :: "SliderRow \<Rightarrow> bool" where
  "row_ok r \<longleftrightarrow> slider_ok (sr_slider r) \<and> sr_label r = number (row_value r) @ sr_suffix r"

definition panel_ok :: "ParametersPanel \<Rightarrow> bool" where
  "panel_ok p \<longleftrightarrow> slider_ok (sr_slider (pp_vehicle p)) \<and> row_ok (pp_speed p) \<and> row_ok (pp_large p) \<and>
                   row_ok (pp_small p) \<and> row_ok (pp_range p)"

lemma slider_setValue_ok:
  "sl_min sl \<le> sl_max sl \<Longrightarrow> slider_ok (fst (slider_setValue x sl)) \<and>
     sl_min (fst (slider_setValue x sl)) = sl_min sl \<and> sl_max (fst (slider_setValue x sl)) = sl_max sl"
  by (simp add: slider_setValue_def slider_ok_def Let_def)

lemma slider_setValue_value:
  "sl_value (fst (slider_setValue x sl)) = max (sl_min sl) (min (sl_max sl) x)"
  by (simp add: slider_setValue_def Let_def)

lemma row_setValue_ok:
  assumes "row_ok r"
  shows "row_ok (fst (row_setValue x r)) \<and> sr_suffix (fst (row_setValue x r)) = sr_suffix r"
proof -
  have mm: "sl_min (sr_slider r) \<le> sl_max (sr_slider r)" using assms by (simp add: row_ok_def slider_ok_def)
  obtain sl c where e: "slider_setValue x (sr_slider r) = (sl, c)" by fastforce
  have ok: "slider_ok sl" using slider_setValue_ok [OF mm, of x] e by simp
  have "c \<longleftrightarrow> sl_value sl \<noteq> sl_value (sr_slider r)" using e by (auto simp: slider_setValue_def Let_def)
  then show ?thesis using assms ok e by (auto simp: row_setValue_def row_ok_def row_value_def)
qed

lemma get_set_row [simp]: "get_row k (set_row k r p) = r"
  by (cases k) (simp_all add: get_row_def set_row_def)

lemma set_row_other:
  "k \<noteq> k' \<Longrightarrow> get_row k' (set_row k r p) = get_row k' p"
  by (cases k; cases k') (simp_all add: get_row_def set_row_def)

lemma panel_ok_rows:
  "panel_ok p \<longleftrightarrow> slider_ok (sr_slider (get_row VehicleSlider p)) \<and> row_ok (get_row SpeedSlider p) \<and>
     row_ok (get_row LargeAntennaSlider p) \<and> row_ok (get_row SmallAntennaSlider p) \<and> row_ok (get_row RangeSlider p)"
  by (simp add: panel_ok_def get_row_def)

lemma row_ok_slider: "row_ok r \<Longrightarrow> slider_ok (sr_slider r)"
  by (simp add: row_ok_def)

lemma row_setValue_slider_ok:
  "slider_ok (sr_slider r) \<Longrightarrow> slider_ok (sr_slider (fst (row_setValue x r)))"
  using slider_setValue_ok [of "sr_slider r" x]
  by (auto simp: row_setValue_def slider_ok_def split: prod.splits)

lemma panel_slide_ok: "panel_ok p \<Longrightarrow> panel_ok (fst (panel_slide k x p))"
proof -
  assume p: "panel_ok p"
  obtain r c where e: "row_setValue x (get_row k p) = (r, c)" by fastforce
  have "panel_ok (set_row k r p)"
    using p row_setValue_ok [of "get_row k p" x] row_setValue_slider_ok [of "get_row k p" x] e
    by (cases k) (simp_all add: panel_ok_def get_row_def set_row_def row_ok_slider)
  then show ?thesis using e by (simp add: panel_slide_def)
qed

lemma panel_toggle_ok: "panel_ok p \<Longrightarrow> panel_ok (fst (panel_toggle k p))"
  by (cases k) (simp_all add: panel_toggle_def panel_ok_def)

lemma panel_setVehicleCount_ok: "panel_ok p \<Longrightarrow> panel_ok (panel_setVehicleCount count p)"
  using slider_setValue_ok [of "sr_slider (pp_vehicle p)" count]
  by (simp add: panel_setVehicleCount_def panel_ok_def slider_ok_def)

lemma new_ParametersPanel_ok: "panel_ok new_ParametersPanel"
  by (simp add: new_ParametersPanel_def panel_ok_def row_ok_def slider_ok_def createSliderRow_def
                slider_setValue_def row_value_def)

lemma stats_links:
  assumes "distinct (map veh_id (m_vehicles s))" "sym_adj (adjacencyList (m_interferenceGraph s))"
    and "\<forall>i. i \<notin> getDirectNeighbors (m_interferenceGraph s) i"
    and "\<forall>c\<in>set (m_vehicles s). getDirectNeighbors (m_interferenceGraph s) (veh_id c) \<subseteq> veh_id ` set (m_vehicles s)"
  shows "snd (snd (stats_counts s)) =
           int (card {(i, j). i \<in> veh_id ` set (m_vehicles s) \<and> j \<in> getDirectNeighbors (m_interferenceGraph s) i \<and> i < j})"
proof -
  let ?a = "adjacencyList (m_interferenceGraph s)" and ?xs = "map veh_id (m_vehicles s)"
  have cl: "\<forall>x\<in>set ?xs. adj_get ?a x \<subseteq> set ?xs" using assms(4) by (simp add: getDirectNeighbors_def)
  have self: "\<forall>x. x \<notin> adj_get ?a x" using assms(3) by (simp add: getDirectNeighbors_def)
  have "map card (neighbor_sets s) = map (\<lambda>x. card (adj_get ?a x)) ?xs"
    by (simp add: neighbor_sets_def getDirectNeighbors_def)
  then have "sum_list (map card (neighbor_sets s)) = 2 * card {(x, y). x \<in> set ?xs \<and> y \<in> adj_get ?a x \<and> x < y}"
    using handshake [OF assms(1,2) self cl] by simp
  then show ?thesis by (simp add: stats_counts_def Let_def getDirectNeighbors_def)
qed

lemma repositionElements_running:
  "bm_animRunning (ov_menu ov) \<Longrightarrow> bm_geometry (ov_menu (repositionElements ov)) = bm_geometry (ov_menu ov)"
  by (simp add: repositionElements_def Let_def)

lemma repositionElements_button:
  "snd (ov_menuButtonPos (repositionElements ov)) = min (bm_top (ov_menu (repositionElements ov)) - 60) (ov_height ov - 68)"
  by (simp add: repositionElements_def Let_def bm_top_def)

lemma updateToggleButtonIcon_keeps [simp]:
  "ov_menu (updateToggleButtonIcon env e ov) = ov_menu ov" "ov_width (updateToggleButtonIcon env e ov) = ov_width ov"
  "ov_height (updateToggleButtonIcon env e ov) = ov_height ov"
  by (simp_all add: updateToggleButtonIcon_def split: option.splits)

lemma menuButtonClicked_menu:
  "bm_expanded (ov_menu (menuButtonClicked env ov)) = (\<not> bm_expanded (ov_menu ov))"
  "bm_animRunning (ov_menu (menuButtonClicked env ov))"
  "bm_expandedHeight (ov_menu (menuButtonClicked env ov)) = bm_expandedHeight (ov_menu ov)"
  "ov_width (menuButtonClicked env ov) = ov_width ov" "ov_height (menuButtonClicked env ov) = ov_height ov"
  by (simp_all add: menuButtonClicked_def toggle_menu_def Let_def)

lemma repositionElements_stopped:
  assumes "\<not> bm_animRunning (ov_menu ov)"
  shows "bm_geometry (ov_menu (repositionElements ov)) =
           (0, if bm_expanded (ov_menu ov) then ov_height ov - bm_expandedHeight (ov_menu ov) else ov_height ov,
            ov_width ov, bm_expandedHeight (ov_menu ov))"
    and "ov_menuButtonPos (repositionElements ov) =
           (ov_width ov - 68, min ((if bm_expanded (ov_menu ov) then ov_height ov - bm_expandedHeight (ov_menu ov) else ov_height ov) - 60)
                                  (ov_height ov - 68))"
  using assms by (simp_all add: repositionElements_def Let_def bm_top_def)

lemma repositionElements_menu_flags [simp]:
  "bm_expanded (ov_menu (repositionElements ov)) = bm_expanded (ov_menu ov)"
  "bm_animRunning (ov_menu (repositionElements ov)) = bm_animRunning (ov_menu ov)"
  "bm_expandedHeight (ov_menu (repositionElements ov)) = bm_expandedHeight (ov_menu ov)"
  "ov_width (repositionElements ov) = ov_width ov" "ov_height (repositionElements ov) = ov_height ov"
  by (simp_all add: repositionElements_def Let_def)

lemma menuAnimationFinished_stopped:
  "\<not> bm_animRunning (ov_menu (menuAnimationFinished ov))"
  "bm_expanded (ov_menu (menuAnimationFinished ov)) = bm_expanded (ov_menu ov)"
  "bm_expandedHeight (ov_menu (menuAnimationFinished ov)) = bm_expandedHeight (ov_menu ov)"
  "ov_width (menuAnimationFinished ov) = ov_width ov" "ov_height (menuAnimationFinished ov) = ov_height ov"
  by (simp_all add: menuAnimationFinished_def anim_finish_def)

lemma menuAnimationFinished_place:
  "bm_geometry (ov_menu (menuAnimationFinished ov)) =
     (0, if bm_expanded (ov_menu ov) then ov_height ov - bm_expandedHeight (ov_menu ov) else ov_height ov,
      ov_width ov, bm_expandedHeight (ov_menu ov))"
  "ov_menuButtonPos (menuAnimationFinished ov) =
     (ov_width ov - 68, min ((if bm_expanded (ov_menu ov) then ov_height ov - bm_expandedHeight (ov_menu ov) else ov_height ov) - 60)
                            (ov_height ov - 68))"
proof -
  let ?ov = "ov\<lparr>ov_menu := anim_finish (ov_menu ov)\<rparr>"
  have s: "\<not> bm_animRunning (ov_menu ?ov)" by (simp add: anim_finish_def)
  have f: "bm_expanded (ov_menu ?ov) = bm_expanded (ov_menu ov)" "bm_expandedHeight (ov_menu ?ov) = bm_expandedHeight (ov_menu ov)"
    by (simp_all add: anim_finish_def)
  show "bm_geometry (ov_menu (menuAnimationFinished ov)) =
     (0, if bm_expanded (ov_menu ov) then ov_height ov - bm_expandedHeight (ov_menu ov) else ov_height ov,
      ov_width ov, bm_expandedHeight (ov_menu ov))"
    using repositionElements_stopped(1) [OF s] f by (simp add: menuAnimationFinished_def)
  show "ov_menuButtonPos (menuAnimationFinished ov) =
     (ov_width ov - 68, min ((if bm_expanded (ov_menu ov) then ov_height ov - bm_expandedHeight (ov_menu ov) else ov_height ov) - 60)
                            (ov_height ov - 68))"
    using repositionElements_stopped(2) [OF s] f by (simp add: menuAnimationFinished_def)
qed

text \<open>
  C36: \<open>ParametersPanel::setVehicleCount\<close> with a count below the slider's minimum (the
  count 0 the simulator reports once its last vehicle is deleted, while the slider starts
  at 1) leaves the value label showing the count and the slider at its minimum: the label
  no longer shows the slider's value.
\<close>

theorem panel_vehicle_label_mismatch:
  assumes "sl_min (sr_slider (pp_vehicle p)) \<le> sl_max (sr_slider (pp_vehicle p))"
    and "count < sl_min (sr_slider (pp_vehicle p))"
  shows "getVehicleCount_panel (panel_setVehicleCount count p) = sl_min (sr_slider (pp_vehicle p)) \<and>
         sr_label (pp_vehicle (panel_setVehicleCount count p)) \<noteq> number (getVehicleCount_panel (panel_setVehicleCount count p))"
proof -
  have v: "getVehicleCount_panel (panel_setVehicleCount count p) = sl_min (sr_slider (pp_vehicle p))"
    using assms by (simp add: getVehicleCount_panel_def row_value_def panel_setVehicleCount_def slider_setValue_value)
  have "number count \<noteq> number (sl_min (sr_slider (pp_vehicle p)))" using assms(2) by (simp add: number_inj)
  then show ?thesis using v by (simp add: panel_setVehicleCount_def)
qed

text \<open>
  C35: when the published adjacency is symmetric, has no self-loop and links only vehicles
  of the simulator, whose identifiers are distinct, \<open>UIOverlay::updateStats\<close> shows as
  the total of connections the number of links: halving the summed neighbour counts counts
  every link once.
\<close>

theorem updateStats_links:
  assumes "ov_hasSimulator ov" "distinct (map veh_id (m_vehicles s))" "sym_adj (adjacencyList (m_interferenceGraph s))"
    and "\<forall>i. i \<notin> getDirectNeighbors (m_interferenceGraph s) i"
    and "\<forall>c\<in>set (m_vehicles s). getDirectNeighbors (m_interferenceGraph s) (veh_id c) \<subseteq> veh_id ` set (m_vehicles s)"
  shows "st_totalConnections (bm_stats (ov_menu (updateStats buildTimeMs s ov))) =
           number (int (card {(i, j). i \<in> veh_id ` set (m_vehicles s) \<and> j \<in> getDirectNeighbors (m_interferenceGraph s) i \<and> i < j}))"
proof -
  obtain a c t where sc: "stats_counts s = (a, c, t)" by (cases "stats_counts s") auto
  have "t = int (card {(i, j). i \<in> veh_id ` set (m_vehicles s) \<and> j \<in> getDirectNeighbors (m_interferenceGraph s) i \<and> i < j})"
    using stats_links [OF assms(2-5)] sc by simp
  then show ?thesis using assms(1) sc by (simp add: updateStats_def updateStats_panel_def Let_def)
qed

text \<open>
  C37: every frame of the menu's slide animation, at a time fraction in 0..1, puts the
  menu's top between the start and the end of the animation (the \<open>OutCubic\<close> curve stays
  in 0..1 and the \<open>int\<close> interpolation between two integers stays between them), and the
  menu button follows it, 60 pixels above the menu but at most at \<open>height - 68\<close>.
\<close>

theorem menuAnimationFrame_between:
  assumes "0 \<le> t" "t \<le> 1" "bm_animRunning (ov_menu ov)"
  shows "min (fst (snd (bm_animStart (ov_menu ov)))) (fst (snd (bm_animEnd (ov_menu ov)))) \<le> bm_top (ov_menu (menuAnimationFrame t ov)) \<and>
         bm_top (ov_menu (menuAnimationFrame t ov)) \<le> max (fst (snd (bm_animStart (ov_menu ov)))) (fst (snd (bm_animEnd (ov_menu ov)))) \<and>
         snd (ov_menuButtonPos (menuAnimationFrame t ov)) = min (bm_top (ov_menu (menuAnimationFrame t ov)) - 60) (ov_height ov - 68)"
proof -
  let ?ov = "ov\<lparr>ov_menu := anim_frame t (ov_menu ov)\<rparr>"
  have r: "bm_animRunning (ov_menu ?ov)" using assms(3) by (simp add: anim_frame_def)
  have g: "bm_top (ov_menu (menuAnimationFrame t ov)) =
             interpolate_int (fst (snd (bm_animStart (ov_menu ov)))) (fst (snd (bm_animEnd (ov_menu ov)))) (easeOutCubic t)"
    using repositionElements_running [OF r] assms(3)
    by (simp add: menuAnimationFrame_def anim_frame_def bm_top_def rect_interpolate_def Let_def split: prod.splits)
  have "0 \<le> easeOutCubic t" "easeOutCubic t \<le> 1" using easeOutCubic_range [OF assms(1,2)] by simp_all
  from interpolate_between [OF this] g repositionElements_button [of ?ov] show ?thesis
    by (simp add: menuAnimationFrame_def)
qed

text \<open>
  Two clicks on the menu button, once the slide animation has finished, bring the menu
  back: it is expanded as before, stopped, at the place \<open>repositionElements\<close> gives it, and
  the menu button is where it was placed for it.
\<close>

theorem menu_toggle_twice:
  assumes "\<not> bm_animRunning (ov_menu ov)"
  shows "bm_expanded (ov_menu (menuAnimationFinished (menuButtonClicked env (menuButtonClicked env ov)))) = bm_expanded (ov_menu ov) \<and>
         \<not> bm_animRunning (ov_menu (menuAnimationFinished (menuButtonClicked env (menuButtonClicked env ov)))) \<and>
         bm_geometry (ov_menu (menuAnimationFinished (menuButtonClicked env (menuButtonClicked env ov)))) =
           bm_geometry (ov_menu (repositionElements ov)) \<and>
         ov_menuButtonPos (menuAnimationFinished (menuButtonClicked env (menuButtonClicked env ov))) =
           ov_menuButtonPos (repositionElements ov)"
  using menuAnimationFinished_stopped(1,2) menuAnimationFinished_place menuButtonClicked_menu
        repositionElements_stopped [OF assms]
  by simp

end
