(* ===== verification/Renderer.thy ===== *)
theory Renderer
  imports QtCore
begin

text \<open>
  \<open>VehicleRenderer\<close> (\<open>src/src/vehicle_renderer.cpp\<close>, \<open>src/include/vehicle_renderer.h\<close>):
  the process-wide state of the renderer (the SVG path, whether the lazy initialisation has
  run, and the SVG renderer, here the path of the loaded valid SVG), \<open>setSvgPath\<close>,
  \<open>lazyInitialize\<close> with its search over four candidate paths, and \<open>drawVehicle\<close>, whose
  result is what it draws: in the painter's frame translated to the vehicle's position and
  rotated by its heading, either the SVG icon rendered into a pixmap of twice the size and
  coloured pixel by pixel, or the fallback car (a rounded body and a triangle at its front).
  The file system is an environment: which paths exist, which hold a valid SVG, and the
  pixels an SVG renders to. The painter's rotation by \<open>a\<close> degrees maps a point \<open>(x, y)\<close> of
  the frame to \<open>(x cos a - y sin a, x sin a + y cos a)\<close> on the screen, whose y axis points
  down. Colours are red, green, blue and alpha; the darker and lighter shades of the
  fallback car are named, not computed. Console output is not modelled.
\<close>

record RendererState =
  vr_svgRenderer :: "string option"
  vr_cachedSvgPath :: string
  vr_initialized :: bool

record svg_env =
  se_appDir :: string
  se_exists :: "string \<Rightarrow> bool"
  se_valid :: "string \<Rightarrow> bool"
  se_render :: "string \<Rightarrow> int \<Rightarrow> (int \<times> int \<times> int \<times> int) list list"

text \<open>The static members before the first call.\<close>

definition initial_RendererState :: RendererState where
  "initial_RendererState = \<lparr>vr_svgRenderer = None, vr_cachedSvgPath = [], vr_initialized = False\<rparr>"

definition setSvgPath :: "string \<Rightarrow> RendererState \<Rightarrow> RendererState" where
  "setSvgPath path st = st\<lparr>vr_cachedSvgPath := path, vr_initialized := False\<rparr>"

definition svg_candidates :: "svg_env \<Rightarrow> string \<Rightarrow> string list" where
  "svg_candidates env p =
     [p, se_appDir env @ ''/'' @ p, se_appDir env @ ''/../../'' @ p, ''/home/soki/files/M1/S1/reseau/projet_v2v/'' @ p]"

text \<open>
  \<open>lazyInitialize\<close>: nothing once initialised or without a path; otherwise the first
  candidate that exists is loaded (and dropped if it is not a valid SVG); when none exists
  the renderer is marked initialised and left as it was.
\<close>

definition lazyInitialize :: "svg_env \<Rightarrow> RendererState \<Rightarrow> RendererState" where
  "lazyInitialize env st =
     (if vr_initialized st \<or> vr_cachedSvgPath st = [] then st
      else
        (case find (se_exists env) (svg_candidates env (vr_cachedSvgPath st)) of
           None \<Rightarrow> st\<lparr>vr_initialized := True\<rparr>
         | Some foundPath \<Rightarrow>
             st\<lparr>vr_svgRenderer := (if se_valid env foundPath then Some foundPath else None), vr_initialized := True\<rparr>))"

type_synonym color = "int \<times> int \<times> int \<times> int"

type_synonym image = "color list list"

text \<open>The colouring loop: every pixel with a positive alpha takes the colour and keeps its alpha.\<close>

definition colorize_pixel :: "color \<Rightarrow> color \<Rightarrow> color" where
  "colorize_pixel c px =
     (case px of (r, g, b, a) \<Rightarrow> if 0 < a then (case c of (cr, cg, cb, ca) \<Rightarrow> (cr, cg, cb, a)) else px)"

definition colorize :: "color \<Rightarrow> image \<Rightarrow> image" where
  "colorize c img = map (map (colorize_pixel c)) img"

datatype shade = Plain color | Darker int color | Lighter int color

text \<open>What \<open>drawVehicle\<close> draws, in the rotated and translated frame of the painter.\<close>

datatype VehicleDrawing =
    SvgIcon "real \<times> real" real "real \<times> real \<times> real \<times> real" int image
  | FallbackCar "real \<times> real" real "real \<times> real \<times> real \<times> real" real "(real \<times> real) list" shade shade shade

definition drawVehicle :: "svg_env \<Rightarrow> real \<times> real \<Rightarrow> real \<Rightarrow> color \<Rightarrow> real \<Rightarrow> RendererState \<Rightarrow> RendererState \<times> VehicleDrawing" where
  "drawVehicle env position heading c sz st =
     (let st' = (if \<not> vr_initialized st then lazyInitialize env st else st)
      in (st',
          case vr_svgRenderer st' of
            Some path \<Rightarrow>
              (let pixelSize = max 1 (to_int (sz * 2))
               in SvgIcon position heading (- sz / 2, - sz / 2, sz, sz) pixelSize
                    (colorize c (se_render env path pixelSize)))
          | None \<Rightarrow>
              FallbackCar position heading (- sz / 3, - sz / 2, sz * 2 / 3, sz) (sz / 6)
                [(0, - sz / 2), (- sz / 6, - sz / 3), (sz / 6, - sz / 3)]
                (Plain c) (Darker 150 c) (Lighter 150 c)))"

subsection \<open>Geometry of a drawing\<close>

text \<open>The screen point of a point of the painter's frame, and the front of the drawn car.\<close>

definition frame_to_screen :: "real \<times> real \<Rightarrow> real \<Rightarrow> real \<times> real \<Rightarrow> real \<times> real" where
  "frame_to_screen position heading p =
     (let a = heading * pi / 180
      in (fst position + fst p * cos a - snd p * sin a, snd position + fst p * sin a + snd p * cos a))"

fun nose :: "VehicleDrawing \<Rightarrow> real \<times> real" where
  "nose (SvgIcon position heading (x, y, w, h) n img) = frame_to_screen position heading (x + w / 2, y)"
| "nose (FallbackCar position heading body r arrow fill pen front) = frame_to_screen position heading (hd arrow)"

lemma lazyInitialize_initialized:
  "vr_cachedSvgPath st \<noteq> [] \<Longrightarrow> vr_initialized (lazyInitialize env st)"
  by (simp add: lazyInitialize_def split: option.splits)

lemma lazyInitialize_done: "vr_initialized st \<Longrightarrow> lazyInitialize env st = st"
  by (simp add: lazyInitialize_def)

text \<open>
  \<open>drawVehicle\<close> draws the vehicle with its front at half its size from its position
  in the direction of its heading, as a compass bearing on the screen (0 degrees up, 90
  degrees to the right), whether it draws the SVG icon or the fallback car.
\<close>

theorem drawVehicle_nose:
  "nose (snd (drawVehicle env (px, py) heading c sz st)) =
     (px + sz / 2 * sin (heading * pi / 180), py - sz / 2 * cos (heading * pi / 180))"
  by (simp add: drawVehicle_def frame_to_screen_def Let_def split: option.splits)

text \<open>
  C38: \<open>setSvgPath\<close> does not drop the SVG already loaded: after a new path none of whose
  candidates exists, the next \<open>drawVehicle\<close> still draws the icon of the old file, and
  never tries the new path again.
\<close>

theorem setSvgPath_keeps_old_icon:
  assumes "vr_svgRenderer st = Some old" "path \<noteq> []"
    and "\<forall>p\<in>set (svg_candidates env path). \<not> se_exists env p"
  shows "(\<exists>pos h r n img. snd (drawVehicle env position heading c sz (setSvgPath path st)) = SvgIcon pos h r n img \<and>
                         img = colorize c (se_render env old n)) \<and>
         vr_initialized (fst (drawVehicle env position heading c sz (setSvgPath path st))) \<and>
         vr_svgRenderer (fst (drawVehicle env position heading c sz (setSvgPath path st))) = Some old"
proof -
  have f: "find (se_exists env) (svg_candidates env path) = None" using assms(3) by (simp add: find_None_iff)
  have l: "lazyInitialize env (setSvgPath path st) = (setSvgPath path st)\<lparr>vr_initialized := True\<rparr>"
    using f assms(2) by (simp add: lazyInitialize_def setSvgPath_def)
  show ?thesis using l assms(1) by (simp add: drawVehicle_def setSvgPath_def Let_def)
qed

text \<open>
  The colouring of the rendered icon keeps the image's size and every pixel's alpha,
  gives the vehicle's colour to every pixel with a positive alpha and leaves the
  transparent pixels as they are.
\<close>

theorem colorize_pixels:
  assumes "i < length img" "j < length (img ! i)"
  shows "length (colorize c img) = length img \<and> length (colorize c img ! i) = length (img ! i) \<and>
         snd (snd (snd (colorize c img ! i ! j))) = snd (snd (snd (img ! i ! j))) \<and>
         (if 0 < snd (snd (snd (img ! i ! j)))
          then (fst (colorize c img ! i ! j), fst (snd (colorize c img ! i ! j)), fst (snd (snd (colorize c img ! i ! j)))) =
               (fst c, fst (snd c), fst (snd (snd c)))
          else colorize c img ! i ! j = img ! i ! j)"
  using assms by (simp add: colorize_def colorize_pixel_def split: prod.splits)

end
