(* ===== verification/Hud.thy ===== *)
theory Hud
  imports MapPaint Overlay
begin

text \<open>
  \<open>MapView::drawHUD\<close> (\<open>src/src/map_view.cpp\<close>), the last step of a repaint: the scale bar
  at the bottom left of the widget, for the metres per pixel at the latitude of the
  widget's centre, raised above the bottom menu of the overlay when the menu is expanded.
  The result is what it draws: the bar and its two ticks as line segments, and the label
  with its position. The label is \<open>"%1 km"\<close> with the length divided by 1000 (\<open>int\<close>
  division) from 1000 m on, \<open>"%1 m"\<close> below.
\<close>

record Hud =
  hud_lines :: "((int \<times> int) \<times> (int \<times> int)) list"
  hud_label :: string
  hud_labelPos :: "int \<times> int"

definition scale_label :: "int \<Rightarrow> string" where
  "scale_label bestM = (if 1000 \<le> bestM then number (bestM div 1000) @ '' km'' else number bestM @ '' m'')"

definition hud_y :: "int \<Rightarrow> UIOverlay \<Rightarrow> int" where
  "hud_y h ov = (if bm_expanded (ov_menu ov) then h - bm_expandedHeight (ov_menu ov) - 30 else h - 12 - 20)"

definition drawHUD :: "MapView \<Rightarrow> UIOverlay \<Rightarrow> Hud" where
  "drawHUD v ov =
     (let c = screenToLonLat v (screen_center v); sb = scale_bar (metersPerPixelAtLat (m_zoom v) (snd c));
          bestM = fst sb; barPx = snd sb; bx = 12; by = hud_y (mv_height v) ov
      in \<lparr>hud_lines = [((bx, by), (bx + barPx, by)), ((bx, by - 5), (bx, by + 5)), ((bx + barPx, by - 5), (bx + barPx, by + 5))],
          hud_label = scale_label bestM, hud_labelPos = (bx, by - 8)\<rparr>)"








lemma hud_y_above:
  "hud_y h ov + 5 < (if bm_expanded (ov_menu ov) then h - bm_expandedHeight (ov_menu ov) else h)"
  by (simp add: hud_y_def)

lemma drawHUD_lines:
  "list_all (\<lambda>(p, q). snd p \<le> hud_y (mv_height v) ov + 5 \<and> snd q \<le> hud_y (mv_height v) ov + 5) (hud_lines (drawHUD v ov)) \<and>
   snd (hud_labelPos (drawHUD v ov)) < hud_y (mv_height v) ov"
  by (simp add: drawHUD_def Let_def)

text \<open>
  C40: when the bottom menu is at rest and the overlay has the view's height, every line of the
  scale bar and its label lie strictly above the top of the menu, expanded or collapsed,
  after the overlay has placed its elements.
\<close>

theorem hud_above_menu:
  assumes "\<not> bm_animRunning (ov_menu ov)" "ov_height ov = mv_height v"
  shows "list_all (\<lambda>(p, q). snd p < bm_top (ov_menu (repositionElements ov)) \<and> snd q < bm_top (ov_menu (repositionElements ov)))
           (hud_lines (drawHUD v (repositionElements ov))) \<and>
         snd (hud_labelPos (drawHUD v (repositionElements ov))) < bm_top (ov_menu (repositionElements ov))"
proof -
  let ?ov = "repositionElements ov"
  have t: "bm_top (ov_menu ?ov) = (if bm_expanded (ov_menu ?ov) then mv_height v - bm_expandedHeight (ov_menu ?ov) else mv_height v)"
    using repositionElements_stopped(1) [OF assms(1)] assms(2) by (simp add: bm_top_def)
  have "hud_y (mv_height v) ?ov + 5 < bm_top (ov_menu ?ov)" unfolding t by (rule hud_y_above)
  then show ?thesis using drawHUD_lines [of v ?ov] by (auto simp: list_all_iff)
qed

end
