(* ===== verification/UiApp.thy ===== *)
theory UiApp
  imports MapApp Overlay Renderer Hud
begin

text \<open>
  The whole application: the overlay, the map view, the simulator and the vehicle renderer,
  wired by the connections of \<open>MapView::MapView\<close> and \<open>MapView::setSimulator\<close>
  (\<open>src/src/map_view.cpp\<close>). One step of \<open>ui_step\<close> is one event of the Qt event loop
  with every slot it runs: a click or a slider move on the overlay and the handlers of the
  map view and the simulator its signals reach; an input event of the map view and the
  overlay calls it makes; a repaint, which also draws the vehicles and refreshes the
  statistics and the map information; a tile event; a timer tick or a build completion of
  the simulator; or a call of the simulator's own interface (start, pause, resume, stop,
  reset, by the program's \<open>main\<close>), with the signals it emits to the top bar. The resources
  and the SVG file system are fixed environments of a run. The application starts as
  \<open>main\<close> builds it: a map view, which sets the SVG path of the renderer, and its simulator,
  handed over by \<open>setSimulator\<close>.
\<close>

record UiState =
  ui_overlay :: UIOverlay
  ui_view :: MapView
  ui_sim :: Simulator
  ui_renderer :: RendererState

subsection \<open>The connections\<close>

definition ov_params :: "UIOverlay \<Rightarrow> ParametersPanel" where
  "ov_params ov = bm_params (ov_menu ov)"

definition ov_mapParams :: "(ParametersPanel \<Rightarrow> ParametersPanel) \<Rightarrow> UIOverlay \<Rightarrow> UIOverlay" where
  "ov_mapParams f ov = ov\<lparr>ov_menu := (ov_menu ov)\<lparr>bm_params := f (bm_params (ov_menu ov))\<rparr>\<rparr>"

definition ov_mapTopBar :: "(TopBar \<Rightarrow> TopBar) \<Rightarrow> UIOverlay \<Rightarrow> UIOverlay" where
  "ov_mapTopBar f ov = ov\<lparr>ov_topBar := f (ov_topBar ov)\<rparr>"

definition sim_count :: "Simulator \<Rightarrow> int" where
  "sim_count s = int (length (m_vehicles s))"

text \<open>The slot of \<open>vehicleCountChanged\<close> connected by \<open>setSimulator\<close>: the panel's vehicle slider follows the count.\<close>

definition vehicleCountChanged :: "int \<Rightarrow> UIOverlay \<Rightarrow> UIOverlay" where
  "vehicleCountChanged count ov = ov_mapParams (panel_setVehicleCount count) ov"

text \<open>\<open>MapView::setSimulator\<close>: the overlay gets the simulator and the top bar its running state.\<close>

definition mv_setSimulator :: "res_env \<Rightarrow> Simulator \<Rightarrow> UIOverlay \<Rightarrow> UIOverlay" where
  "mv_setSimulator env s ov = ov_mapTopBar (setRunning env (isRunning s)) (ov\<lparr>ov_hasSimulator := True\<rparr>)"

definition ui_init :: "res_env \<Rightarrow> int \<Rightarrow> int \<Rightarrow> RoadGraph \<Rightarrow> nat stream \<Rightarrow> UiState" where
  "ui_init env w h g rs =
     \<lparr>ui_overlay = mv_setSimulator env (new_Simulator g rs) (new_UIOverlay env), ui_view = new_MapView w h,
      ui_sim = new_Simulator g rs,
      ui_renderer = setSvgPath ''../../data/car-top-view-icon.svg'' initial_RendererState\<rparr>"

text \<open>The handlers of the map view for the signals of the parameters panel that carry no count.\<close>

definition panel_handler :: "cell_layout \<Rightarrow> panel_signal \<Rightarrow> MapView \<times> Simulator \<Rightarrow> MapView \<times> Simulator" where
  "panel_handler layout sig vs =
     (case vs of (v, s) \<Rightarrow>
        (case sig of
           ShowConnectionsChanged b \<Rightarrow> (showConnectionsChanged b v, s)
         | ShowRangesChanged b \<Rightarrow> (showRangesChanged b v, s)
         | ShowTransitiveChanged b \<Rightarrow> showTransitiveChanged b (v, s)
         | ShowRoadsChanged b \<Rightarrow> (showRoadsChanged b v, s)
         | TransmissionRangeChanged r \<Rightarrow> (v, cmd_transmissionRange r s)
         | VehicleSpeedChanged k \<Rightarrow> (v, cmd_vehicleSpeed k s)
         | AntennaConfigReleased nl ns \<Rightarrow> (v, placeAntennas nl ns layout s)
         | _ \<Rightarrow> (v, s)))"

definition ui_vs :: "UiState \<Rightarrow> MapView \<times> Simulator" where
  "ui_vs st = (ui_view st, ui_sim st)"

definition ui_set_vs :: "MapView \<times> Simulator \<Rightarrow> UiState \<Rightarrow> UiState" where
  "ui_set_vs vs st = st\<lparr>ui_view := fst vs, ui_sim := snd vs\<rparr>"

subsection \<open>Events of the overlay\<close>

text \<open>
  The start/pause button: \<open>togglePause\<close>, whose \<open>pause\<close> or \<open>resume\<close> signals the top
  bar, then the button's own slot sets the top bar to \<open>isRunning()\<close>.
\<close>

definition ui_startPause :: "res_env \<Rightarrow> UiState \<Rightarrow> UiState" where
  "ui_startPause env st =
     (let s = ui_sim st; s' = togglePause s
      in st\<lparr>ui_sim := s',
            ui_overlay := ov_mapTopBar (setRunning env (isRunning s')) (ov_mapTopBar (setRunning env (m_paused s)) (ui_overlay st))\<rparr>)"

definition ui_themeClick :: "UiState \<Rightarrow> UiState" where
  "ui_themeClick st =
     (case themeClicked (ov_topBar (ui_overlay st)) of (tb, dark) \<Rightarrow>
        st\<lparr>ui_overlay := (ui_overlay st)\<lparr>ov_topBar := tb\<rparr>, ui_view := themeToggled dark (ui_view st)\<rparr>)"

definition ui_qualityClick :: "UiState \<Rightarrow> UiState" where
  "ui_qualityClick st =
     (case qualityClicked (ov_topBar (ui_overlay st)) of (tb, hq) \<Rightarrow>
        st\<lparr>ui_overlay := (ui_overlay st)\<lparr>ov_topBar := tb\<rparr>, ui_view := qualityToggled hq (ui_view st)\<rparr>)"

definition ui_slide :: "cell_layout \<Rightarrow> panel_slider \<Rightarrow> int \<Rightarrow> UiState \<Rightarrow> UiState" where
  "ui_slide layout k x st =
     (case panel_slide k x (ov_params (ui_overlay st)) of (p, sigs) \<Rightarrow>
        ui_set_vs (fold (panel_handler layout) sigs (ui_vs st)) (st\<lparr>ui_overlay := ov_mapParams (\<lambda>_. p) (ui_overlay st)\<rparr>))"

definition ui_toggle :: "cell_layout \<Rightarrow> panel_switch \<Rightarrow> UiState \<Rightarrow> UiState" where
  "ui_toggle layout k st =
     (case panel_toggle k (ov_params (ui_overlay st)) of (p, sigs) \<Rightarrow>
        ui_set_vs (fold (panel_handler layout) sigs (ui_vs st)) (st\<lparr>ui_overlay := ov_mapParams (\<lambda>_. p) (ui_overlay st)\<rparr>))"

text \<open>The antenna sliders released: \<open>antennaConfigReleased\<close> places the antennas with the k-means layout.\<close>

definition ui_antennaRelease :: "cell_layout \<Rightarrow> panel_slider \<Rightarrow> UiState \<Rightarrow> UiState" where
  "ui_antennaRelease layout k st =
     ui_set_vs (fold (panel_handler layout) (panel_release k (ov_params (ui_overlay st))) (ui_vs st)) st"

text \<open>
  The vehicle slider released: \<open>setVehicleCount\<close> of its value (given its result, since its
  loops may not end), whose \<open>vehicleCountChanged\<close> moves the slider to the new count unless
  the count was already the simulator's.
\<close>

definition ui_vehicleRelease :: "Simulator \<Rightarrow> UiState \<Rightarrow> UiState" where
  "ui_vehicleRelease s' st =
     st\<lparr>ui_sim := s',
        ui_overlay := (if getVehicleCount_panel (ov_params (ui_overlay st)) = sim_count (ui_sim st) then ui_overlay st
                       else vehicleCountChanged (sim_count s') (ui_overlay st))\<rparr>"

text \<open>The delete button: \<open>deleteTrackedVehicle\<close> hides the button, and a removal signals the new count.\<close>

definition ui_delete :: "UiState \<Rightarrow> UiState" where
  "ui_delete st =
     (case m_trackedVehicle (ui_view st) of
        None \<Rightarrow> st
      | Some t \<Rightarrow>
          (let vs' = deleteTrackedVehicle (ui_vs st); ov1 = showDeleteVehicleButton False (ui_overlay st)
           in ui_set_vs vs' (st\<lparr>ui_overlay := (if snd (removeVehicle t (ui_sim st)) then vehicleCountChanged (sim_count (snd vs')) ov1
                                               else ov1)\<rparr>)))"

subsection \<open>Events of the map view\<close>

definition ui_move :: "int \<times> int \<Rightarrow> UiState \<Rightarrow> UiState" where
  "ui_move p st =
     (let v' = mouseMoveEvent p (ui_view st)
      in st\<lparr>ui_view := v',
            ui_overlay := (if m_followingVehicle (ui_view st) \<and> \<not> m_followingVehicle v'
                           then showDeleteVehicleButton False (ui_overlay st) else ui_overlay st)\<rparr>)"

text \<open>The vehicle a click would follow, as \<open>mouseReleaseEvent\<close> searches it.\<close>

definition click_pick :: "MapView \<Rightarrow> Simulator \<Rightarrow> Vehicule option" where
  "click_pick v s =
     (case screenToLonLat v (m_pressPos v) of (clickLon, clickLat) \<Rightarrow>
        closestVehicle (sim_graph s) clickLon clickLat (20 * metersPerPixelAtLat (m_zoom v) clickLat / 111000) (m_vehicles s))"

definition ui_release :: "mouse_button \<Rightarrow> (int \<Rightarrow> junk) \<Rightarrow> UiState \<Rightarrow> UiState" where
  "ui_release b jk st =
     (let v = ui_view st; s = ui_sim st; vs' = mouseReleaseEvent b jk (v, s)
      in ui_set_vs vs'
           (st\<lparr>ui_overlay :=
                 (if b = LeftButton \<and> \<not> m_didDrag v then
                    (case click_pick v s of
                       Some c \<Rightarrow> showDeleteVehicleButton True (ui_overlay st)
                     | None \<Rightarrow> (if sim_count (snd vs') \<noteq> sim_count s then vehicleCountChanged (sim_count (snd vs')) (ui_overlay st)
                                else ui_overlay st))
                  else ui_overlay st)\<rparr>))"

text \<open>The keys \<open>L\<close> and \<open>B\<close> synchronise the top bar's buttons; \<open>T\<close> does not touch the panel's toggle.\<close>

definition ui_key :: "key \<Rightarrow> UiState \<Rightarrow> UiState" where
  "ui_key k st =
     (let vs' = keyPressEvent k (ui_vs st)
      in ui_set_vs vs'
           (st\<lparr>ui_overlay := (case k of
                                 Key_L \<Rightarrow> ov_mapTopBar (setHighQuality (\<not> m_lowQualityMode (fst vs'))) (ui_overlay st)
                               | Key_B \<Rightarrow> ov_mapTopBar (setDarkTheme (m_darkTheme (fst vs'))) (ui_overlay st)
                               | _ \<Rightarrow> ui_overlay st)\<rparr>))"

definition ui_resize :: "int \<Rightarrow> int \<Rightarrow> UiState \<Rightarrow> UiState" where
  "ui_resize w h st = st\<lparr>ui_view := resizeEvent w h (ui_view st), ui_overlay := overlay_setGeometry w h (ui_overlay st)\<rparr>"

text \<open>The size of a vehicle's icon at a zoom, \<open>clamp(16 * 1.15^(zoom - 16), 6, 100)\<close>.\<close>

definition vehicle_size :: "int \<Rightarrow> real" where
  "vehicle_size zoom = max 6 (min 100 (16 * 1.15 powr real_of_int (zoom - 16)))"

text \<open>
  A repaint: \<open>paintEvent\<close>; the overlay hides the delete button when the followed vehicle
  has gone; above zoom 12 every visible vehicle is drawn by the renderer (in a colour
  seeded by its identifier); then the statistics and the map information are refreshed.
\<close>

definition ui_paint :: "tile_env \<Rightarrow> svg_env \<Rightarrow> (vid \<Rightarrow> color) \<Rightarrow> real \<Rightarrow> UiState \<Rightarrow> UiState" where
  "ui_paint env senv colorOf buildTimeMs st =
     (let v = ui_view st; s = ui_sim st; r = paintEvent env (v, s); v' = fst r; fr = snd r;
          ov1 = (if m_followingVehicle v \<and> \<not> m_followingVehicle (check_tracked s v)
                 then showDeleteVehicleButton False (ui_overlay st) else ui_overlay st);
          rd = (if fr_pointMode fr then ui_renderer st
                else fold (\<lambda>c rs. fst (drawVehicle senv (vehicle_point s v' c) (currentHeading c) (colorOf (veh_id c))
                                                   (vehicle_size (m_zoom v')) rs))
                          (visible_vehicles s v') (ui_renderer st));
          ov2 = updateMapInfo (m_zoom v') (fst (fr_center fr)) (snd (fr_center fr)) (updateStats buildTimeMs s ov1)
      in st\<lparr>ui_view := v', ui_overlay := ov2, ui_renderer := rd\<rparr>)"

text \<open>What a repaint draws: the frame of \<open>paintEvent\<close> and, last, the scale bar of \<open>drawHUD\<close> over the updated overlay.\<close>

definition ui_frame :: "tile_env \<Rightarrow> svg_env \<Rightarrow> (vid \<Rightarrow> color) \<Rightarrow> real \<Rightarrow> UiState \<Rightarrow> Frame \<times> Hud" where
  "ui_frame env senv colorOf buildTimeMs st =
     (let st' = ui_paint env senv colorOf buildTimeMs st
      in (snd (paintEvent env (ui_view st, ui_sim st)), drawHUD (ui_view st') (ui_overlay st')))"

subsection \<open>The event loop\<close>

inductive ui_step :: "res_env \<Rightarrow> UiState \<Rightarrow> UiState \<Rightarrow> bool" for env :: res_env where
  tick: "m_timerActive (ui_sim st) \<Longrightarrow> onTick ms (ui_sim st) = Some s' \<Longrightarrow> ui_step env st (st\<lparr>ui_sim := s'\<rparr>)"
| finish: "m_calculationInProgress (ui_sim st) \<Longrightarrow> ui_step env st (st\<lparr>ui_sim := onGraphCalculationFinished (ui_sim st)\<rparr>)"
| ext_start: "ui_step env st (st\<lparr>ui_sim := start_sim ms layout (ui_sim st), ui_overlay := ov_mapTopBar (setRunning env True) (ui_overlay st)\<rparr>)"
| ext_pause: "ui_step env st (st\<lparr>ui_sim := pause (ui_sim st), ui_overlay := ov_mapTopBar (setRunning env False) (ui_overlay st)\<rparr>)"
| ext_resume: "ui_step env st (st\<lparr>ui_sim := resume (ui_sim st), ui_overlay := ov_mapTopBar (setRunning env True) (ui_overlay st)\<rparr>)"
| ext_stop: "ui_step env st (st\<lparr>ui_sim := stop (ui_sim st), ui_overlay := ov_mapTopBar (setRunning env False) (ui_overlay st)\<rparr>)"
| ext_reset: "ui_step env st (st\<lparr>ui_sim := reset (ui_sim st), ui_overlay := ov_mapTopBar (setRunning env False) (ui_overlay st)\<rparr>)"
| ext_center: "ui_step env st (st\<lparr>ui_view := setCenterLonLat lon lat z (ui_view st)\<rparr>)"
| ext_template: "ui_step env st (st\<lparr>ui_view := setTilesTemplate t (ui_view st)\<rparr>)"
| ext_rate: "ui_step env st (st\<lparr>ui_view := setRequestRateLimitMs ms (ui_view st)\<rparr>)"
| start_pause: "ui_step env st (ui_startPause env st)"
| theme: "ui_step env st (ui_themeClick st)"
| quality: "ui_step env st (ui_qualityClick st)"
| zoom_in: "ui_step env st (st\<lparr>ui_view := zoomIn (ui_view st)\<rparr>)"
| zoom_out: "ui_step env st (st\<lparr>ui_view := zoomOut (ui_view st)\<rparr>)"
| slide: "ui_step env st (ui_slide layout k x st)"
| toggle: "ui_step env st (ui_toggle layout k st)"
| antennas: "k \<in> {LargeAntennaSlider, SmallAntennaSlider} \<Longrightarrow> ui_step env st (ui_antennaRelease layout k st)"
| vehicles: "setVehicleCount (getVehicleCount_panel (ov_params (ui_overlay st))) jk (ui_sim st) = Some s' \<Longrightarrow>
             ui_step env st (ui_vehicleRelease s' st)"
| menu: "ui_step env st (st\<lparr>ui_overlay := menuButtonClicked env (ui_overlay st)\<rparr>)"
| menu_frame: "0 \<le> t \<Longrightarrow> t \<le> 1 \<Longrightarrow> ui_step env st (st\<lparr>ui_overlay := menuAnimationFrame t (ui_overlay st)\<rparr>)"
| menu_done: "ui_step env st (st\<lparr>ui_overlay := menuAnimationFinished (ui_overlay st)\<rparr>)"
| delete: "ov_deleteVisible (ui_overlay st) \<Longrightarrow> ui_step env st (ui_delete st)"
| press: "ui_step env st (st\<lparr>ui_view := mousePressEvent b p (ui_view st)\<rparr>)"
| move: "ui_step env st (ui_move p st)"
| release: "ui_step env st (ui_release b jk st)"
| wheel: "ui_step env st (st\<lparr>ui_view := wheelEvent d p (ui_view st)\<rparr>)"
| key: "ui_step env st (ui_key k st)"
| resize: "0 \<le> w \<Longrightarrow> 0 \<le> h \<Longrightarrow> ui_step env st (ui_resize w h st)"
| paint: "ui_step env st (ui_paint tenv senv colorOf bt st)"
| reply: "ui_step env st (st\<lparr>ui_view := tileReplyFinished tk url ok (ui_view st)\<rparr>)"
| timer: "ui_step env st (st\<lparr>ui_view := tileTimerFired i tenv (ui_view st)\<rparr>)"

definition ui_reachable :: "res_env \<Rightarrow> int \<Rightarrow> int \<Rightarrow> RoadGraph \<Rightarrow> nat stream \<Rightarrow> UiState \<Rightarrow> bool" where
  "ui_reachable env w h g rs st \<longleftrightarrow> (ui_step env)\<^sup>*\<^sup>* (ui_init env w h g rs) st"

subsection \<open>The map view and the simulator refine the application\<close>

lemma panel_handler_app: "app_step\<^sup>*\<^sup>* vs (panel_handler layout sig vs)"
proof -
  obtain v s where vs: "vs = (v, s)" by fastforce
  show ?thesis
    unfolding vs panel_handler_def
    by (cases sig) (auto intro: app_step.intros sim_step.intros)
qed

lemma fold_panel_handler_app: "app_step\<^sup>*\<^sup>* vs (fold (panel_handler layout) sigs vs)"
proof (induction sigs arbitrary: vs)
  case (Cons sig sigs)
  then show ?case using panel_handler_app [of vs layout sig] by (simp add: rtranclp_trans)
qed simp

lemma app_step_rt: "app_step a b \<Longrightarrow> app_step\<^sup>*\<^sup>* a b"
  by (rule r_into_rtranclp)

lemma driver_rt: "sim_step s s' \<Longrightarrow> app_step\<^sup>*\<^sup>* (v, s) (v, s')"
  by (rule r_into_rtranclp, rule app_step.driver)

lemma ui_vs_upd [simp]:
  "ui_vs (st\<lparr>ui_sim := s'\<rparr>) = (ui_view st, s')" "ui_vs (st\<lparr>ui_view := v'\<rparr>) = (v', ui_sim st)"
  "ui_vs (st\<lparr>ui_overlay := ov\<rparr>) = ui_vs st" "ui_vs (st\<lparr>ui_sim := s', ui_overlay := ov\<rparr>) = (ui_view st, s')"
  "ui_vs (st\<lparr>ui_view := v', ui_overlay := ov\<rparr>) = (v', ui_sim st)"
  "ui_vs (ui_set_vs vs st) = vs"
  by (simp_all add: ui_vs_def ui_set_vs_def)

lemma ui_vs_events:
  "ui_vs (ui_startPause env st) = (ui_view st, togglePause (ui_sim st))"
  "ui_vs (ui_themeClick st) = (themeToggled (snd (themeClicked (ov_topBar (ui_overlay st)))) (ui_view st), ui_sim st)"
  "ui_vs (ui_qualityClick st) = (qualityToggled (snd (qualityClicked (ov_topBar (ui_overlay st)))) (ui_view st), ui_sim st)"
  "ui_vs (ui_slide layout k x st) = fold (panel_handler layout) (snd (panel_slide k x (ov_params (ui_overlay st)))) (ui_vs st)"
  "ui_vs (ui_toggle layout kt st) = fold (panel_handler layout) (snd (panel_toggle kt (ov_params (ui_overlay st)))) (ui_vs st)"
  "ui_vs (ui_antennaRelease layout k st) = fold (panel_handler layout) (panel_release k (ov_params (ui_overlay st))) (ui_vs st)"
  "ui_vs (ui_vehicleRelease s' st) = (ui_view st, s')"
  "ui_vs (ui_delete st) = deleteTrackedVehicle (ui_vs st)"
  "ui_vs (ui_move p st) = (mouseMoveEvent p (ui_view st), ui_sim st)"
  "ui_vs (ui_release b jk st) = mouseReleaseEvent b jk (ui_vs st)"
  "ui_vs (ui_key kk st) = keyPressEvent kk (ui_vs st)"
  "ui_vs (ui_resize w h st) = (resizeEvent w h (ui_view st), ui_sim st)"
  "ui_vs (ui_paint tenv senv colorOf bt st) = (fst (paintEvent tenv (ui_vs st)), ui_sim st)"
  by (simp_all add: ui_startPause_def ui_themeClick_def ui_qualityClick_def ui_slide_def ui_toggle_def
        ui_antennaRelease_def ui_vehicleRelease_def ui_move_def ui_release_def ui_key_def ui_resize_def ui_paint_def
        Let_def split: prod.splits)
     (simp_all add: ui_delete_def deleteTrackedVehicle_def ui_vs_def ui_set_vs_def Let_def split: option.splits)

lemma ui_step_app: "ui_step env a b \<Longrightarrow> app_step\<^sup>*\<^sup>* (ui_vs a) (ui_vs b)"
proof (induction rule: ui_step.induct)
  case (tick st ms s') then show ?case by (simp add: ui_vs_def driver_rt sim_step.tick)
next
  case (finish st) then show ?case by (simp add: ui_vs_def driver_rt sim_step.finish)
next
  case (ext_start st ms layout) then show ?case by (simp add: ui_vs_def driver_rt sim_step.start)
next
  case (ext_pause st) then show ?case by (simp add: ui_vs_def driver_rt sim_step.pause)
next
  case (ext_resume st) then show ?case by (simp add: ui_vs_def driver_rt sim_step.resume)
next
  case (ext_stop st) then show ?case by (simp add: ui_vs_def driver_rt sim_step.stop)
next
  case (ext_reset st) then show ?case by (simp add: ui_vs_def driver_rt sim_step.reset)
next
  case (ext_center st lon lat z) then show ?case by (simp add: ui_vs_def app_step_rt app_step.center)
next
  case (ext_template st t) then show ?case by (simp add: ui_vs_def app_step_rt app_step.template)
next
  case (ext_rate st ms) then show ?case by (simp add: ui_vs_def app_step_rt app_step.rate)
next
  case (start_pause st) then show ?case by (simp only: ui_vs_events) (simp add: ui_vs_def driver_rt sim_step.toggle)
next
  case (theme st) then show ?case by (simp only: ui_vs_events) (simp add: ui_vs_def app_step_rt app_step.theme)
next
  case (quality st) then show ?case by (simp only: ui_vs_events) (simp add: ui_vs_def app_step_rt app_step.quality)
next
  case (zoom_in st) then show ?case by (simp add: ui_vs_def app_step_rt app_step.zoom_in)
next
  case (zoom_out st) then show ?case by (simp add: ui_vs_def app_step_rt app_step.zoom_out)
next
  case (slide st layout k x) then show ?case by (simp only: ui_vs_events fold_panel_handler_app)
next
  case (toggle st layout k) then show ?case by (simp only: ui_vs_events fold_panel_handler_app)
next
  case (antennas k st layout) then show ?case by (simp only: ui_vs_events fold_panel_handler_app)
next
  case (vehicles st jk s') then show ?case by (simp only: ui_vs_events) (simp add: ui_vs_def driver_rt sim_step.count)
next
  case (menu st) then show ?case by simp
next
  case (menu_frame t st) then show ?case by simp
next
  case (menu_done st) then show ?case by simp
next
  case (delete st) then show ?case by (simp only: ui_vs_events) (rule app_step_rt, rule app_step.delete)
next
  case (press st b p) then show ?case by (simp add: ui_vs_def app_step_rt app_step.press)
next
  case (move st p) then show ?case by (simp only: ui_vs_events) (simp add: ui_vs_def app_step_rt app_step.move)
next
  case (release st b jk) then show ?case by (simp only: ui_vs_events) (rule app_step_rt, rule app_step.release)
next
  case (wheel st d p) then show ?case by (simp add: ui_vs_def app_step_rt app_step.wheel)
next
  case (key st k) then show ?case by (simp only: ui_vs_events) (rule app_step_rt, rule app_step.key)
next
  case (resize w h st) then show ?case by (simp only: ui_vs_events) (simp add: ui_vs_def app_step_rt app_step.resize)
next
  case (paint st tenv senv colorOf bt) then show ?case by (simp only: ui_vs_events) (simp add: ui_vs_def app_step_rt app_step.paint)
next
  case (reply st tk url ok) then show ?case by (simp add: ui_vs_def app_step_rt app_step.reply)
next
  case (timer st i tenv) then show ?case by (simp add: ui_vs_def app_step_rt app_step.timer)
qed

subsection \<open>The overlay agrees with the view and the simulator\<close>

text \<open>
  What the invariant of the application relates: the top bar's theme, quality and running
  state and its badge, the delete button, the panel's sliders, and the flags of the view
  and of the simulator they mirror.
\<close>

definition ov_key :: "UIOverlay \<Rightarrow> bool \<times> bool \<times> bool \<times> bool \<times> string \<times> bool" where
  "ov_key ov = (tb_darkTheme (ov_topBar ov), tb_highQuality (ov_topBar ov), ov_deleteVisible ov,
                tb_running (ov_topBar ov), tb_statusText (ov_topBar ov), ov_hasSimulator ov)"

definition view_key :: "MapView \<Rightarrow> bool \<times> bool \<times> bool" where
  "view_key v = (m_darkTheme v, m_lowQualityMode v, mv_deleteButton v)"

definition run_flags :: "Simulator \<Rightarrow> bool \<times> bool \<times> bool" where
  "run_flags s = (m_running s, m_paused s, m_timerActive s)"

definition badge_ok :: "TopBar \<Rightarrow> Simulator \<Rightarrow> bool" where
  "badge_ok tb s \<longleftrightarrow> tb_statusText tb = (if tb_running tb then txt_running else txt_paused) \<and>
     (m_running s \<longrightarrow> tb_running tb = isRunning s \<and> (m_timerActive s \<longleftrightarrow> \<not> m_paused s))"

definition ui_inv :: "UiState \<Rightarrow> bool" where
  "ui_inv st \<longleftrightarrow>
     tb_darkTheme (ov_topBar (ui_overlay st)) = m_darkTheme (ui_view st) \<and>
     tb_highQuality (ov_topBar (ui_overlay st)) = (\<not> m_lowQualityMode (ui_view st)) \<and>
     ov_deleteVisible (ui_overlay st) = mv_deleteButton (ui_view st) \<and>
     panel_ok (ov_params (ui_overlay st)) \<and> ov_hasSimulator (ui_overlay st) \<and>
     badge_ok (ov_topBar (ui_overlay st)) (ui_sim st)"

lemma ui_inv_keep:
  assumes "ui_inv st" "ov_key (ui_overlay st') = ov_key (ui_overlay st)" "panel_ok (ov_params (ui_overlay st'))"
    and "view_key (ui_view st') = view_key (ui_view st)" "run_flags (ui_sim st') = run_flags (ui_sim st)"
  shows "ui_inv st'"
  using assms by (simp add: ui_inv_def ov_key_def view_key_def run_flags_def badge_ok_def isRunning_def)

lemma view_key_keeps [simp]:
  "view_key (setCenterLonLat lon lat z v) = view_key v" "view_key (setTilesTemplate t v) = view_key v"
  "view_key (setRequestRateLimitMs ms v) = view_key v" "view_key (zoomAt p f v) = view_key v"
  "view_key (zoomIn v) = view_key v" "view_key (zoomOut v) = view_key v"
  "view_key (mousePressEvent b p v) = view_key v" "view_key (wheelEvent d p v) = view_key v"
  "view_key (resizeEvent w h v) = view_key v" "view_key (tileReplyFinished k url ok v) = view_key v"
  "view_key (tileTimerFired i tenv v) = view_key v"
  "view_key (showConnectionsChanged e v) = view_key v" "view_key (showRangesChanged e v) = view_key v"
  "view_key (showRoadsChanged e v) = view_key v"
  by (simp_all add: view_key_def setCenterLonLat_def setCenterWorld_def setTilesTemplate_def setRequestRateLimitMs_def
        zoomAt_def zoomIn_def zoomOut_def mousePressEvent_def wheelEvent_def resizeEvent_def tileReplyFinished_def
        tileTimerFired_def showConnectionsChanged_def showRangesChanged_def showRoadsChanged_def Let_def
        split: prod.splits)

lemma run_flags_keeps [simp]:
  "run_flags (onGraphCalculationFinished s) = run_flags s" "run_flags (cmd_transmissionRange r s) = run_flags s"
  "run_flags (cmd_vehicleSpeed k s) = run_flags s" "run_flags (placeAntennas nl ns layout s) = run_flags s"
  "run_flags (cmd_showTransitive e s) = run_flags s" "run_flags (fst (removeVehicle t s)) = run_flags s"
  "run_flags (fst (createVehicleNear lon lat jk s)) = run_flags s" "run_flags (addVehicle c s) = run_flags s"
  by (simp_all add: run_flags_def onGraphCalculationFinished_def cmd_transmissionRange_def cmd_vehicleSpeed_def
        placeAntennas_def cmd_showTransitive_def removeVehicle_def createVehicleNear_def addVehicle_def Let_def
        split: option.splits prod.splits)

lemma onTick_run_flags: "onTick ms s = Some s' \<Longrightarrow> run_flags s' = run_flags s"
  by (auto simp: onTick_def startGraphCalculation_def run_flags_def Let_def split: option.splits prod.splits if_splits)

lemma add_one_vehicle_run_flags: "add_one_vehicle jk s = Some s' \<Longrightarrow> run_flags s' = run_flags s"
  by (auto simp: add_one_vehicle_def Let_def run_flags_def addVehicle_def split: option.splits prod.splits)

lemma add_vehicles_run_flags: "add_vehicles k jk s = Some s' \<Longrightarrow> run_flags s' = run_flags s"
  by (induction k arbitrary: s) (auto dest: add_one_vehicle_run_flags split: if_splits option.splits)

lemma remove_vehicles_run_flags: "run_flags (remove_vehicles k s) = run_flags s"
  by (induction k arbitrary: s) (simp_all add: run_flags_def)

lemma setVehicleCount_run_flags: "setVehicleCount n jk s = Some s' \<Longrightarrow> run_flags s' = run_flags s"
  by (auto simp: setVehicleCount_def Let_def remove_vehicles_run_flags dest: add_vehicles_run_flags split: if_splits)

lemma panel_handler_keys:
  "view_key (fst (panel_handler layout sig vs)) = view_key (fst vs) \<and> run_flags (snd (panel_handler layout sig vs)) = run_flags (snd vs)"
  by (cases vs; cases sig) (simp_all add: panel_handler_def showTransitiveChanged_def view_key_def
        showConnectionsChanged_def showRangesChanged_def showRoadsChanged_def)

lemma fold_panel_handler_keys:
  "view_key (fst (fold (panel_handler layout) sigs vs)) = view_key (fst vs) \<and>
   run_flags (snd (fold (panel_handler layout) sigs vs)) = run_flags (snd vs)"
  by (induction sigs arbitrary: vs) (simp_all add: panel_handler_keys)

lemma ov_keeps [simp]:
  "ov_key (repositionElements ov) = ov_key ov" "ov_params (repositionElements ov) = ov_params ov"
  "ov_key (updateToggleButtonIcon env e ov) = ov_key ov" "ov_params (updateToggleButtonIcon env e ov) = ov_params ov"
  "ov_key (menuButtonClicked env ov) = ov_key ov" "ov_params (menuButtonClicked env ov) = ov_params ov"
  "ov_key (menuAnimationFrame t ov) = ov_key ov" "ov_params (menuAnimationFrame t ov) = ov_params ov"
  "ov_key (menuAnimationFinished ov) = ov_key ov" "ov_params (menuAnimationFinished ov) = ov_params ov"
  "ov_key (overlay_setGeometry w h ov) = ov_key ov" "ov_params (overlay_setGeometry w h ov) = ov_params ov"
  "ov_key (updateStats bt s ov) = ov_key ov" "ov_params (updateStats bt s ov) = ov_params ov"
  "ov_key (updateMapInfo z lon lat ov) = ov_key ov" "ov_params (updateMapInfo z lon lat ov) = ov_params ov"
  "ov_key (vehicleCountChanged c ov) = ov_key ov" "ov_params (vehicleCountChanged c ov) = panel_setVehicleCount c (ov_params ov)"
  "ov_key (ov_mapParams (\<lambda>_. p) ov) = ov_key ov" "ov_params (ov_mapParams (\<lambda>_. p) ov) = p"
  by (simp_all add: ov_key_def ov_params_def repositionElements_def updateToggleButtonIcon_def menuButtonClicked_def
        menuAnimationFrame_def menuAnimationFinished_def overlay_setGeometry_def updateStats_def updateMapInfo_def
        vehicleCountChanged_def ov_mapParams_def toggle_menu_def anim_frame_def anim_finish_def updateInfo_def Let_def
        split: option.splits prod.splits)

lemma ov_delete_params [simp]:
  "ov_params (showDeleteVehicleButton b ov) = ov_params ov" "ov_params (ov_mapTopBar f ov) = ov_params ov"
  by (simp_all add: ov_params_def showDeleteVehicleButton_def ov_mapTopBar_def)

lemma ov_delete_key:
  "ov_key (showDeleteVehicleButton b ov) =
     (tb_darkTheme (ov_topBar ov), tb_highQuality (ov_topBar ov), b, tb_running (ov_topBar ov),
      tb_statusText (ov_topBar ov), ov_hasSimulator ov)"
  by (simp add: ov_key_def showDeleteVehicleButton_def)

lemma setRunning_badge:
  "tb_running (setRunning env r tb) = r \<and>
   tb_statusText (setRunning env r tb) = (if r then txt_running else txt_paused) \<and>
   tb_darkTheme (setRunning env r tb) = tb_darkTheme tb \<and> tb_highQuality (setRunning env r tb) = tb_highQuality tb"
  by (simp add: setRunning_def updateButtonStates_def)

lemma ui_inv_setRunning:
  assumes "ui_inv st" "m_running s' \<longrightarrow> r = isRunning s' \<and> (m_timerActive s' \<longleftrightarrow> \<not> m_paused s')"
  shows "ui_inv (st\<lparr>ui_sim := s', ui_overlay := ov_mapTopBar (setRunning env r) (ui_overlay st)\<rparr>)"
  using assms by (auto simp: ui_inv_def badge_ok_def ov_mapTopBar_def ov_params_def setRunning_badge)

lemma ui_inv_keep_vs:
  assumes "ui_inv st" "ov_key (ui_overlay st') = ov_key (ui_overlay st)" "panel_ok (ov_params (ui_overlay st'))"
    and "view_key (fst (ui_vs st')) = view_key (fst (ui_vs st))" "run_flags (snd (ui_vs st')) = run_flags (snd (ui_vs st))"
  shows "ui_inv st'"
  apply (rule ui_inv_keep [OF assms(1)])
  using assms(2-) by (simp_all add: ui_vs_def)

lemma ui_inv_panel_ok: "ui_inv st \<Longrightarrow> panel_ok (ov_params (ui_overlay st))"
  by (simp add: ui_inv_def)

lemma sim_lifecycle_flags:
  "run_flags (start_sim ms layout s) = (True, False, True)"
  "run_flags (pause s) = (m_running s, True, False)" "run_flags (resume s) = (m_running s, False, True)"
  "run_flags (stop s) = (False, m_paused s, False)" "run_flags (reset s) = (m_running s, True, False)"
  by (simp_all add: run_flags_def start_sim_def pause_def resume_def stop_def reset_def clearVehicles_def Let_def)

lemma ui_inv_ext:
  assumes "ui_inv st" "run_flags s' = (rn, p, ta)" "rn \<longrightarrow> r = (rn \<and> \<not> p) \<and> (ta \<longleftrightarrow> \<not> p)"
  shows "ui_inv (st\<lparr>ui_sim := s', ui_overlay := ov_mapTopBar (setRunning env r) (ui_overlay st)\<rparr>)"
  apply (rule ui_inv_setRunning [OF assms(1)])
  using assms(2-) by (auto simp: run_flags_def isRunning_def)

lemma mouseMoveEvent_keys:
  "m_darkTheme (mouseMoveEvent p v) = m_darkTheme v \<and> m_lowQualityMode (mouseMoveEvent p v) = m_lowQualityMode v \<and>
   mv_deleteButton (mouseMoveEvent p v) =
     (if m_followingVehicle v \<and> \<not> m_followingVehicle (mouseMoveEvent p v) then False else mv_deleteButton v)"
  by (simp add: mouseMoveEvent_def Let_def)

lemma mouseReleaseEvent_keys:
  "m_darkTheme (fst (mouseReleaseEvent b jk (v, s))) = m_darkTheme v \<and>
   m_lowQualityMode (fst (mouseReleaseEvent b jk (v, s))) = m_lowQualityMode v \<and>
   mv_deleteButton (fst (mouseReleaseEvent b jk (v, s))) =
     (if b = LeftButton \<and> \<not> m_didDrag v \<and> click_pick v s \<noteq> None then True else mv_deleteButton v) \<and>
   run_flags (snd (mouseReleaseEvent b jk (v, s))) = run_flags s"
  by (simp add: mouseReleaseEvent_def click_pick_def Let_def split: prod.splits option.splits)

lemma check_tracked_button:
  "mv_deleteButton (check_tracked s v) =
     (if m_followingVehicle v \<and> \<not> m_followingVehicle (check_tracked s v) then False else mv_deleteButton v)"
  using check_tracked_cases [of s v] by auto

lemma keyPressEvent_keys:
  "k \<noteq> Key_L \<Longrightarrow> k \<noteq> Key_B \<Longrightarrow>
     view_key (fst (keyPressEvent k (v, s))) = view_key v \<and> run_flags (snd (keyPressEvent k (v, s))) = run_flags s"
  by (cases k) (simp_all add: keyPressEvent_def view_key_def zoomAt_def Let_def split: prod.splits)

lemma ui_inv_startPause: "ui_inv st \<Longrightarrow> ui_inv (ui_startPause env st)"
  by (auto simp: ui_inv_def badge_ok_def ui_startPause_def ov_mapTopBar_def ov_params_def setRunning_badge
        togglePause_def pause_def resume_def isRunning_def Let_def)

lemma ui_inv_clicks: "ui_inv st \<Longrightarrow> ui_inv (ui_themeClick st)" "ui_inv st \<Longrightarrow> ui_inv (ui_qualityClick st)"
  by (simp_all add: ui_inv_def badge_ok_def ui_themeClick_def ui_qualityClick_def themeClicked_def qualityClicked_def
        themeToggled_def qualityToggled_def ov_params_def Let_def)

lemma ui_overlay_panel_events:
  "ui_overlay (ui_slide layout k x st) = ov_mapParams (\<lambda>_. fst (panel_slide k x (ov_params (ui_overlay st)))) (ui_overlay st)"
  "ui_overlay (ui_toggle layout kt st) = ov_mapParams (\<lambda>_. fst (panel_toggle kt (ov_params (ui_overlay st)))) (ui_overlay st)"
  "ui_overlay (ui_antennaRelease layout k st) = ui_overlay st"
  by (simp_all add: ui_slide_def ui_toggle_def ui_antennaRelease_def ui_set_vs_def split: prod.splits)

lemma ui_inv_panel_events:
  assumes "ui_inv st"
  shows "ui_inv (ui_slide layout k x st)" "ui_inv (ui_toggle layout kt st)" "ui_inv (ui_antennaRelease layout k st)"
  using assms ui_inv_panel_ok [OF assms]
  by (auto intro!: ui_inv_keep_vs [OF assms] simp: ui_vs_events ui_overlay_panel_events fold_panel_handler_keys
        panel_slide_ok panel_toggle_ok)

lemma ui_inv_vehicleRelease:
  "ui_inv st \<Longrightarrow> setVehicleCount n jk (ui_sim st) = Some s' \<Longrightarrow> ui_inv (ui_vehicleRelease s' st)"
  by (rule ui_inv_keep_vs)
     (auto simp: ui_vehicleRelease_def ui_vs_def ui_inv_panel_ok panel_setVehicleCount_ok dest: setVehicleCount_run_flags)

lemma ui_inv_delete: "ui_inv st \<Longrightarrow> ui_inv (ui_delete st)"
  by (auto simp: ui_delete_def ui_inv_def badge_ok_def deleteTrackedVehicle_def ui_vs_def ui_set_vs_def Let_def
        showDeleteVehicleButton_def vehicleCountChanged_def ov_mapParams_def ov_params_def panel_setVehicleCount_ok
        removeVehicle_def isRunning_def split: option.splits)

lemma ui_inv_move: "ui_inv st \<Longrightarrow> ui_inv (ui_move p st)"
  using mouseMoveEvent_keys [of p "ui_view st"]
  by (simp add: ui_move_def ui_inv_def badge_ok_def showDeleteVehicleButton_def ov_params_def Let_def)

lemma ui_inv_release:
  assumes i: "ui_inv st"
  shows "ui_inv (ui_release b jk st)"
proof -
  let ?r = "mouseReleaseEvent b jk (ui_view st, ui_sim st)"
  note k = mouseReleaseEvent_keys [of b jk "ui_view st" "ui_sim st"]
  have r: "ui_vs (ui_release b jk st) = ?r" by (simp only: ui_vs_events) (simp add: ui_vs_def)
  have v: "ui_view (ui_release b jk st) = fst ?r" "ui_sim (ui_release b jk st) = snd ?r"
    using r unfolding ui_vs_def by (metis fst_conv, metis snd_conv)
  consider (pick) c where "b = LeftButton" "\<not> m_didDrag (ui_view st)" "click_pick (ui_view st) (ui_sim st) = Some c"
    | (none) "\<not> (b = LeftButton \<and> \<not> m_didDrag (ui_view st) \<and> click_pick (ui_view st) (ui_sim st) \<noteq> None)" by auto
  then show ?thesis
  proof cases
    case pick
    then have "ui_overlay (ui_release b jk st) = showDeleteVehicleButton True (ui_overlay st)"
      by (simp add: ui_release_def ui_set_vs_def Let_def)
    then show ?thesis using i k v pick
      by (simp add: ui_inv_def badge_ok_def showDeleteVehicleButton_def ov_params_def run_flags_def isRunning_def)
  next
    case none
    then have "ui_overlay (ui_release b jk st) = ui_overlay st \<or>
               ui_overlay (ui_release b jk st) = vehicleCountChanged (sim_count (snd ?r)) (ui_overlay st)"
      by (auto simp: ui_release_def ui_set_vs_def Let_def)
    then show ?thesis
    proof
      assume "ui_overlay (ui_release b jk st) = ui_overlay st"
      then show ?thesis using k none ui_inv_panel_ok [OF i] by (intro ui_inv_keep_vs [OF i]) (auto simp: v view_key_def ui_vs_def)
    next
      assume "ui_overlay (ui_release b jk st) = vehicleCountChanged (sim_count (snd ?r)) (ui_overlay st)"
      then show ?thesis using k none ui_inv_panel_ok [OF i]
        by (intro ui_inv_keep_vs [OF i]) (auto simp: v view_key_def ui_vs_def panel_setVehicleCount_ok)
    qed
  qed
qed

lemma ui_inv_key:
  assumes i: "ui_inv st"
  shows "ui_inv (ui_key k st)"
proof -
  consider "k = Key_L" | "k = Key_B" | "k \<noteq> Key_L \<and> k \<noteq> Key_B" by blast
  then show ?thesis
  proof cases
    case 1
    then show ?thesis using i
      by (simp add: ui_key_def keyPressEvent_def ui_inv_def badge_ok_def setHighQuality_def ov_mapTopBar_def
            ov_params_def ui_set_vs_def ui_vs_def Let_def)
  next
    case 2
    then show ?thesis using i
      by (simp add: ui_key_def keyPressEvent_def ui_inv_def badge_ok_def setDarkTheme_def themeToggled_def
            ov_mapTopBar_def ov_params_def ui_set_vs_def ui_vs_def Let_def)
  next
    case 3
    have o: "ui_overlay (ui_key k st) = ui_overlay st" using 3 by (cases k) (simp_all add: ui_key_def ui_set_vs_def Let_def)
    have "ui_vs (ui_key k st) = keyPressEvent k (ui_view st, ui_sim st)" by (simp only: ui_vs_events) (simp add: ui_vs_def)
    then show ?thesis using 3 keyPressEvent_keys [of k "ui_view st" "ui_sim st"] ui_inv_panel_ok [OF i] o
      by (intro ui_inv_keep_vs [OF i]) (simp_all add: ui_vs_def)
  qed
qed

lemma ui_inv_paint:
  assumes i: "ui_inv st"
  shows "ui_inv (ui_paint tenv senv colorOf bt st)"
proof -
  let ?v = "ui_view st" and ?s = "ui_sim st"
  let ?h = "m_followingVehicle ?v \<and> \<not> m_followingVehicle (check_tracked ?s ?v)"
  have vs: "ui_view (ui_paint tenv senv colorOf bt st) = fst (paintEvent tenv (?v, ?s)) \<and>
            ui_sim (ui_paint tenv senv colorOf bt st) = ?s"
    by (simp add: ui_paint_def Let_def)
  have ov: "ov_key (ui_overlay (ui_paint tenv senv colorOf bt st)) =
              ov_key (if ?h then showDeleteVehicleButton False (ui_overlay st) else ui_overlay st) \<and>
            ov_params (ui_overlay (ui_paint tenv senv colorOf bt st)) = ov_params (ui_overlay st)"
    by (cases ?h) (simp_all add: ui_paint_def Let_def)
  show ?thesis
    using i vs ov paintEvent_flags [of tenv ?v ?s] check_tracked_button [of ?s ?v]
    by (cases ?h) (simp_all add: ui_inv_def badge_ok_def ov_key_def showDeleteVehicleButton_def)
qed

lemma ui_inv_upd:
  "ui_inv st \<Longrightarrow> view_key v' = view_key (ui_view st) \<Longrightarrow> ui_inv (st\<lparr>ui_view := v'\<rparr>)"
  "ui_inv st \<Longrightarrow> run_flags s' = run_flags (ui_sim st) \<Longrightarrow> ui_inv (st\<lparr>ui_sim := s'\<rparr>)"
  "ui_inv st \<Longrightarrow> ov_key ov' = ov_key (ui_overlay st) \<Longrightarrow> ov_params ov' = ov_params (ui_overlay st) \<Longrightarrow>
     ui_inv (st\<lparr>ui_overlay := ov'\<rparr>)"
  by (simp_all add: ui_inv_def ov_key_def view_key_def run_flags_def badge_ok_def isRunning_def)

lemma ui_inv_resize: "ui_inv st \<Longrightarrow> ui_inv (ui_resize w h st)"
  by (rule ui_inv_keep) (simp_all add: ui_resize_def ui_inv_panel_ok)

lemma ui_step_inv: "ui_step env a b \<Longrightarrow> ui_inv a \<Longrightarrow> ui_inv b"
proof (induction rule: ui_step.induct)
  case (tick st ms s') show ?case by (rule ui_inv_upd(2) [OF tick.prems onTick_run_flags [OF tick.hyps(2)]])
next
  case (finish st) show ?case by (rule ui_inv_upd(2) [OF finish.prems]) simp
next
  case (ext_start st ms layout) show ?case by (rule ui_inv_ext [OF ext_start.prems sim_lifecycle_flags(1)]) simp
next
  case (ext_pause st) show ?case by (rule ui_inv_ext [OF ext_pause.prems sim_lifecycle_flags(2)]) simp
next
  case (ext_resume st) show ?case by (rule ui_inv_ext [OF ext_resume.prems sim_lifecycle_flags(3)]) simp
next
  case (ext_stop st) show ?case by (rule ui_inv_ext [OF ext_stop.prems sim_lifecycle_flags(4)]) simp
next
  case (ext_reset st) show ?case by (rule ui_inv_ext [OF ext_reset.prems sim_lifecycle_flags(5)]) simp
next
  case (ext_center st lon lat z) show ?case by (rule ui_inv_upd(1) [OF ext_center.prems]) simp
next
  case (ext_template st t) show ?case by (rule ui_inv_upd(1) [OF ext_template.prems]) simp
next
  case (ext_rate st ms) show ?case by (rule ui_inv_upd(1) [OF ext_rate.prems]) simp
next
  case (start_pause st) show ?case by (rule ui_inv_startPause [OF start_pause.prems])
next
  case (theme st) show ?case by (rule ui_inv_clicks(1) [OF theme.prems])
next
  case (quality st) show ?case by (rule ui_inv_clicks(2) [OF quality.prems])
next
  case (zoom_in st) show ?case by (rule ui_inv_upd(1) [OF zoom_in.prems]) simp
next
  case (zoom_out st) show ?case by (rule ui_inv_upd(1) [OF zoom_out.prems]) simp
next
  case (slide st layout k x) show ?case by (rule ui_inv_panel_events(1) [OF slide.prems])
next
  case (toggle st layout k) show ?case by (rule ui_inv_panel_events(2) [OF toggle.prems])
next
  case (antennas k st layout) show ?case by (rule ui_inv_panel_events(3) [OF antennas.prems])
next
  case (vehicles st jk s') show ?case by (rule ui_inv_vehicleRelease [OF vehicles.prems vehicles.hyps])
next
  case (menu st) show ?case by (rule ui_inv_upd(3) [OF menu.prems]) simp_all
next
  case (menu_frame t st) show ?case by (rule ui_inv_upd(3) [OF menu_frame.prems]) simp_all
next
  case (menu_done st) show ?case by (rule ui_inv_upd(3) [OF menu_done.prems]) simp_all
next
  case (delete st) show ?case by (rule ui_inv_delete [OF delete.prems])
next
  case (press st b p) show ?case by (rule ui_inv_upd(1) [OF press.prems]) simp
next
  case (move st p) show ?case by (rule ui_inv_move [OF move.prems])
next
  case (release st b jk) show ?case by (rule ui_inv_release [OF release.prems])
next
  case (wheel st d p) show ?case by (rule ui_inv_upd(1) [OF wheel.prems]) simp
next
  case (key st k) show ?case by (rule ui_inv_key [OF key.prems])
next
  case (resize w h st) show ?case by (rule ui_inv_resize [OF resize.prems])
next
  case (paint st tenv senv colorOf bt) show ?case by (rule ui_inv_paint [OF paint.prems])
next
  case (reply st tk url ok) show ?case by (rule ui_inv_upd(1) [OF reply.prems]) simp
next
  case (timer st i tenv) show ?case by (rule ui_inv_upd(1) [OF timer.prems]) simp
qed

lemma ui_init_inv: "ui_inv (ui_init env w h g rs)"
  by (simp add: ui_inv_def badge_ok_def ui_init_def mv_setSimulator_def ov_mapTopBar_def setRunning_badge
        new_UIOverlay_def updateToggleButtonIcon_def new_TopBar_def updateButtonStates_def new_MapView_def
        ov_params_def new_BottomMenu_def new_ParametersPanel_ok new_Simulator_def isRunning_def split: option.splits)

lemma ui_reachable_inv: "ui_reachable env w h g rs st \<Longrightarrow> ui_inv st"
  unfolding ui_reachable_def
  by (induction rule: rtranclp_induct) (simp_all add: ui_init_inv ui_step_inv)

lemma ui_steps_app: "(ui_step env)\<^sup>*\<^sup>* a b \<Longrightarrow> app_step\<^sup>*\<^sup>* (ui_vs a) (ui_vs b)"
  by (induction rule: rtranclp_induct) (auto dest: ui_step_app intro: rtranclp_trans)

lemma ui_init_vs: "ui_vs (ui_init env w h g rs) = (new_MapView w h, new_Simulator g rs)"
  by (simp add: ui_init_def ui_vs_def)

lemma ui_reachable_view_inv:
  assumes "ui_reachable env w h g rs st" "0 \<le> w" "0 \<le> h"
  shows "view_inv (ui_view st)"
proof -
  have "app_step\<^sup>*\<^sup>* (new_MapView w h, new_Simulator g rs) (ui_vs st)"
    using ui_steps_app [of env "ui_init env w h g rs" st] assms(1) by (simp add: ui_reachable_def ui_init_vs)
  then show ?thesis using app_steps_view_inv new_MapView_inv [OF assms(2,3)] by (fastforce simp: ui_vs_def)
qed

text \<open>
  The map view and the simulator of every state the whole application reaches, the overlay's
  events included, form a state the map view and the simulator reach by their own operations:
  the overlay changes them only through their public slots.
\<close>

theorem ui_reachable_app:
  "ui_reachable env w h g rs st \<Longrightarrow> app_reachable w h g rs (ui_view st, ui_sim st)"
  using ui_steps_app [of env "ui_init env w h g rs" st]
  by (simp add: ui_reachable_def app_reachable_def ui_init_vs) (simp add: ui_vs_def)

text \<open>
  C31: in every state the application reaches from a view of non-negative size, the overlay
  shows what the view does: the theme and quality buttons the view's theme and quality, the
  delete button exactly when the view follows a vehicle, every slider of the panel within its
  range, the labels of the speed, the two antenna and the range rows showing their values (the
  vehicle-count row's label is not covered: it can differ from its slider, see \<open>panel_vehicle_label_mismatch\<close>), and the badge
  the text of the top bar's running state.
\<close>

theorem ui_reachable_sync:
  assumes "ui_reachable env w h g rs st" "0 \<le> w" "0 \<le> h"
  shows "tb_darkTheme (ov_topBar (ui_overlay st)) = m_darkTheme (ui_view st) \<and>
         tb_highQuality (ov_topBar (ui_overlay st)) = (\<not> m_lowQualityMode (ui_view st)) \<and>
         ov_deleteVisible (ui_overlay st) = m_followingVehicle (ui_view st) \<and>
         Overlay.panel_ok (bm_params (ov_menu (ui_overlay st))) \<and>
         tb_statusText (ov_topBar (ui_overlay st)) = (if tb_running (ov_topBar (ui_overlay st)) then txt_running else txt_paused)"
  using ui_reachable_inv [OF assms(1)] ui_reachable_view_inv [OF assms]
  by (simp add: ui_inv_def badge_ok_def ov_params_def view_inv_def)

text \<open>
  C32: once the simulator has been started, the top bar's running state is the simulator's
  \<open>isRunning()\<close> and the tick timer runs exactly when the simulator is not paused, in every
  state the application reaches.
\<close>

theorem ui_reachable_badge:
  assumes "ui_reachable env w h g rs st" "m_running (ui_sim st)"
  shows "tb_running (ov_topBar (ui_overlay st)) = isRunning (ui_sim st) \<and>
         (m_timerActive (ui_sim st) \<longleftrightarrow> \<not> m_paused (ui_sim st))"
  using ui_reachable_inv [OF assms(1)] assms(2) by (simp add: ui_inv_def badge_ok_def)

text \<open>
  C33: before the simulator is started, a paused simulator resumed by the start/pause button
  runs its tick timer (its vehicles move on every tick) while the top bar's badge still says
  it is paused: \<open>resume\<close> does not check \<open>m_running\<close>, and the button shows \<open>isRunning()\<close>.
\<close>

theorem ui_startPause_stale_badge:
  assumes "\<not> m_running (ui_sim st)" "m_paused (ui_sim st)"
  shows "m_timerActive (ui_sim (ui_startPause env st)) \<and> \<not> m_paused (ui_sim (ui_startPause env st)) \<and>
         \<not> tb_running (ov_topBar (ui_overlay (ui_startPause env st))) \<and>
         tb_statusText (ov_topBar (ui_overlay (ui_startPause env st))) = txt_paused"
  using assms by (simp add: ui_startPause_def togglePause_def resume_def isRunning_def ov_mapTopBar_def setRunning_badge Let_def)

text \<open>
  C34: the key \<open>T\<close> toggles the transitive connections of the view and of the simulator's
  graph but leaves the panel's transitive toggle as it was, so that the panel and the view
  disagree after it whenever they agreed before.
\<close>

theorem ui_key_T_stale_toggle:
  "pp_transitive (bm_params (ov_menu (ui_overlay (ui_key Key_T st)))) = pp_transitive (bm_params (ov_menu (ui_overlay st))) \<and>
   m_showTransitiveConnections (ui_view (ui_key Key_T st)) = (\<not> m_showTransitiveConnections (ui_view st)) \<and>
   isTransitiveClosureEnabled (m_interferenceGraph (ui_sim (ui_key Key_T st))) = (\<not> m_showTransitiveConnections (ui_view st))"
  by (simp add: ui_key_def keyPressEvent_def ui_vs_def ui_set_vs_def cmd_showTransitive_def Let_def
        isTransitiveClosureEnabled_def enableTransitiveClosure_def)

end
