(* ===== verification/Spec2Isabelle.thy ===== *)
theory Spec2Isabelle
  imports RoadGraph Simulator MapApp UiApp
begin

text \<open>
  \<^bold>\<open>A verification library for the V2V interference simulator\<close> (\<open>src/\<close>, C++ and Qt):
  a road network on which vehicles move, an interference graph of the vehicles within
  radio range of each other, and the map widget with its overlay that shows them.

  \<^bold>\<open>The program.\<close> \<open>GraphBuilder\<close> (\<open>src/src/graph_builder.cpp\<close>) turns OpenStreetMap
  nodes and ways into a directed road graph. A \<open>Simulator\<close> (\<open>src/src/simulator.cpp\<close>)
  ticks on a timer: it advances every \<open>Vehicule\<close> along the graph
  (\<open>src/src/vehicule.cpp\<close>), then, when no build is in flight, copies the vehicles into
  snapshots grouped by the micro-cells of a \<open>SpatialGrid\<close> (\<open>src/include/spatial_grid.h\<close>)
  and hands them to a worker that runs \<open>InterferenceGraph::buildGraphFromSnapshots\<close>
  (\<open>src/src/interference_graph.cpp\<close>); the completion slot publishes the result. The
  \<open>MapView\<close> widget (\<open>src/src/map_view.cpp\<close>) projects the map in Web-Mercator, downloads
  and caches tiles, draws roads, vehicles (through \<open>VehicleRenderer\<close>,
  \<open>src/src/vehicle_renderer.cpp\<close>), connections and antennas, and handles the mouse and the
  keys. Its \<open>UIOverlay\<close> (\<open>src/src/overlay_ui.cpp\<close>) holds the top bar, the parameters panel,
  the statistics panel and the retractable bottom menu; the connections of
  \<open>MapView::MapView\<close> and \<open>MapView::setSimulator\<close> wire the overlay, the view and the
  simulator together.

  \<^bold>\<open>Theories\<close> (each opens with what it models).
  \<^item> \<open>V2V_Prelude\<close>: identifiers, adjacency maps (\<open>int \<rightharpoonup> int set\<close>, the source's
    \<open>unordered_map<int, unordered_set<int>>\<close>), symmetry, finiteness, the handshake lemma
    (neighbour counts sum to twice the links) and shared list and map lemmas.
  \<^item> \<open>Geo\<close>: the builder's flat distance and \<open>GraphBuilder::distance\<close> with \<open>atan2\<close>.
  \<^item> \<open>Closure\<close>: \<open>bfsReachable\<close> as a \<open>while_option\<close> loop; \<open>Interference\<close>: the snapshot
    records, the range gate, both enumerations of \<open>buildGraphFromSnapshots\<close>, the closure and
    the accessors.
  \<^item> \<open>RoadGraph\<close>: the road graph and \<open>GraphBuilder::buildGraph\<close>; \<open>Vehicle\<close>: \<open>pickNextEdge\<close>,
    \<open>update\<close> (its carry loop a \<open>partial_function\<close> in the option monad), \<open>getPosition\<close>,
    \<open>avoidCollision\<close>.
  \<^item> \<open>SpatialGrid\<close> and \<open>GridGraph\<close>: the grid, the legacy \<open>InterferenceGraph::buildGraph\<close> over
    vehicle objects, the grid hooks and \<open>printStats\<close> as the values it prints.
  \<^item> \<open>Simulator\<close>: every slot and command of the driver, and the driver as the step relation
    \<open>sim_step\<close>; \<open>setVehicleCount\<close>'s unbounded rejection loops are \<open>partial_function\<close>s.
  \<^item> \<open>QtCore\<close>: the Qt and C++ primitives the interface uses (truncation to \<open>int\<close>,
    \<open>QString::number\<close>, \<open>QString::replace\<close>, the \<open>OutCubic\<close> curve, animation interpolation).
  \<^item> \<open>MapProjection\<close>, \<open>MapView\<close>, \<open>MapTiles\<close>, \<open>MapPaint\<close>, \<open>Hud\<close>: the projection, the camera and
    input events, the tile pipeline, \<open>paintEvent\<close> as the frame it draws, and \<open>drawHUD\<close>;
    \<open>MapApp\<close>: the view and the simulator as one event loop \<open>app_step\<close>.
  \<^item> \<open>Overlay\<close>: every widget of the overlay as a record with its slots; \<open>Renderer\<close>: the
    static state of \<open>VehicleRenderer\<close> and \<open>drawVehicle\<close> as the drawing it makes.
  \<^item> \<open>UiApp\<close>: the whole application as the step relation \<open>ui_step\<close> (every overlay event
    with the slots its signals reach, every input event with the overlay calls it makes,
    repaints, tile events, ticks, build completions and the simulator's commands), and its
    reachable states \<open>ui_reachable\<close>.
  \<^item> This theory: the concrete scenarios and the witnesses of the claims with hypotheses.

  \<^bold>\<open>What is proved.\<close> Builder: the all-pairs build refines the specification's edge
  relation; the per-cell build equals it on sound antenna data with an order-independent
  range gate, and on two vehicles in neighbouring cells it equals it exactly when the gate
  answers the same in both orders of the pair (\<open>antenna_build_diverges\<close>); the adjacency is
  symmetric and without self-loops; the closure is the transitive closure minus the vehicle
  itself and every BFS terminates. Vehicles: \<open>update\<close> returns on every graph where every
  vertex has a valid outgoing edge of length at least some \<open>\<delta> > 0\<close>, and never returns
  when no edge is valid; its heading stays in [0, 360) and its history within
  \<open>MAX_HISTORY\<close>; \<open>pickNextEdge\<close> refines its three-bucket specification. Driver: every
  reachable state publishes a symmetric graph without self-loops and has distinct vehicle
  identifiers; \<open>setVehicleCount\<close> returns on a fair stream of draws, every vehicle it
  adds starting and ending at an accepted vertex, and never returns on a graph without a
  valid road. Map view: the projection round trips, \<open>setCenterLonLat\<close> and \<open>zoomAt\<close> keep
  the point asked for, the tiles drawn exist and cover the widget, requests are rate
  limited, a frame draws the right connection lines and centres a followed vehicle, and
  the view's invariant holds in every state of \<open>app_step\<close>. Application: the map view and
  the simulator of every \<open>ui_step\<close> state are an \<open>app_step\<close> state; the overlay
  mirrors the view's theme and quality, shows the delete button exactly while a vehicle is
  followed, keeps every slider in its range and the labels of the speed, antenna and range
  rows on their values, and once started the badge shows \<open>isRunning()\<close>; the statistics count
  each link once, the menu's animation stays between its ends and a double click brings
  it back, the vehicle icon points along the heading, and the scale label names the bar's
  length exactly (\<open>Hud.scale_label_exact\<close>) above a resting menu
  (\<open>Hud.hud_above_menu\<close>). The error theorems record what the code does where it departs
  from its intent (the findings of \<open>PROJECT.json\<close>): the hanging carry loop, the
  hanging rejection loops of \<open>setVehicleCount\<close>, \<open>centerLon\<close>, the left strip of \<open>drawTiles\<close>,
  tiles stored in the wrong theme's cache, the badge that says Paused while the simulation
  runs, the key \<open>T\<close> that leaves the panel's toggle stale, the vehicle label after the last
  deletion, and the SVG path that never replaces a loaded icon.

  \<^bold>\<open>Bounds and loops.\<close> No fuel is used: loops that always end are \<open>fun\<close>s, \<open>primrec\<close>s or
  \<open>while_option\<close>s with a termination proof; loops that may run forever (the carry loop,
  the rejection loops) are \<open>partial_function (option)\<close>, and their termination is a theorem
  under the hypotheses that make it true. The comparison counter is bounded for the
  10000 vehicles the interface allows; animation frames are taken at time fractions in
  0..1.

  \<^bold>\<open>Modelling choices.\<close> Doubles are reals (no rounding); \<open>int\<close> division and remainder
  are \<open>sdiv\<close> and \<open>smod\<close>; \<open>rand()\<close> is a stream of naturals; the iteration order of the
  \<open>unordered\<close> containers is an argument wherever a result could depend on it; the clock,
  the file system, the network replies and the SVG renderer are environments or events;
  signals are returned lists or the slots they reach in \<open>ui_step\<close>.

  \<^bold>\<open>Not modelled.\<close> The OSM parser and \<open>main.cpp\<close> (not under \<open>src/\<close>); the k-means
  placement of the antennas (its layout is an argument); the painting itself (pens,
  colours, stylesheets, fonts, the \<open>paintEvent\<close>s of \<open>TopBar\<close> and \<open>BottomMenu\<close>, the pixels
  of tiles and icons); \<open>MapView::loadImage\<close>, \<open>setNetworkIdentity\<close> and the request
  headers; console output, wall-clock timing (\<open>getLastBuildTimeMs\<close> is an argument) and the
  simulator's destructor, which only stops the timer and waits for the worker.
\<close>

abbreviation empty_graph :: "(unit, unit) InterferenceGraph" where
  "empty_graph \<equiv> new_InterferenceGraph ()"

definition sA :: VehicleSnapshot where
  "sA = \<lparr>snap_id = 1, snap_lon = 0, snap_lat = 0, snap_range = 50, snap_micro = 0\<rparr>"

definition sB :: VehicleSnapshot where
  "sB = \<lparr>snap_id = 2, snap_lon = 1 / 10000, snap_lat = 0, snap_range = 50, snap_micro = 1\<rparr>"

definition info_AB :: AntennaNeighborhood where
  "info_AB = \<lparr>vehiclesPerAntenna = [(0, [0]), (1, [1])], neighborAntennas = [0 \<mapsto> {1}, 1 \<mapsto> {0}]\<rparr>"

definition sC :: VehicleSnapshot where
  "sC = \<lparr>snap_id = 1, snap_lon = 1, snap_lat = 60, snap_range = 6660500, snap_micro = 1\<rparr>"

definition sD :: VehicleSnapshot where
  "sD = \<lparr>snap_id = 2, snap_lon = 0, snap_lat = 0, snap_range = 6660500, snap_micro = 0\<rparr>"

text \<open>Two vehicles in two neighbouring cells \<open>ca > cb\<close>: index 0 in cell \<open>ca\<close>, index 1 in cell \<open>cb\<close>.\<close>

definition two_cells :: "cell_id \<Rightarrow> cell_id \<Rightarrow> AntennaNeighborhood" where
  "two_cells ca cb = \<lparr>vehiclesPerAntenna = [(ca, [0]), (cb, [1])], neighborAntennas = [ca \<mapsto> {cb}, cb \<mapsto> {ca}]\<rparr>"

definition chain5 :: "VehicleSnapshot list" where
  "chain5 = map (\<lambda>k. \<lparr>snap_id = int k, snap_lon = 0, snap_lat = real k * 90 / 111000,
                        snap_range = 100, snap_micro = -1\<rparr>) [1, 2, 3, 4, 5]"

definition no_antennas :: AntennaNeighborhood where
  "no_antennas = \<lparr>vehiclesPerAntenna = [], neighborAntennas = Map.empty\<rparr>"

definition strasbourg3 :: "real list \<Rightarrow> VehicleSnapshot list" where
  "strasbourg3 ranges =
     [\<lparr>snap_id = 1, snap_lon = 7.7521, snap_lat = 48.5734, snap_range = ranges ! 0, snap_micro = -1\<rparr>,
      \<lparr>snap_id = 2, snap_lon = 7.7521, snap_lat = 48.5735, snap_range = ranges ! 1, snap_micro = -1\<rparr>,
      \<lparr>snap_id = 3, snap_lon = 7.7521, snap_lat = 48.5740, snap_range = ranges ! 2, snap_micro = -1\<rparr>]"

definition gate_pair :: "real \<Rightarrow> real \<Rightarrow> real \<Rightarrow> VehicleSnapshot list" where
  "gate_pair d range1 range2 =
     [\<lparr>snap_id = 1, snap_lon = 0, snap_lat = 0, snap_range = range1, snap_micro = -1\<rparr>,
      \<lparr>snap_id = 2, snap_lon = 0, snap_lat = d / 111000, snap_range = range2, snap_micro = -1\<rparr>]"

definition osm_nodes :: "OSMNode list" where
  "osm_nodes = [\<lparr>osm_id = 10, osm_lat = 48.57, osm_lon = 7.75\<rparr>,
                \<lparr>osm_id = 20, osm_lat = 48.571, osm_lon = 7.75\<rparr>,
                \<lparr>osm_id = 30, osm_lat = 48.572, osm_lon = 7.751\<rparr>]"

definition osm_ways :: "OSMWay list" where
  "osm_ways = [\<lparr>nodeRefs = [10, 20, 30], oneway = False, highwayType = ''primary''\<rparr>,
               \<lparr>nodeRefs = [30, 99], oneway = True, highwayType = ''service''\<rparr>]"

definition osm_graph :: RoadGraph where
  "osm_graph = gb_graph (buildGraph (new_GraphBuilder osm_nodes osm_ways))"

definition line_graph :: RoadGraph where
  "line_graph =
     \<lparr>rg_vertices = [\<lparr>vd_id = 1, vd_lat = 0, vd_lon = 0\<rparr>, \<lparr>vd_id = 2, vd_lat = 1 / 1000, vd_lon = 0\<rparr>],
      rg_edges = [\<lparr>e_source = 0, e_target = 1, e_distance = 100, e_oneway = True, e_type = ''primary''\<rparr>]\<rparr>"

definition ring_graph :: RoadGraph where
  "ring_graph =
     line_graph\<lparr>rg_edges := rg_edges line_graph @
       [\<lparr>e_source = 1, e_target = 0, e_distance = 100, e_oneway = True, e_type = ''primary''\<rparr>]\<rparr>"

definition foot_graph :: RoadGraph where
  "foot_graph =
     line_graph\<lparr>rg_edges := [\<lparr>e_source = 0, e_target = 1, e_distance = 100, e_oneway = False, e_type = ''footway''\<rparr>]\<rparr>"

definition line_vehicle :: Vehicule where
  "line_vehicle =
     new_Vehicule 1 0 1 14 500 5 0 0 \<lparr>e_source = 0, e_target = 0, e_distance = 0, e_oneway = True, e_type = []\<rparr>"

definition no_junk :: "int \<Rightarrow> junk" where
  "no_junk i = (0, 0, \<lparr>e_source = 0, e_target = 0, e_distance = 0, e_oneway = True, e_type = []\<rparr>)"

definition two_car_sim :: Simulator where
  "two_car_sim = the (setVehicleCount 2 no_junk (new_Simulator ring_graph (sconst 0)))"

definition twenty_cars :: "Vehicule list" where
  "twenty_cars = map (\<lambda>k. line_vehicle\<lparr>veh_id := int k\<rparr>) [0..<20]"

definition env0 :: tile_env where
  "env0 = \<lparr>env_now = 1000, env_loads = (\<lambda>u. False)\<rparr>"

definition hq_view :: MapView where
  "hq_view = qualityToggled True (new_MapView 800 600)"

definition gap_view :: MapView where
  "gap_view = (setTilesTemplate [] hq_view)\<lparr>m_offsetX := -100\<rparr>"

definition follow_view :: MapView where
  "follow_view = (new_MapView 800 600)\<lparr>m_trackedVehicle := Some 0, m_followingVehicle := True, mv_deleteButton := True\<rparr>"

definition res0 :: res_env where
  "res0 = \<lparr>re_appDir = ''/opt/v2v'', re_exists = (\<lambda>p. False)\<rparr>"

definition ui0 :: UiState where
  "ui0 = ui_init res0 800 600 ring_graph (sconst 0)"

definition ui_started :: UiState where
  "ui_started = ui0\<lparr>ui_sim := start_sim 50 (Map.empty, Map.empty) (ui_sim ui0),
                    ui_overlay := ov_mapTopBar (setRunning res0 True) (ui_overlay ui0)\<rparr>"

definition ui_paused :: UiState where
  "ui_paused = ui_startPause res0 ui0"

definition linked_sim :: Simulator where
  "linked_sim = two_car_sim\<lparr>m_interferenceGraph :=
                  (m_interferenceGraph two_car_sim)\<lparr>adjacencyList := [0 \<mapsto> {1}, 1 \<mapsto> {0}]\<rparr>\<rparr>"

definition menu_ov :: UIOverlay where
  "menu_ov = menuButtonClicked res0 (new_UIOverlay res0)"

definition svg0 :: svg_env where
  "svg0 = \<lparr>se_appDir = ''/opt/v2v'', se_exists = (\<lambda>p. p = ''car.svg''), se_valid = (\<lambda>p. True),
           se_render = (\<lambda>p n. [[(0, 0, 0, 255), (0, 0, 0, 0)]])\<rparr>"

definition icon_state :: RendererState where
  "icon_state = \<lparr>vr_svgRenderer = Some ''car.svg'', vr_cachedSvgPath = ''car.svg'', vr_initialized = True\<rparr>"

abbreviation chain_graph :: "(unit, unit) InterferenceGraph" where
  "chain_graph \<equiv> calculateGraphAsync () chain5 True no_antennas"

text \<open>Witness of the per-cell equivalence: a sound two-cell neighbourhood on a common latitude.\<close>

theorem antenna_eq_fallback_witness:
  "antenna_info_sound [sA, sB] info_AB \<and> range_symmetric [sA, sB] \<and>
   adjacencyList (buildGraphFromSnapshots (empty_graph) [sA, sB] (Some info_AB)) =
   adjacencyList (buildGraphFromSnapshots (empty_graph) [sA, sB] None)"
proof -
  have sound: "antenna_info_sound [sA, sB] info_AB"
    unfolding antenna_info_sound_def info_AB_def
    by (simp add: sym_adj_def finite_adj_def lessThan_def in_range_def sA_def sB_def
        builder_distance_def sqrt_le_iff_sq; auto simp: ran_def)
  have sym: "range_symmetric [sA, sB]"
    by (simp add: range_symmetric_def in_range_def sA_def sB_def builder_distance_def sqrt_le_iff_sq)
  show ?thesis using sound sym antenna_adjacency_eq_fallback [OF sound sym] by simp
qed

lemma two_cells_adjacency:
  assumes "cb < ca"
  shows "adjacencyList (buildGraphFromSnapshots g [a, b] (Some (two_cells ca cb))) =
           (if in_range b a then add_link (init_adjacency [a, b]) (snap_id b) (snap_id a) else init_adjacency [a, b])"
  using assms by (simp add: buildGraphFromSnapshots_def build_pairs_def antenna_pairs_def two_cells_def
        neighbor_antenna_pairs_def cross_antenna_pairs_def compare_index_with_def valid_index_def compare_pair_def
        computeTransitiveClosure_def Let_def split: prod.splits)

lemma pair_fallback_adjacency:
  "adjacencyList (buildGraphFromSnapshots g [a, b] None) =
     (if in_range a b then add_link (init_adjacency [a, b]) (snap_id a) (snap_id b) else init_adjacency [a, b])"
  by (simp add: buildGraphFromSnapshots_def build_pairs_def compare_pair_def computeTransitiveClosure_def
        Let_def split: prod.splits)

text \<open>
  C8: the per-cell build and the all-pairs build depend on the order of the pair. For any
  two vehicles with distinct identifiers in neighbouring cells, the first in the higher cell,
  the all-pairs pass compares them in snapshot order and the per-cell pass from the lower
  cell, in the other order; the two adjacencies are equal exactly when the range gate gives
  the same answer in both orders. The builder's distance scales the longitude difference by
  the cosine of the first vehicle's latitude, so the gate is not symmetric in general (the
  witness: 60 degrees north against the equator).
\<close>

theorem antenna_build_diverges:
  assumes "cb < ca" "snap_id a \<noteq> snap_id b"
  shows "adjacencyList (buildGraphFromSnapshots g [a, b] (Some (two_cells ca cb))) =
           adjacencyList (buildGraphFromSnapshots g [a, b] None) \<longleftrightarrow> (in_range a b \<longleftrightarrow> in_range b a)"
proof -
  let ?i = "init_adjacency [a, b]"
  have sw: "add_link ?i (snap_id b) (snap_id a) = add_link ?i (snap_id a) (snap_id b)"
    using assms(2) by (auto simp: add_link_def adj_insert_def adj_get_def fun_eq_iff)
  have ne: "add_link ?i (snap_id a) (snap_id b) \<noteq> ?i"
  proof
    assume "add_link ?i (snap_id a) (snap_id b) = ?i"
    then have "adj_get (add_link ?i (snap_id a) (snap_id b)) (snap_id a) = adj_get ?i (snap_id a)" by simp
    then show False using assms(2) by (simp add: add_link_def adj_insert_def init_adjacency_def adj_get_def)
  qed
  show ?thesis using sw ne by (simp add: two_cells_adjacency [OF assms(1)] pair_fallback_adjacency)
qed

text \<open>Witness of the order dependence: vehicle 1 at 60 degrees north sees vehicle 2 at the equator, not conversely.\<close>

theorem antenna_build_diverges_witness:
  "(0::int) < 1 \<and> snap_id sC \<noteq> snap_id sD \<and> antenna_info_sound [sC, sD] (two_cells 1 0) \<and>
   in_range sC sD \<and> \<not> in_range sD sC \<and>
   (adjacencyList (buildGraphFromSnapshots empty_graph [sC, sD] (Some (two_cells 1 0))) =
      adjacencyList (buildGraphFromSnapshots empty_graph [sC, sD] None) \<longleftrightarrow> (in_range sC sD \<longleftrightarrow> in_range sD sC)) \<and>
   adjacencyList (buildGraphFromSnapshots empty_graph [sC, sD] (Some (two_cells 1 0))) \<noteq>
      adjacencyList (buildGraphFromSnapshots empty_graph [sC, sD] None)"
proof -
  have r1: "in_range sC sD"
    by (simp add: in_range_def sC_def sD_def builder_distance_def sqrt_le_iff_sq cos_60)
  have r2: "\<not> in_range sD sC"
    by (simp add: in_range_def sC_def sD_def builder_distance_def sqrt_le_iff_sq)
  have sound: "antenna_info_sound [sC, sD] (two_cells 1 0)"
    unfolding antenna_info_sound_def two_cells_def
    using r1 r2 by (simp add: sym_adj_def finite_adj_def lessThan_def; auto simp: ran_def)
  have ids: "snap_id sC \<noteq> snap_id sD" by (simp add: sC_def sD_def)
  note d = antenna_build_diverges [of 0 1 sC sD empty_graph]
  show ?thesis using d ids sound r1 r2 by simp
qed

text \<open>Witnesses for the claims with hypotheses.\<close>

theorem no_self_loops_witness:
  "distinct (map snap_id chain5) \<and> antenna_info_distinct (Some no_antennas) \<and>
   3 \<notin> getDirectNeighbors (buildGraphFromSnapshots (empty_graph) chain5 (Some no_antennas)) 3 \<and>
   3 \<notin> getReachableVehicles (buildGraphFromSnapshots (empty_graph) chain5 (Some no_antennas)) 3"
proof -
  have d: "distinct (map snap_id chain5)" by (simp add: chain5_def)
  have a: "antenna_info_distinct (Some no_antennas)" by (simp add: antenna_info_distinct_def no_antennas_def)
  show ?thesis using d a build_no_self_loops [OF d a] by simp
qed

theorem adjacency_in_closure_witness:
  "distinct (map snap_id chain5) \<and> antenna_info_distinct (Some no_antennas) \<and>
   computeTransitive ((empty_graph)\<lparr>computeTransitive := True\<rparr>) \<and>
   getDirectNeighbors (buildGraphFromSnapshots ((empty_graph)\<lparr>computeTransitive := True\<rparr>) chain5 (Some no_antennas)) 3 \<subseteq>
   getReachableVehicles (buildGraphFromSnapshots ((empty_graph)\<lparr>computeTransitive := True\<rparr>) chain5 (Some no_antennas)) 3"
proof -
  have d: "distinct (map snap_id chain5)" by (simp add: chain5_def)
  have a: "antenna_info_distinct (Some no_antennas)" by (simp add: antenna_info_distinct_def no_antennas_def)
  have c: "computeTransitive ((empty_graph)\<lparr>computeTransitive := True\<rparr>)" by simp
  show ?thesis using d a c build_adjacency_in_closure [OF d a c, of 3] by simp
qed

theorem bfs_rtrancl_witness:
  "finite_adj [1 \<mapsto> {2}, 2 \<mapsto> {1, 3}, 3 \<mapsto> {2}] \<and>
   bfsReachable [1 \<mapsto> {2}, 2 \<mapsto> {1, 3}, 3 \<mapsto> {2}] 1 =
     (adj_rel [1 \<mapsto> {2}, 2 \<mapsto> {1, 3}, 3 \<mapsto> {2}])\<^sup>* `` {1} - {1}"
proof -
  have f: "finite_adj [1 \<mapsto> {2}, 2 \<mapsto> {1, 3::int}, 3 \<mapsto> {2}]"
    by (simp add: finite_adj_def ran_def; auto)
  show ?thesis using f bfsReachable_rtrancl [OF f, of 1] by simp
qed

theorem comparisons_bound_witness:
  "length [sA, sB] \<le> 10000 \<and>
   lastComparisons (buildGraphFromSnapshots (empty_graph) [sA, sB] None) * 2 < 2 ^ 31"
  using comparisons_bound [of sA "[sB]" "empty_graph"] by simp

text \<open>
  The spec's scenario S4, five vehicles 90 m apart on a meridian with range 100 m: the
  adjacency is the path 1-2-3-4-5 and the closure links every vehicle to all the others.
\<close>

theorem scenario_chain:
  "getDirectNeighbors (chain_graph) 3 = {2, 4} \<and>
   getReachableVehicles (chain_graph) 1 = {2, 3, 4, 5}"
proof -
  have adj: "adjacencyList (chain_graph) =
    [1 \<mapsto> {2}, 2 \<mapsto> {1, 3}, 3 \<mapsto> {2, 4}, 4 \<mapsto> {3, 5}, 5 \<mapsto> {4}]"
    by (simp add: calculateGraphAsync_def buildGraphFromSnapshots_def build_pairs_def no_antennas_def
        chain5_def init_adjacency_def compare_pair_def in_range_def builder_distance_def sqrt_le_iff_sq
        add_link_def adj_insert_def new_InterferenceGraph_def Let_def computeTransitiveClosure_def
        fun_eq_iff insert_commute)
  have bfs: "bfsReachable [1 \<mapsto> {2}, 2 \<mapsto> {1, 3}, 3 \<mapsto> {2, 4}, 4 \<mapsto> {3, 5}, 5 \<mapsto> {4}] 1 = {2, 3, 4, 5}"
    by (simp add: bfsReachable_def bfs_loop_def while_option_unfold bfs_visit_def insert_Diff_if) auto
  have cl: "transitiveClosure (chain_graph) =
            closure_map (adjacencyList (chain_graph))"
    by (simp add: calculateGraphAsync_def build_closure new_InterferenceGraph_def chain5_def)
  show ?thesis using adj bfs cl
    by (simp add: getDirectNeighbors_def getReachableVehicles_def closure_map_def adj_get_def)
qed

text \<open>
  The range gate at its boundary (spec, section 8, items 13 and 14). Two vehicles 50 m
  apart with ranges 100 m and 50 m are linked (the distance equals the smaller range); 75 m
  apart they are not, although the first vehicle's range covers the second.
\<close>

theorem range_gate_boundary:
  "getDirectNeighbors (buildGraphFromSnapshots (empty_graph) (gate_pair 50 100 50) None) 1 = {2} \<and>
   getDirectNeighbors (buildGraphFromSnapshots (empty_graph) (gate_pair 75 100 50) None) 1 = {}"
  by (simp add: gate_pair_def buildGraphFromSnapshots_def build_pairs_def compare_pair_def
      init_adjacency_def in_range_def builder_distance_def getDirectNeighbors_def add_link_def
      adj_insert_def new_InterferenceGraph_def Let_def)

text \<open>
  The spec's scenarios S1 and S3 on three vehicles near Strasbourg (11 m, 67 m and 78 m
  apart). With ranges of 500 m every pair is linked; with ranges 50, 50 and 200 m only the
  first two are, and the third vehicle is isolated although its own range covers the others.
\<close>

theorem scenario_strasbourg:
  "getDirectNeighbors (buildGraphFromSnapshots (empty_graph) (strasbourg3 [500, 500, 500]) None) 1 = {2, 3} \<and>
   getDirectNeighbors (buildGraphFromSnapshots (empty_graph) (strasbourg3 [50, 50, 200]) None) 1 = {2} \<and>
   getDirectNeighbors (buildGraphFromSnapshots (empty_graph) (strasbourg3 [50, 50, 200]) None) 3 = {}"
  by (simp add: strasbourg3_def buildGraphFromSnapshots_def build_pairs_def compare_pair_def
      init_adjacency_def in_range_def builder_distance_def getDirectNeighbors_def add_link_def
      adj_insert_def new_InterferenceGraph_def Let_def sqrt_le_iff_sq insert_commute)

text \<open>
  The road graph of a two-way way through three nodes and a one-way way to an unknown
  node: three vertices, four edges (the unknown node's segment is skipped).
\<close>

lemma osm_ids: "idToVertex (buildGraph (new_GraphBuilder osm_nodes osm_ways)) = [10 \<mapsto> 0, 20 \<mapsto> 1, 30 \<mapsto> 2]"
  by (simp add: buildGraph_def new_GraphBuilder_def osm_nodes_def osm_ways_def add_node_def add_vertex_def
      empty_RoadGraph_def numeral_2_eq_2)

lemma osm_vertex_count: "num_vertices osm_graph = 3"
  by (simp add: osm_graph_def num_vertices_def build_vertices osm_nodes_def)

lemma osm_edge_count: "length (rg_edges (gb_graph (buildGraph (new_GraphBuilder osm_nodes osm_ways)))) = 4"
  by (simp add: buildGraph_def new_GraphBuilder_def osm_nodes_def osm_ways_def add_node_def add_vertex_def
      empty_RoadGraph_def add_way_def way_segments_def add_segment_def add_edge_def Let_def)

theorem road_well_formed_witness:
  "e_source (rg_edges osm_graph ! 3) < num_vertices osm_graph \<and>
   e_target (rg_edges osm_graph ! 3) < num_vertices osm_graph \<and> num_vertices osm_graph = 3"
proof -
  have "builder_wf (buildGraph (new_GraphBuilder osm_nodes osm_ways))"
    by (rule buildGraph_well_formed)
  then have "\<forall>e \<in> set (rg_edges osm_graph). e_source e < num_vertices osm_graph \<and> e_target e < num_vertices osm_graph"
    by (simp add: builder_wf_def rg_wf_def osm_graph_def)
  moreover have "rg_edges osm_graph ! 3 \<in> set (rg_edges osm_graph)"
    using osm_edge_count by (simp add: osm_graph_def)
  ultimately show ?thesis by (simp add: osm_vertex_count)
qed

theorem road_edge_lengths_witness: "edge_length_ok osm_graph (rg_edges osm_graph ! 1)"
proof -
  have "rg_edges osm_graph ! 1 \<in> set (rg_edges osm_graph)"
    using osm_edge_count by (simp add: osm_graph_def)
  then show ?thesis using buildGraph_edge_lengths [of osm_nodes osm_ways] by (simp add: osm_graph_def)
qed

theorem road_two_way_witness:
  "\<not> e_oneway (rg_edges osm_graph ! 2) \<and>
   (rg_edges osm_graph ! 2)\<lparr>e_source := e_target (rg_edges osm_graph ! 2),
                             e_target := e_source (rg_edges osm_graph ! 2)\<rparr> \<in> set (rg_edges osm_graph)"
proof -
  have m: "rg_edges osm_graph ! 2 \<in> set (rg_edges osm_graph)"
    using osm_edge_count by (simp add: osm_graph_def)
  have o: "\<not> e_oneway (rg_edges osm_graph ! 2)"
    by (simp add: osm_graph_def buildGraph_def new_GraphBuilder_def osm_nodes_def osm_ways_def add_node_def
        add_vertex_def empty_RoadGraph_def add_way_def way_segments_def add_segment_def add_edge_def Let_def)
  show ?thesis using buildGraph_two_way [of osm_nodes osm_ways] m o
    by (simp add: two_way_closed_def osm_graph_def)
qed

theorem road_segment_edge_witness:
  "osm_ways ! 0 \<in> set osm_ways \<and> (10, 20) \<in> set (way_segments (osm_ways ! 0)) \<and>
   idToVertex (buildGraph (new_GraphBuilder osm_nodes osm_ways)) 10 = Some 0 \<and>
   idToVertex (buildGraph (new_GraphBuilder osm_nodes osm_ways)) 20 = Some 1 \<and>
   (\<exists>e \<in> set (rg_edges (gb_graph (buildGraph (new_GraphBuilder osm_nodes osm_ways)))).
      e_source e = 0 \<and> e_target e = 1 \<and> e_type e = ''primary'' \<and> e_oneway e = False)"
proof -
  have a: "osm_ways ! 0 \<in> set osm_ways" by (simp add: osm_ways_def)
  have b: "(10, 20) \<in> set (way_segments (osm_ways ! 0))" by (simp add: osm_ways_def way_segments_def)
  have c: "idToVertex (buildGraph (new_GraphBuilder osm_nodes osm_ways)) 10 = Some 0" by (simp add: osm_ids)
  have d: "idToVertex (buildGraph (new_GraphBuilder osm_nodes osm_ways)) 20 = Some 1" by (simp add: osm_ids)
  show ?thesis using a b c d buildGraph_segment_edge [OF a b c d] by (simp add: osm_ways_def)
qed

text \<open>
  A vehicle created at vertex 0 with goal 1 on a single 100 m primary road, updated for
  10 s at 14 m/s: it picks the road, moves 140 m, reaches its goal inside the carry loop
  and swaps start and goal.
\<close>

lemma line_run:
  "update line_graph 10 line_vehicle rs =
     Some (line_vehicle\<lparr>recentVertices := [0], currEdge := rg_edges line_graph ! 0,
       previousVertex := 0, nextVertex := 1, positionOnEdge := 140, currVertex := 1, start := 1, goal := 0,
       edgeLength := 0\<rparr>, stl rs)"
  apply (simp add: update_def line_graph_def line_vehicle_def new_Vehicule_def pickNextEdge_def buckets_def
      out_edges_def bucket_step_def isValidRoad_def valid_road_types_def apply_edge_def push_recent_def
      MAX_HISTORY_def Let_def)
  apply (subst carry.simps)
  apply (simp add: update_heading_def getPosition_def vertex_pos_def vertex_data_def clamp01_def atan2_def
      DestReached_def Let_def)
  done

text \<open>
  When a vehicle reaches its goal, \<open>DestReached\<close> sets the edge length to 0 but leaves
  \<open>positionOnEdge\<close> at the distance travelled: after the update above the vehicle stands
  at its goal with \<open>positionOnEdge = 140 > edgeLength = 0\<close>, against the invariant
  \<open>0 \<le> position_on_edge \<le> edge_length\<close> of the specification (section 3 and section 8,
  item 1).
\<close>

theorem goal_keeps_overshoot:
  "\<exists>v' rs'. update line_graph 10 line_vehicle (sconst 0) = Some (v', rs') \<and>
     currVertex v' = 1 \<and> edgeLength v' = 0 \<and> positionOnEdge v' = 140"
  using line_run [of "sconst 0"] by simp

theorem update_invariants_witness:
  "heading_ok line_vehicle \<and> history_ok line_vehicle \<and> 0 \<le> headingSmoothingFactor line_vehicle \<and>
   headingSmoothingFactor line_vehicle \<le> 1 \<and>
   heading_ok (fst (the (update line_graph 10 line_vehicle (sconst 0)))) \<and>
   history_ok (fst (the (update line_graph 10 line_vehicle (sconst 0))))"
proof -
  have h: "heading_ok line_vehicle" "history_ok line_vehicle" "0 \<le> headingSmoothingFactor line_vehicle"
    "headingSmoothingFactor line_vehicle \<le> 1"
    by (simp_all add: line_vehicle_def new_Vehicule_def heading_ok_def history_ok_def)
  obtain r where run: "update line_graph 10 line_vehicle (sconst 0) = Some r"
    using line_run [of "sconst 0"] by blast
  show ?thesis using h update_invariants [OF h run] run by simp
qed

lemma ring_road_ok: "road_ok ring_graph 100"
  by (simp add: road_ok_def ring_graph_def line_graph_def rg_wf_def num_vertices_def hasValidOutgoingEdge_def
      out_edges_def isValidRoad_def valid_road_types_def)

theorem update_terminates_witness:
  "road_ok ring_graph 100 \<and> vehicle_wf ring_graph line_vehicle \<and>
   (\<exists>r. update ring_graph 10 line_vehicle (sconst 0) = Some r \<and> vehicle_wf ring_graph (fst r))"
proof -
  have w: "vehicle_wf ring_graph line_vehicle"
    by (simp add: vehicle_wf_def line_vehicle_def new_Vehicule_def ring_graph_def line_graph_def num_vertices_def)
  show ?thesis using ring_road_ok w update_terminates [OF ring_road_ok w] by simp
qed

theorem update_hangs_witness:
  "no_valid_edges foot_graph \<and> currVertex line_vehicle \<noteq> goal line_vehicle \<and> edgeLength line_vehicle \<le> 0 \<and>
   start line_vehicle \<noteq> goal line_vehicle \<and> 0 \<le> positionOnEdge line_vehicle + speed line_vehicle * (1 / 20) \<and>
   update foot_graph (1 / 20) line_vehicle (sconst 0) = None"
proof -
  have n: "no_valid_edges foot_graph"
    by (simp add: no_valid_edges_def foot_graph_def isValidRoad_def valid_road_types_def)
  have v: "currVertex line_vehicle \<noteq> goal line_vehicle" "edgeLength line_vehicle \<le> 0"
    "start line_vehicle \<noteq> goal line_vehicle" "0 \<le> positionOnEdge line_vehicle + speed line_vehicle * (1 / 20)"
    by (simp_all add: line_vehicle_def new_Vehicule_def)
  show ?thesis using n v update_hangs [OF n v] by simp
qed

lemma ring_valid: "isValidVertex 0 ring_graph" "isValidVertex 1 ring_graph"
  by (simp_all add: isValidVertex_def ring_graph_def line_graph_def out_edges_def isValidRoad_def valid_road_types_def)

lemma retry_ring: "x < 2 \<Longrightarrow> retry_vertex ring_graph [0, Suc 0] x rs = Some (x, rs)"
  using ring_valid by (subst retry_vertex.simps) (auto simp: less_2_cases_iff)

text \<open>
  The driver asked for two vehicles on the two-way road: both are placed, with
  identifiers 0 and 1, and the next identifier is 2.
\<close>

lemma two_car_run:
  "setVehicleCount 2 no_junk (new_Simulator ring_graph (sconst 0)) = Some two_car_sim \<and>
   map veh_id (m_vehicles two_car_sim) = [0, 1] \<and> m_nextVehicleId two_car_sim = 2 \<and>
   map (\<lambda>c. (edgeLength c, currVertex c)) (m_vehicles two_car_sim) = [(0, 0), (0, 0)] \<and>
   sim_graph two_car_sim = ring_graph"
proof -
  have nv: "[0..<num_vertices ring_graph] = [0, 1]"
    by (simp add: num_vertices_def ring_graph_def line_graph_def upt_rec)
  have "\<exists>s. setVehicleCount 2 no_junk (new_Simulator ring_graph (sconst 0)) = Some s \<and>
            map veh_id (m_vehicles s) = [0, 1] \<and> m_nextVehicleId s = 2 \<and>
            map (\<lambda>c. (edgeLength c, currVertex c)) (m_vehicles s) = [(0, 0), (0, 0)] \<and>
            sim_graph s = ring_graph"
    by (simp add: new_Vehicule_def setVehicleCount_def new_Simulator_def numeral_2_eq_2 add_one_vehicle_def nv Let_def retry_ring
        addVehicle_def assignVehicleToAntenna_ig_def new_graph_state_def new_InterferenceGraph_def no_junk_def)
  then show ?thesis by (auto simp: two_car_sim_def)
qed

lemma two_car_reachable: "reachable ring_graph (sconst 0) two_car_sim"
  unfolding reachable_def using two_car_run sim_step.count by blast

theorem reachable_published_witness:
  "reachable ring_graph (sconst 0) two_car_sim \<and> sym_adj (adjacencyList (m_interferenceGraph two_car_sim)) \<and>
   (\<forall>i. i \<notin> getDirectNeighbors (m_interferenceGraph two_car_sim) i)"
  using two_car_reachable reachable_published [OF two_car_reachable] by blast

theorem reachable_ids_witness:
  "reachable ring_graph (sconst 0) two_car_sim \<and> distinct (map veh_id (m_vehicles two_car_sim)) \<and>
   veh_id (m_vehicles two_car_sim ! 1) < m_nextVehicleId two_car_sim"
proof -
  have m: "map veh_id (m_vehicles two_car_sim) = [0, 1]" and n: "m_nextVehicleId two_car_sim = 2"
    using two_car_run by simp_all
  have l: "length (m_vehicles two_car_sim) = 2" using arg_cong [OF m, of length] by simp
  have "veh_id (m_vehicles two_car_sim ! 1) = 1" using nth_map [of 1 "m_vehicles two_car_sim" veh_id] l m by simp
  then show ?thesis using two_car_reachable reachable_ids [OF two_car_reachable] n by simp
qed

text \<open>
  Twenty vehicles at the same point with 500 m ranges, built by the legacy
  \<open>buildGraph\<close> before the grid is initialised: none of them is linked.
\<close>

theorem uninitialised_grid_witness:
  "useSpatialGrid new_graph_state \<and> \<not> gridInitialized new_graph_state \<and>
   vehicleToMicroAntenna (spatialGrid new_graph_state) = Map.empty \<and> 20 \<le> length twenty_cars \<and>
   getDirectNeighbors (fst (buildGraph_ig line_graph twenty_cars new_graph_state)) 1 = {}"
proof -
  have g: "useSpatialGrid new_graph_state" "\<not> gridInitialized new_graph_state"
    "vehicleToMicroAntenna (spatialGrid new_graph_state) = Map.empty"
    by (simp_all add: new_graph_state_def new_InterferenceGraph_def new_SpatialGrid_def)
  have l: "20 \<le> length twenty_cars" by (simp add: twenty_cars_def)
  show ?thesis using g l buildGraph_ig_uninitialised_grid [OF g l] by simp
qed

text \<open>
  Witnesses of the map view's claims: a view of 800 x 600 pixels with the defaults of
  \<open>map_view.h\<close>, a full-quality copy of it, a copy panned 100 pixels to the left of the
  tile grid, a view following vehicle 0, and the two-car simulator above.
\<close>

theorem mercator_roundtrip_witness:
  "(- 90 < (48::real) \<and> (48::real) < 90) \<and>
   pixelToLonlat (fst (lonlatToPixel 7 48 13)) (snd (lonlatToPixel 7 48 13)) 13 = (7, 48) \<and>
   lonlatToPixel (fst (pixelToLonlat 0 0 13)) (snd (pixelToLonlat 0 0 13)) 13 = (0, 0)"
  using mercator_roundtrip [of 48 7 13 0 0] by simp

theorem setCenterLonLat_center_witness:
  "- 90 < (48.58::real) \<and> (48.58::real) < 90 \<and> even (mv_width (new_MapView 800 600)) \<and> even (mv_height (new_MapView 800 600)) \<and>
   screenToLonLat (setCenterLonLat 7.75 48.58 13 (new_MapView 800 600))
                  (screen_center (setCenterLonLat 7.75 48.58 13 (new_MapView 800 600))) = (7.75, 48.58)"
proof -
  have "even (mv_width (new_MapView 800 600))" "even (mv_height (new_MapView 800 600))" by (simp_all add: new_MapView_def)
  then show ?thesis using setCenterLonLat_center [of "48.58" "new_MapView 800 600" "7.75" 13] by simp
qed

theorem drawTiles_covers_witness:
  "\<not> m_lowQualityMode hq_view \<and> 0 \<le> m_offsetX hq_view \<and> 0 \<le> m_offsetY hq_view \<and>
   (0::real) \<le> 10 \<and> (10::real) < real_of_int (mv_width hq_view) \<and> (0::real) \<le> 10 \<and> (10::real) < real_of_int (mv_height hq_view) \<and>
   m_offsetY hq_view + 10 < 256 * 2 ^ nat (m_zoom hq_view) \<and>
   (\<exists>t\<in>set (snd (drawTiles env0 hq_view)). dt_left t \<le> 10 \<and> 10 < dt_left t + dt_size t \<and> dt_top t \<le> 10 \<and> 10 < dt_top t + dt_size t)"
proof -
  have h: "\<not> m_lowQualityMode hq_view" "0 \<le> m_offsetX hq_view" "0 \<le> m_offsetY hq_view"
    "(10::real) < real_of_int (mv_width hq_view)" "(10::real) < real_of_int (mv_height hq_view)"
    "m_offsetY hq_view + 10 < 256 * 2 ^ nat (m_zoom hq_view)"
    by (simp_all add: hq_view_def qualityToggled_def new_MapView_def)
  show ?thesis using h drawTiles_covers [OF h(1-3) _ h(4) _ h(5) h(6), of env0] by simp
qed

lemma gap_view_fields:
  "\<not> m_lowQualityMode gap_view" "m_offsetX gap_view = -100" "m_offsetY gap_view = 0" "m_zoom gap_view = 13"
  "mv_width gap_view = 800" "mv_height gap_view = 600"
  by (simp_all add: gap_view_def hq_view_def qualityToggled_def setTilesTemplate_def new_MapView_def)

theorem drawTiles_left_gap_witness:
  "\<exists>t. \<not> m_lowQualityMode gap_view \<and> - 256 < m_offsetX gap_view \<and> m_offsetX gap_view < 0 \<and>
       t \<in> set (snd (drawTiles env0 gap_view)) \<and> (50::real) < - m_offsetX gap_view \<and> 50 < dt_left t"
proof -
  have sx: "tile_span (to_int (m_offsetX gap_view)) (mv_width gap_view) 1 = (0, 2)"
   and sy: "tile_span (to_int (m_offsetY gap_view)) (mv_height gap_view) 1 = (0, 2)"
    by (simp_all add: gap_view_fields tile_span_def to_int_def)
  have c: "(0, 0) \<in> set (concat (map (\<lambda>dy. map (\<lambda>dx. (dx, dy)) [0..2]) [0..2]))" by (simp only: cells_mem) simp
  have g: "\<not> (snd ((0::int), (0::int)) + snd ((0::int), (0::int)) < 0 \<or> 2 ^ nat (m_zoom gap_view) \<le> snd ((0::int), (0::int)) + snd ((0::int), (0::int)))"
    by (simp add: gap_view_fields)
  obtain t where t: "t \<in> set (snd (drawTiles env0 gap_view))"
    using drawn_tile_present [OF c g, of env0 "m_zoom gap_view" 1 gap_view]
    unfolding drawTiles_full_quality [OF gap_view_fields(1)] sx sy fst_conv snd_conv by blast
  have "50 < dt_left t"
    using drawTiles_left_gap [OF gap_view_fields(1) _ _ t, of 50] by (simp add: gap_view_fields)
  then show ?thesis using t by (intro exI [of _ t]) (simp add: gap_view_fields)
qed

lemma url0: "buildUrl (new_MapView 800 600) 13 0 0 = ''https://basemaps.cartocdn.com/dark_all/13/0/0.png''"
  by code_simp

lemma new_MapView_fields [simp]:
  "m_tilesTemplate (new_MapView w h) = ''https://basemaps.cartocdn.com/dark_all/{z}/{x}/{y}.png''"
  "m_darkTheme (new_MapView w h)" "m_darkCache (new_MapView w h) = []" "m_lightCache (new_MapView w h) = []"
  "m_inflight (new_MapView w h) = {}" "m_minRequestIntervalMs (new_MapView w h) = 100"
  "m_lastRequestMs (new_MapView w h) = 0" "m_drawDirectConnections (new_MapView w h)"
  "mv_width (new_MapView w h) = w" "mv_height (new_MapView w h) = h"
  by (simp_all add: new_MapView_def)

theorem requestTile_rate_limited_witness:
  "m_inflight (requestTile env0 13 0 0 (new_MapView 800 600)) \<noteq> m_inflight (new_MapView 800 600) \<and>
   m_minRequestIntervalMs (new_MapView 800 600) \<le> env_now env0 - m_lastRequestMs (new_MapView 800 600) \<and>
   m_lastRequestMs (requestTile env0 13 0 0 (new_MapView 800 600)) = env_now env0"
proof -
  have i: "m_inflight (requestTile env0 13 0 0 (new_MapView 800 600)) \<noteq> m_inflight (new_MapView 800 600)"
    by (simp add: requestTile_def url0 Let_def cache_object_def getActiveCache_def setActiveCache_def env0_def)
  show ?thesis using i requestTile_rate_limited [OF i] by simp
qed

theorem tile_reply_wrong_cache_witness:
  "m_darkTheme (new_MapView 800 600) \<and> m_tilesTemplate (new_MapView 800 600) \<noteq> [] \<and>
   take 7 (buildUrl (new_MapView 800 600) 13 0 0) \<noteq> ''file://'' \<and>
   buildUrl (new_MapView 800 600) 13 0 0 \<notin> set (m_darkCache (new_MapView 800 600)) \<and>
   \<lparr>tk_z = 13, tk_x = 0, tk_y = 0\<rparr> \<notin> m_inflight (new_MapView 800 600) \<and>
   m_minRequestIntervalMs (new_MapView 800 600) \<le> env_now env0 - m_lastRequestMs (new_MapView 800 600) \<and>
   \<lparr>tk_z = 13, tk_x = 0, tk_y = 0\<rparr> \<in> m_inflight (requestTile env0 13 0 0 (new_MapView 800 600)) \<and>
   (let v' = tileReplyFinished \<lparr>tk_z = 13, tk_x = 0, tk_y = 0\<rparr> (buildUrl (new_MapView 800 600) 13 0 0) True
               (themeToggled False (requestTile env0 13 0 0 (new_MapView 800 600)))
    in buildUrl (new_MapView 800 600) 13 0 0 \<in> set (m_lightCache v') \<and> buildUrl (new_MapView 800 600) 13 0 0 \<notin> set (m_darkCache v'))"
proof -
  have h: "m_darkTheme (new_MapView 800 600)" "m_tilesTemplate (new_MapView 800 600) \<noteq> []"
    "take 7 (buildUrl (new_MapView 800 600) 13 0 0) \<noteq> ''file://''"
    "buildUrl (new_MapView 800 600) 13 0 0 \<notin> set (m_darkCache (new_MapView 800 600))"
    "\<lparr>tk_z = 13, tk_x = 0, tk_y = 0\<rparr> \<notin> m_inflight (new_MapView 800 600)"
    "m_minRequestIntervalMs (new_MapView 800 600) \<le> env_now env0 - m_lastRequestMs (new_MapView 800 600)"
    by (simp_all add: url0 env0_def)
  show ?thesis using h tile_reply_wrong_cache [OF h] by blast
qed

lemma visible_le: "length (visible_vehicles s v) \<le> length (m_vehicles s)"
  unfolding visible_vehicles_def prod.case_eq_if by (rule length_filter_le)

lemma two_car_finite: "finite_adj (adjacencyList (m_interferenceGraph two_car_sim))"
  using reachable_inv [OF two_car_reachable] unfolding sim_inv_def published_ok_def by blast

lemma two_car_length: "length (m_vehicles two_car_sim) = 2"
proof -
  have e: "map veh_id (m_vehicles two_car_sim) = [0, 1]" using two_car_run by (rule conjunct1 [OF conjunct2])
  have "length (map veh_id (m_vehicles two_car_sim)) = 2" unfolding e by simp
  then show ?thesis by (simp only: length_map)
qed

theorem paint_direct_lines_witness:
  "finite_adj (adjacencyList (m_interferenceGraph two_car_sim)) \<and> m_drawDirectConnections (new_MapView 800 600) \<and>
   length (visible_vehicles two_car_sim (fst (paintEvent env0 (new_MapView 800 600, two_car_sim)))) < 500 \<and>
   distinct (map veh_id (m_vehicles two_car_sim)) \<and>
   distinct (fr_direct (snd (paintEvent env0 (new_MapView 800 600, two_car_sim)))) \<and>
   set (fr_direct (snd (paintEvent env0 (new_MapView 800 600, two_car_sim)))) =
     {(i, j). i \<in> veh_id ` set (visible_vehicles two_car_sim (fst (paintEvent env0 (new_MapView 800 600, two_car_sim)))) \<and>
              i < j \<and> j \<in> getDirectNeighbors (m_interferenceGraph two_car_sim) i \<and> j \<in> veh_id ` set (m_vehicles two_car_sim)}"
proof -
  have l: "length (visible_vehicles two_car_sim (fst (paintEvent env0 (new_MapView 800 600, two_car_sim)))) < 500"
    by (rule le_less_trans [OF visible_le]) (simp add: two_car_length)
  have d: "m_drawDirectConnections (new_MapView 800 600)" by simp
  have u: "distinct (map veh_id (m_vehicles two_car_sim))" using two_car_run by simp
  show ?thesis using two_car_finite d l u paint_direct_lines [OF two_car_finite d l u] by blast
qed

lemma two_car_positions: "list_all (\<lambda>c. fst (getPosition (sim_graph two_car_sim) c) = 0) (m_vehicles two_car_sim)"
proof -
  have e: "map (\<lambda>c. (edgeLength c, currVertex c)) (m_vehicles two_car_sim) = [(0, 0), (0, 0)]"
    and g: "sim_graph two_car_sim = ring_graph" using two_car_run by blast+
  have "edgeLength c = 0 \<and> currVertex c = 0" if "c \<in> set (m_vehicles two_car_sim)" for c
  proof -
    have "(edgeLength c, currVertex c) \<in> set (map (\<lambda>c. (edgeLength c, currVertex c)) (m_vehicles two_car_sim))"
      unfolding set_map using that by (rule imageI)
    then show ?thesis unfolding e by auto
  qed
  then show ?thesis
    by (simp add: list_all_iff g getPosition_def vertex_pos_def vertex_data_def ring_graph_def line_graph_def)
qed

lemma follow_view_tracked: "check_tracked two_car_sim follow_view = follow_view"
proof -
  have e: "map veh_id (m_vehicles two_car_sim) = [0, 1]" using two_car_run by blast
  show ?thesis by (simp add: check_tracked_def follow_view_def e)
qed

theorem paint_follows_vehicle_witness:
  "m_followingVehicle (fst (paintEvent env0 (follow_view, two_car_sim))) \<and>
   m_trackedVehicle (fst (paintEvent env0 (follow_view, two_car_sim))) = Some 0 \<and>
   0 \<le> mv_width follow_view \<and> 0 \<le> mv_height follow_view \<and>
   list_all (\<lambda>c. - 90 < fst (getPosition (sim_graph two_car_sim) c) \<and> fst (getPosition (sim_graph two_car_sim) c) < 90)
     (m_vehicles two_car_sim) \<and>
   (0, (real_of_int (mv_width follow_view) / 2, real_of_int (mv_height follow_view) / 2))
     \<in> set (fr_vehicles (snd (paintEvent env0 (follow_view, two_car_sim))))"
proof -
  have f: "m_followingVehicle (fst (paintEvent env0 (follow_view, two_car_sim)))"
    and t: "m_trackedVehicle (fst (paintEvent env0 (follow_view, two_car_sim))) = Some 0"
    using paintEvent_tracking [of env0 follow_view two_car_sim] unfolding follow_view_tracked
    by (simp_all add: follow_view_def)
  have w: "0 \<le> mv_width follow_view" "0 \<le> mv_height follow_view" by (simp_all add: follow_view_def)
  have p: "list_all (\<lambda>c. - 90 < fst (getPosition (sim_graph two_car_sim) c) \<and> fst (getPosition (sim_graph two_car_sim) c) < 90)
     (m_vehicles two_car_sim)"
    using two_car_positions by (simp add: list_all_iff)
  have "\<forall>c\<in>set (m_vehicles two_car_sim). - 90 < fst (getPosition (sim_graph two_car_sim) c) \<and> fst (getPosition (sim_graph two_car_sim) c) < 90"
    using p by (simp only: list_all_iff)
  from paint_follows_vehicle [OF f t w this] f t w p show ?thesis by blast
qed

theorem app_reachable_inv_witness:
  "app_reachable 800 600 ring_graph (sconst 0) (zoomIn (new_MapView 800 600), two_car_sim) \<and>
   view_inv (zoomIn (new_MapView 800 600)) \<and> reachable ring_graph (sconst 0) two_car_sim"
proof -
  have d: "app_step (new_MapView 800 600, new_Simulator ring_graph (sconst 0)) (new_MapView 800 600, two_car_sim)"
    using two_car_run by (blast intro: app_step.driver sim_step.count)
  have z: "app_step (new_MapView 800 600, two_car_sim) (zoomIn (new_MapView 800 600), two_car_sim)"
    by (rule app_step.zoom_in)
  have r: "app_reachable 800 600 ring_graph (sconst 0) (zoomIn (new_MapView 800 600), two_car_sim)"
    unfolding app_reachable_def using d z by (blast intro: rtranclp.rtrancl_into_rtrancl)
  show ?thesis using r app_reachable_inv [OF r] by simp
qed

theorem drawTiles_tiles_ok_witness:
  "0 \<le> m_zoom hq_view \<and> m_zoom hq_view \<le> 20 \<and>
   list_all (\<lambda>t. tile_key_ok \<lparr>tk_z = dt_z t, tk_x = dt_x t, tk_y = dt_y t\<rparr>) (snd (drawTiles env0 hq_view))"
proof -
  have z: "0 \<le> m_zoom hq_view" "m_zoom hq_view \<le> 20" by (simp_all add: hq_view_def qualityToggled_def new_MapView_def)
  show ?thesis using z drawTiles_tiles_ok [OF z, of env0] by blast
qed

lemma number_0_1: "number 0 = ''0''" "number 1 = ''1''"
  by code_simp+

text \<open>Witness of the vehicle label: the count 0 after the last deletion, on the panel as it starts.\<close>

theorem panel_vehicle_label_mismatch_witness:
  "sl_min (sr_slider (pp_vehicle new_ParametersPanel)) \<le> sl_max (sr_slider (pp_vehicle new_ParametersPanel)) \<and>
   0 < sl_min (sr_slider (pp_vehicle new_ParametersPanel)) \<and>
   getVehicleCount_panel (panel_setVehicleCount 0 new_ParametersPanel) = sl_min (sr_slider (pp_vehicle new_ParametersPanel)) \<and>
   sr_label (pp_vehicle (panel_setVehicleCount 0 new_ParametersPanel)) \<noteq>
     number (getVehicleCount_panel (panel_setVehicleCount 0 new_ParametersPanel)) \<and>
   getVehicleCount_panel (panel_setVehicleCount 0 new_ParametersPanel) = 1 \<and>
   sr_label (pp_vehicle (panel_setVehicleCount 0 new_ParametersPanel)) = ''0''"
proof -
  have b: "sl_min (sr_slider (pp_vehicle new_ParametersPanel)) = 1" "sl_max (sr_slider (pp_vehicle new_ParametersPanel)) = 10000"
    by (simp_all add: new_ParametersPanel_def createSliderRow_def slider_setValue_def)
  have l: "sr_label (pp_vehicle (panel_setVehicleCount 0 new_ParametersPanel)) = ''0''"
    by (simp add: panel_setVehicleCount_def number_0_1)
  show ?thesis using panel_vehicle_label_mismatch [of new_ParametersPanel 0] b l by (simp add: number_0_1)
qed

lemma linked_sim_ids: "map veh_id (m_vehicles linked_sim) = [0, 1]"
  using two_car_run by (simp add: linked_sim_def)

lemma linked_sim_adj: "getDirectNeighbors (m_interferenceGraph linked_sim) = (\<lambda>i. if i = 1 then {0} else if i = 0 then {1} else {})"
  by (rule ext) (simp add: linked_sim_def getDirectNeighbors_def)

lemma ui0_has_simulator: "ov_hasSimulator (ui_overlay ui0)"
  by (simp add: ui0_def ui_init_def mv_setSimulator_def ov_mapTopBar_def)

text \<open>Witness of the link count: two vehicles linked to each other count one connection.\<close>

theorem updateStats_links_witness:
  "ov_hasSimulator (ui_overlay ui0) \<and> distinct (map veh_id (m_vehicles linked_sim)) \<and>
   sym_adj (adjacencyList (m_interferenceGraph linked_sim)) \<and>
   (\<forall>i. i \<notin> getDirectNeighbors (m_interferenceGraph linked_sim) i) \<and>
   list_all (\<lambda>c. getDirectNeighbors (m_interferenceGraph linked_sim) (veh_id c) \<subseteq> veh_id ` set (m_vehicles linked_sim))
     (m_vehicles linked_sim) \<and>
   st_totalConnections (bm_stats (ov_menu (updateStats 1 linked_sim (ui_overlay ui0)))) =
     number (int (card {(i, j). i \<in> veh_id ` set (m_vehicles linked_sim) \<and>
                                j \<in> getDirectNeighbors (m_interferenceGraph linked_sim) i \<and> i < j})) \<and>
   st_totalConnections (bm_stats (ov_menu (updateStats 1 linked_sim (ui_overlay ui0)))) = ''1''"
proof -
  have ids: "veh_id ` set (m_vehicles linked_sim) = {0, 1}"
    using arg_cong [OF linked_sim_ids, of set] by simp
  have sym: "sym_adj (adjacencyList (m_interferenceGraph linked_sim))"
    by (auto simp: sym_adj_def linked_sim_def)
  have d: "distinct (map veh_id (m_vehicles linked_sim))" by (simp add: linked_sim_ids)
  have n: "\<forall>i. i \<notin> getDirectNeighbors (m_interferenceGraph linked_sim) i" by (simp add: linked_sim_adj)
  have sub: "\<forall>c\<in>set (m_vehicles linked_sim). getDirectNeighbors (m_interferenceGraph linked_sim) (veh_id c) \<subseteq> veh_id ` set (m_vehicles linked_sim)"
    using ids by (auto simp: linked_sim_adj)
  have c: "{(i, j). i \<in> veh_id ` set (m_vehicles linked_sim) \<and> j \<in> getDirectNeighbors (m_interferenceGraph linked_sim) i \<and> i < j} = {(0, 1)}"
    unfolding ids linked_sim_adj by auto
  have one: "number (int (card {(0::int, 1::int)})) = ''1''" by (simp add: number_0_1)
  show ?thesis using updateStats_links [OF ui0_has_simulator d sym n sub, of 1] ui0_has_simulator d sym n sub c one
    by (simp add: list_all_iff)
qed

lemma menu_ov_running: "bm_animRunning (ov_menu menu_ov)"
  by (simp add: menu_ov_def menuButtonClicked_def toggle_menu_def updateToggleButtonIcon_def Let_def split: option.splits)

text \<open>Witness of the menu animation: the first click on the menu of a new overlay, halfway through the slide.\<close>

theorem menuAnimationFrame_between_witness:
  "0 \<le> (1 / 2 :: real) \<and> (1 / 2 :: real) \<le> 1 \<and> bm_animRunning (ov_menu menu_ov) \<and>
   min (fst (snd (bm_animStart (ov_menu menu_ov)))) (fst (snd (bm_animEnd (ov_menu menu_ov)))) \<le> bm_top (ov_menu (menuAnimationFrame (1 / 2) menu_ov)) \<and>
   bm_top (ov_menu (menuAnimationFrame (1 / 2) menu_ov)) \<le> max (fst (snd (bm_animStart (ov_menu menu_ov)))) (fst (snd (bm_animEnd (ov_menu menu_ov)))) \<and>
   snd (ov_menuButtonPos (menuAnimationFrame (1 / 2) menu_ov)) = min (bm_top (ov_menu (menuAnimationFrame (1 / 2) menu_ov)) - 60) (ov_height menu_ov - 68)"
  using menuAnimationFrame_between [of "1 / 2" menu_ov] menu_ov_running by simp

lemma new_UIOverlay_stopped: "\<not> bm_animRunning (ov_menu (new_UIOverlay res0))"
  by (simp add: new_UIOverlay_def updateToggleButtonIcon_def new_BottomMenu_def split: option.splits)


text \<open>Witness of the scale bar's position: a new overlay over a view of its height.\<close>

theorem hud_above_menu_witness:
  "\<not> bm_animRunning (ov_menu (new_UIOverlay res0)) \<and> ov_height (new_UIOverlay res0) = mv_height (new_MapView 100 30) \<and>
   list_all (\<lambda>(p, q). snd p < bm_top (ov_menu (repositionElements (new_UIOverlay res0))) \<and>
                     snd q < bm_top (ov_menu (repositionElements (new_UIOverlay res0))))
     (hud_lines (drawHUD (new_MapView 100 30) (repositionElements (new_UIOverlay res0)))) \<and>
   snd (hud_labelPos (drawHUD (new_MapView 100 30) (repositionElements (new_UIOverlay res0)))) <
     bm_top (ov_menu (repositionElements (new_UIOverlay res0)))"
proof -
  have h: "ov_height (new_UIOverlay res0) = mv_height (new_MapView 100 30)"
    by (simp add: new_UIOverlay_def updateToggleButtonIcon_def new_MapView_def split: option.splits)
  show ?thesis using new_UIOverlay_stopped h Hud.hud_above_menu [OF new_UIOverlay_stopped h] by blast
qed

text \<open>Witness of the double click: the menu of a new overlay.\<close>

theorem menu_toggle_twice_witness:
  "\<not> bm_animRunning (ov_menu (new_UIOverlay res0)) \<and>
   bm_expanded (ov_menu (menuAnimationFinished (menuButtonClicked res0 (menuButtonClicked res0 (new_UIOverlay res0))))) =
     bm_expanded (ov_menu (new_UIOverlay res0)) \<and>
   \<not> bm_animRunning (ov_menu (menuAnimationFinished (menuButtonClicked res0 (menuButtonClicked res0 (new_UIOverlay res0))))) \<and>
   bm_geometry (ov_menu (menuAnimationFinished (menuButtonClicked res0 (menuButtonClicked res0 (new_UIOverlay res0))))) =
     bm_geometry (ov_menu (repositionElements (new_UIOverlay res0))) \<and>
   ov_menuButtonPos (menuAnimationFinished (menuButtonClicked res0 (menuButtonClicked res0 (new_UIOverlay res0)))) =
     ov_menuButtonPos (repositionElements (new_UIOverlay res0))"
  using menu_toggle_twice [OF new_UIOverlay_stopped, of res0] new_UIOverlay_stopped by simp

text \<open>Witness of the stale icon: a renderer that has loaded \<open>car.svg\<close> is pointed to a file that does not exist.\<close>

theorem setSvgPath_keeps_old_icon_witness:
  "vr_svgRenderer icon_state = Some ''car.svg'' \<and> ''new.svg'' \<noteq> [] \<and>
   list_all (\<lambda>p. \<not> se_exists svg0 p) (svg_candidates svg0 ''new.svg'') \<and>
   (\<exists>pos h r n img. snd (drawVehicle svg0 (10, 20) 90 (255, 0, 0, 255) 16 (setSvgPath ''new.svg'' icon_state)) = SvgIcon pos h r n img \<and>
                    img = colorize (255, 0, 0, 255) (se_render svg0 ''car.svg'' n)) \<and>
   vr_initialized (fst (drawVehicle svg0 (10, 20) 90 (255, 0, 0, 255) 16 (setSvgPath ''new.svg'' icon_state))) \<and>
   vr_svgRenderer (fst (drawVehicle svg0 (10, 20) 90 (255, 0, 0, 255) 16 (setSvgPath ''new.svg'' icon_state))) = Some ''car.svg''"
proof -
  have r: "vr_svgRenderer icon_state = Some ''car.svg''" by (simp add: icon_state_def)
  have c: "\<forall>p\<in>set (svg_candidates svg0 ''new.svg''). \<not> se_exists svg0 p" by (simp add: svg_candidates_def svg0_def)
  show ?thesis using setSvgPath_keeps_old_icon [OF r _ c] r c by (simp add: list_all_iff)
qed

lemma ui_started_reachable: "ui_reachable res0 800 600 ring_graph (sconst 0) ui_started"
  unfolding ui_reachable_def ui_started_def ui0_def by (rule r_into_rtranclp, rule ui_step.ext_start)

lemma ui_paused_reachable: "ui_reachable res0 800 600 ring_graph (sconst 0) ui_paused"
  unfolding ui_reachable_def ui_paused_def ui0_def by (rule r_into_rtranclp, rule ui_step.start_pause)

text \<open>Witness of the refinement: the application after \<open>start()\<close>.\<close>

theorem ui_reachable_app_witness:
  "ui_reachable res0 800 600 ring_graph (sconst 0) ui_started \<and>
   app_reachable 800 600 ring_graph (sconst 0) (ui_view ui_started, ui_sim ui_started)"
  using ui_started_reachable ui_reachable_app [OF ui_started_reachable] by blast

text \<open>Witness of the synchronisation: the application after one click on the start/pause button before \<open>start()\<close>.\<close>

theorem ui_reachable_sync_witness:
  "ui_reachable res0 800 600 ring_graph (sconst 0) ui_paused \<and> (0::int) \<le> 800 \<and> (0::int) \<le> 600 \<and>
   tb_darkTheme (ov_topBar (ui_overlay ui_paused)) = m_darkTheme (ui_view ui_paused) \<and>
   tb_highQuality (ov_topBar (ui_overlay ui_paused)) = (\<not> m_lowQualityMode (ui_view ui_paused)) \<and>
   ov_deleteVisible (ui_overlay ui_paused) = m_followingVehicle (ui_view ui_paused) \<and>
   Overlay.panel_ok (bm_params (ov_menu (ui_overlay ui_paused))) \<and>
   tb_statusText (ov_topBar (ui_overlay ui_paused)) = (if tb_running (ov_topBar (ui_overlay ui_paused)) then txt_running else txt_paused)"
  using ui_paused_reachable ui_reachable_sync [of res0 800 600 ring_graph "sconst 0" ui_paused] by simp

lemma ui_started_running: "m_running (ui_sim ui_started)"
  by (simp add: ui_started_def start_sim_def Let_def)

text \<open>Witness of the badge: the application after \<open>start()\<close>.\<close>

theorem ui_reachable_badge_witness:
  "ui_reachable res0 800 600 ring_graph (sconst 0) ui_started \<and> m_running (ui_sim ui_started) \<and>
   tb_running (ov_topBar (ui_overlay ui_started)) = isRunning (ui_sim ui_started) \<and>
   (m_timerActive (ui_sim ui_started) \<longleftrightarrow> \<not> m_paused (ui_sim ui_started))"
  using ui_started_reachable ui_started_running ui_reachable_badge [OF ui_started_reachable ui_started_running] by blast

lemma ui_paused_flags: "\<not> m_running (ui_sim ui_paused)" "m_paused (ui_sim ui_paused)"
  by (simp_all add: ui_paused_def ui0_def ui_init_def ui_startPause_def togglePause_def pause_def new_Simulator_def Let_def)

text \<open>Witness of the stale badge: two clicks on the start/pause button before \<open>start()\<close>.\<close>

theorem ui_startPause_stale_badge_witness:
  "ui_reachable res0 800 600 ring_graph (sconst 0) ui_paused \<and>
   \<not> m_running (ui_sim ui_paused) \<and> m_paused (ui_sim ui_paused) \<and>
   m_timerActive (ui_sim (ui_startPause res0 ui_paused)) \<and> \<not> m_paused (ui_sim (ui_startPause res0 ui_paused)) \<and>
   \<not> tb_running (ov_topBar (ui_overlay (ui_startPause res0 ui_paused))) \<and>
   tb_statusText (ov_topBar (ui_overlay (ui_startPause res0 ui_paused))) = txt_paused"
  using ui_paused_reachable ui_paused_flags ui_startPause_stale_badge [OF ui_paused_flags] by blast

lemma ring_vertices: "m_vertices (new_Simulator ring_graph (sconst 0)) = [0, 1]"
  by (simp add: new_Simulator_def ring_graph_def line_graph_def num_vertices_def upt_rec)

text \<open>Witness of the rejection loops on the two-way ring: the constant stream always draws vertex 0, which is accepted.\<close>

theorem setVehicleCount_returns_witness:
  "m_vertices (new_Simulator ring_graph (sconst 0)) \<noteq> [] \<and>
   fair_draws (sim_graph (new_Simulator ring_graph (sconst 0))) (m_vertices (new_Simulator ring_graph (sconst 0)))
     (m_rand (new_Simulator ring_graph (sconst 0))) \<and>
   (\<exists>s'. setVehicleCount 5 no_junk (new_Simulator ring_graph (sconst 0)) = Some s' \<and>
      list_all (\<lambda>c. (isValidVertex (start c) ring_graph \<or> hasValidOutgoingEdge (start c) ring_graph) \<and>
                   (isValidVertex (goal c) ring_graph \<or> hasValidOutgoingEdge (goal c) ring_graph))
        (drop (length (m_vehicles (new_Simulator ring_graph (sconst 0)))) (m_vehicles s')))"
proof -
  have ne: "m_vertices (new_Simulator ring_graph (sconst 0)) \<noteq> []" by (simp add: ring_vertices)
  have g: "sim_graph (new_Simulator ring_graph (sconst 0)) = ring_graph" "m_rand (new_Simulator ring_graph (sconst 0)) = sconst 0"
    by (simp_all add: new_Simulator_def)
  have f: "fair_draws (sim_graph (new_Simulator ring_graph (sconst 0))) (m_vertices (new_Simulator ring_graph (sconst 0)))
     (m_rand (new_Simulator ring_graph (sconst 0)))"
    unfolding g ring_vertices fair_draws_def using ring_valid by auto
  show ?thesis using ne f setVehicleCount_returns [OF ne f, of 5 no_junk] unfolding g by blast
qed

text \<open>Witness of the hanging rejection loop: a footway is no valid road.\<close>

theorem setVehicleCount_hangs_witness:
  "no_valid_edges (sim_graph (new_Simulator foot_graph (sconst 0))) \<and> m_vertices (new_Simulator foot_graph (sconst 0)) \<noteq> [] \<and>
   int (length (m_vehicles (new_Simulator foot_graph (sconst 0)))) < 1 \<and>
   setVehicleCount 1 no_junk (new_Simulator foot_graph (sconst 0)) = None"
proof -
  have n: "no_valid_edges (sim_graph (new_Simulator foot_graph (sconst 0)))"
    by (simp add: new_Simulator_def no_valid_edges_def foot_graph_def isValidRoad_def valid_road_types_def)
  have v: "m_vertices (new_Simulator foot_graph (sconst 0)) \<noteq> []"
    by (simp add: new_Simulator_def foot_graph_def line_graph_def num_vertices_def)
  have c: "int (length (m_vehicles (new_Simulator foot_graph (sconst 0)))) < 1" by (simp add: new_Simulator_def)
  show ?thesis using n v c setVehicleCount_hangs [OF n v c] by blast
qed

end
